theory Spec2Isabelle
  imports Main "HOL-Library.Sublist" "HOL-Library.AList" "HOL-Library.Multiset"
begin

section \<open>Python values used by the script\<close>

text \<open>
  The account synchronisation script \<^verbatim>\<open>main.py\<close> is a straight-line module: it loads
  three snapshots, computes four key sets and runs one loop per set against the Planon
  REST client. The development below embeds the script from its MAIN section on
  (line 64); the SETUP section contributes the run date \<^verbatim>\<open>today\<close> and the exclusion
  dictionary, whose construction (line 37) is embedded as \<open>load_excludes\<close>.

  Strings are the byte strings of the encoded text; \<^verbatim>\<open>str.lower\<close> is a built-in of the
  language and enters as a parameter (\<open>str_lower\<close>, below).
\<close>

type_synonym key = string

text \<open>The capital letters of ASCII.\<close>

definition is_upper :: "char \<Rightarrow> bool" where
  "is_upper c = (65 \<le> (of_char c :: nat) \<and> (of_char c :: nat) \<le> 90)"

text \<open>The operator \<^verbatim>\<open>sub in s\<close> on strings: \<open>sub\<close> occurs in \<open>s\<close> as a contiguous block.\<close>

fun py_in :: "string \<Rightarrow> string \<Rightarrow> bool" where
  "py_in sub [] = (sub = [])"
| "py_in sub (c # cs) = (prefix sub (c # cs) \<or> py_in sub cs)"

text \<open>Decimal rendering of a length inside an f-string.\<close>

definition digit :: "nat \<Rightarrow> char" where
  "digit n = ''0123456789'' ! n"

fun str_nat :: "nat \<Rightarrow> string" where
  "str_nat n = (if n < 10 then [digit n] else str_nat (n div 10) @ [digit (n mod 10)])"

declare str_nat.simps [simp del]

text \<open>
  A dictionary keeps its keys in insertion order; assigning to a key that is present
  replaces the value in place. The comprehension \<^verbatim>\<open>{k(x): x for x in xs}\<close> assigns
  the elements from left to right.
\<close>

type_synonym 'v dict = "(key \<times> 'v) list"

definition dict_comp :: "('a \<Rightarrow> key) \<Rightarrow> 'a list \<Rightarrow> 'a dict" where
  "dict_comp k xs = foldl (\<lambda>d x. AList.update (k x) x d) [] xs"

definition keys :: "'v dict \<Rightarrow> key list" where
  "keys d = map fst d"

text \<open>
  A Python \<^verbatim>\<open>set\<close> of keys is represented by a duplicate-free list of its members.
  The order in which a \<^verbatim>\<open>for\<close> loop visits a set is not specified by the language:
  \<open>set_iteration\<close> takes a sequence of choices, each selecting the next member among
  those not yet visited, so that every order is covered by some choice sequence.
\<close>

definition set_diff :: "key list \<Rightarrow> key list \<Rightarrow> key list" where
  "set_diff a b = filter (\<lambda>k. k \<notin> set b) a"

definition set_inter :: "key list \<Rightarrow> key list \<Rightarrow> key list" where
  "set_inter a b = filter (\<lambda>k. k \<in> set b) a"

primrec set_iteration :: "nat list \<Rightarrow> key list \<Rightarrow> key list" where
  "set_iteration [] xs = xs"
| "set_iteration (c # cs) xs =
     (if xs = [] then []
      else let i = c mod length xs
           in xs ! i # set_iteration cs (take i xs @ drop (Suc i) xs))"


section \<open>Records of the two directories\<close>

text \<open>
  A person of the iPaaS roster is a dictionary read at four keys. An account of Planon
  is an object read and assigned at five attributes; an account without a display name
  has \<^verbatim>\<open>Description = None\<close>.
\<close>

record person =
  netid :: string
  first_name :: string
  name :: string
  dartmouth_affiliation :: string

record date =
  year :: nat
  month :: nat
  day :: nat

type_synonym syscode = string

record account =
  Accountname :: string
  Description :: "string option"
  EndDate :: "date option"
  PasswordNeverExpires :: bool
  Syscode :: syscode

record account_group =
  group_Description :: string
  group_Syscode :: syscode

record usr_person =
  person_Code :: string
  person_Syscode :: syscode

record exclude_entry =
  account_name :: string
  metadata :: string

text \<open>The \<^verbatim>\<open>values\<close> dictionary of \<^verbatim>\<open>planon.Account.create\<close> (lines 108 to 113).\<close>

record account_values =
  values_Accountname :: string
  values_Description :: string
  values_BeginDate :: string
  values_PasswordNeverExpires :: bool

text \<open>
  The two filters of \<^verbatim>\<open>planon.Account.find\<close>: \<open>EndDate_exists\<close> is the operand of
  \<^verbatim>\<open>"EndDate": {"exists": ...}\<close> and \<open>PasswordNeverExpires_eq\<close> that of
  \<^verbatim>\<open>"PasswordNeverExpires": {"eq": ...}\<close>; \<open>None\<close> when the filter has no such entry.
\<close>

record account_filter =
  EndDate_exists :: "bool option"
  PasswordNeverExpires_eq :: "bool option"

definition account_filter :: account_filter where
  "account_filter = \<lparr>EndDate_exists = Some False, PasswordNeverExpires_eq = None\<rparr>"

definition account_filter_pwd :: account_filter where
  "account_filter_pwd = \<lparr>EndDate_exists = Some False, PasswordNeverExpires_eq = Some False\<rparr>"

text \<open>\<^verbatim>\<open>today.strftime("%Y-%m-%d")\<close>, for the four-digit years a run date has.\<close>

definition pad2 :: "nat \<Rightarrow> string" where
  "pad2 n = (if n < 10 then CHR ''0'' # str_nat n else str_nat n)"

definition strftime :: "date \<Rightarrow> string" where
  "strftime d = str_nat (year d) @ ''-'' @ pad2 (month d) @ ''-'' @ pad2 (day d)"

definition str_opt :: "string option \<Rightarrow> string" where
  "str_opt v = (case v of None \<Rightarrow> ''None'' | Some s \<Rightarrow> s)"

section \<open>Failures\<close>

text \<open>
  A raised exception is either a \<^verbatim>\<open>requests.exceptions.HTTPError\<close> or any other
  \<^verbatim>\<open>Exception\<close>; both carry the text that \<^verbatim>\<open>str(e)\<close> returns.
\<close>

datatype exn = HTTPError string | Exception string

fun str :: "exn \<Rightarrow> string" where
  "str (HTTPError m) = m"
| "str (Exception m) = m"

text \<open>\<^verbatim>\<open>str(KeyError(k))\<close> is the \<^verbatim>\<open>repr\<close> of the key (a key without quotes or escapes).\<close>

definition KeyError :: "key \<Rightarrow> exn" where
  "KeyError k = Exception (CHR 0x27 # k @ [CHR 0x27])"

text \<open>The two \<^verbatim>\<open>ValueError\<close>s of the unpacking \<^verbatim>\<open>(planon_person,) = ...\<close> (line 137).\<close>

definition unpack_too_few :: exn where
  "unpack_too_few = Exception ''not enough values to unpack (expected 1, got 0)''"

definition unpack_too_many :: exn where
  "unpack_too_many = Exception ''too many values to unpack (expected 1)''"

text \<open>\<^verbatim>\<open>today-1\<close> (line 229) subtracts an \<^verbatim>\<open>int\<close> from a \<^verbatim>\<open>datetime.date\<close>.\<close>

definition date_minus_int :: exn where
  "date_minus_int =
     Exception (''unsupported operand type(s) for -: '' @ [CHR 0x27] @ ''datetime.date''
                @ [CHR 0x27] @ '' and '' @ [CHR 0x27] @ ''int'' @ [CHR 0x27])"

section \<open>The external services and the state of a run\<close>

text \<open>
  The roster provider (\<^verbatim>\<open>ipass.utils\<close>) and the Planon client are outside the
  repository. They are parameters of the embedding: each operation takes the state
  \<open>'w\<close> of the outside world and returns its answer, or the exception it raises,
  with the new state. \<^verbatim>\<open>save()\<close> returns the account as the server answers it.
  \<open>str_lower\<close> is \<^verbatim>\<open>str.lower\<close>, the built-in that the script applies to account names.
\<close>

record 'w services =
  str_lower :: "string \<Rightarrow> string"
  get_people :: "'w \<Rightarrow> (exn + person list) \<times> 'w"
  AccountGroup_find :: "'w \<Rightarrow> (exn + account_group list) \<times> 'w"
  Account_find :: "account_filter \<Rightarrow> 'w \<Rightarrow> (exn + account list) \<times> 'w"
  Account_create :: "account_values \<Rightarrow> 'w \<Rightarrow> (exn + account) \<times> 'w"
  AccountAccountGroup_create :: "syscode \<Rightarrow> syscode \<Rightarrow> 'w \<Rightarrow> (exn + unit) \<times> 'w"
  UsrPerson_find :: "key \<Rightarrow> 'w \<Rightarrow> (exn + usr_person list) \<times> 'w"
  AccountPerson_create :: "syscode \<Rightarrow> syscode \<Rightarrow> 'w \<Rightarrow> (exn + unit) \<times> 'w"
  Account_save :: "account \<Rightarrow> 'w \<Rightarrow> (exn + account) \<times> 'w"

text \<open>
  Every call the script makes is recorded, with its arguments, in the order made:
  \<open>AccountAccountGroupCreate g a\<close> has \<^verbatim>\<open>AccountGroupRef = g\<close> and \<^verbatim>\<open>AccountRef = a\<close>,
  \<open>UsrPersonFind k\<close> is the lookup with \<^verbatim>\<open>FreeString7 eq k\<close>,
  \<open>AccountPersonCreate p a\<close> has \<^verbatim>\<open>PersonRef = p\<close> and \<^verbatim>\<open>AccountRef = a\<close>, and
  \<open>AccountSave a\<close> is \<^verbatim>\<open>a.save()\<close> with the attributes of \<open>a\<close> at the time of the call.
\<close>

datatype call =
    GetPeople
  | AccountGroupFind
  | AccountFind account_filter
  | AccountCreate account_values
  | AccountAccountGroupCreate syscode syscode
  | UsrPersonFind key
  | AccountPersonCreate syscode syscode
  | AccountSave account

datatype level = DEBUG | INFO | WARNING | ERROR

type_synonym log_entry = "level \<times> string"

text \<open>
  The module's global variables that the loops assign: the ten outcome lists and the
  dictionary \<^verbatim>\<open>planon_accounts\<close>, whose account objects the Update, Deactivate and
  password loops assign in place. \<open>calls\<close> and \<open>logs\<close> record what the run did.
\<close>

record 'w run_state =
  world :: 'w
  calls :: "call list"
  logs :: "log_entry list"
  planon_accounts :: "account dict"
  inserts_succeeded :: "key list"
  inserts_skipped :: "key list"
  inserts_failed :: "key list"
  inserts_failed_to_link_person :: "key list"
  updates_succeeded :: "key list"
  updates_failed :: "key list"
  deactivates_succeeded :: "key list"
  deactivates_failed :: "key list"
  pwd_expire_succeeded :: "key list"
  pwd_expire_failed :: "key list"

definition log :: "level \<Rightarrow> string \<Rightarrow> 'w run_state \<Rightarrow> 'w run_state" where
  "log l m s = s\<lparr>logs := logs s @ [(l, m)]\<rparr>"

text \<open>A call to a service: the call is recorded and the world advances.\<close>

definition remote :: "call \<Rightarrow> ('w \<Rightarrow> (exn + 'a) \<times> 'w) \<Rightarrow> 'w run_state \<Rightarrow> (exn + 'a) \<times> 'w run_state" where
  "remote c f s = (case f (world s) of (r, w) \<Rightarrow> (r, s\<lparr>world := w, calls := calls s @ [c]\<rparr>))"

text \<open>
  Statements in sequence inside a \<^verbatim>\<open>try\<close> block (or at module level): an exception
  raised by the first skips the rest.
\<close>

definition seq :: "('s \<Rightarrow> (exn + 'a) \<times> 's) \<Rightarrow> ('a \<Rightarrow> 's \<Rightarrow> (exn + 'b) \<times> 's) \<Rightarrow> 's \<Rightarrow> (exn + 'b) \<times> 's" where
  "seq m f s = (case m s of (Inl e, s') \<Rightarrow> (Inl e, s') | (Inr a, s') \<Rightarrow> f a s')"

definition raise :: "exn \<Rightarrow> 's \<Rightarrow> (exn + 'a) \<times> 's" where
  "raise e s = (Inl e, s)"

definition return :: "'a \<Rightarrow> 's \<Rightarrow> (exn + 'a) \<times> 's" where
  "return a s = (Inr a, s)"

text \<open>A statement that cannot raise, followed by the rest of the block.\<close>

definition step :: "('s \<Rightarrow> 's) \<Rightarrow> ('s \<Rightarrow> (exn + 'a) \<times> 's) \<Rightarrow> 's \<Rightarrow> (exn + 'a) \<times> 's" where
  "step g m s = m (g s)"

text \<open>The subscription \<^verbatim>\<open>d[k]\<close>.\<close>

definition subscript :: "'v dict \<Rightarrow> key \<Rightarrow> 's \<Rightarrow> (exn + 'v) \<times> 's" where
  "subscript d k s = (case map_of d k of None \<Rightarrow> (Inl (KeyError k), s) | Some v \<Rightarrow> (Inr v, s))"


section \<open>INSERTS (lines 91 to 172)\<close>

definition unpack1 :: "'a list \<Rightarrow> 's \<Rightarrow> (exn + 'a) \<times> 's" where
  "unpack1 xs = (case xs of [] \<Rightarrow> raise unpack_too_few
                 | [x] \<Rightarrow> return x
                 | _ \<Rightarrow> raise unpack_too_many)"

definition insert_values :: "date \<Rightarrow> key \<Rightarrow> person \<Rightarrow> account_values" where
  "insert_values today ins dart_person =
     \<lparr>values_Accountname = ins,
      values_Description = name dart_person,
      values_BeginDate = strftime today,
      values_PasswordNeverExpires = True\<rparr>"

text \<open>The \<^verbatim>\<open>try\<close> block of the insert loop (lines 102 to 144); \<open>ins\<close> is the loop variable \<^verbatim>\<open>insert\<close>.\<close>

definition insert_try ::
  "'w services \<Rightarrow> date \<Rightarrow> account_group \<Rightarrow> person dict \<Rightarrow> key \<Rightarrow>
   'w run_state \<Rightarrow> (exn + unit) \<times> 'w run_state" where
  "insert_try api today planon_requestor_group dart_people_with_excludes ins =
     seq (subscript dart_people_with_excludes ins) (\<lambda>dart_person.
     step (log DEBUG (''Inserting account '' @ ins)) (
     seq (remote (AccountCreate (insert_values today ins dart_person))
            (Account_create api (insert_values today ins dart_person))) (\<lambda>planon_account.
     step (log INFO (''Inserted account for '' @ ins)) (
     step (log INFO ''Linking group'') (
     seq (remote (AccountAccountGroupCreate (group_Syscode planon_requestor_group) (Syscode planon_account))
            (AccountAccountGroup_create api (group_Syscode planon_requestor_group) (Syscode planon_account)))
       (\<lambda>account_group_link.
     step (log INFO (''Linked account for '' @ ins @ '' to requestor group ''
            @ group_Description planon_requestor_group @ '', syscode ''
            @ group_Syscode planon_requestor_group @ '' '')) (
     step (log DEBUG ''Finding person to link to account'') (
     seq (remote (UsrPersonFind ins) (UsrPerson_find api ins)) (\<lambda>found.
     seq (unpack1 found) (\<lambda>planon_person.
     step (log DEBUG ''Linking account to person'') (
     seq (remote (AccountPersonCreate (person_Syscode planon_person) (Syscode planon_account))
            (AccountPerson_create api (person_Syscode planon_person) (Syscode planon_account)))
       (\<lambda>account_person_link.
     step (log INFO (''Account created for '' @ ins @ '' and linked to person ''
            @ person_Code planon_person)) (
     step (\<lambda>s. s\<lparr>inserts_succeeded := inserts_succeeded s @ [ins]\<rparr>) (
     return ()))))))))))))))"

text \<open>The two \<^verbatim>\<open>except\<close> clauses of the insert loop (lines 146 to 172).\<close>

definition insert_except :: "key \<Rightarrow> exn \<Rightarrow> 'w run_state \<Rightarrow> 'w run_state" where
  "insert_except ins e s =
     (case e of
        HTTPError _ \<Rightarrow>
          if py_in ''not unique'' (str e) then
            (log WARNING (''Account '' @ ins
               @ '' is not unique and was skipped, this is due to reference date awareness (RDA).'') s)
            \<lparr>inserts_skipped := inserts_skipped s @ [ins]\<rparr>
          else if py_in ''unpack'' (str e) then
            (log ERROR (''Account '' @ ins @ '' failed to link to a PER record due to ''
               @ str e @ '' '') s)
            \<lparr>inserts_failed_to_link_person := inserts_failed_to_link_person s @ [ins]\<rparr>
          else
            (log ERROR (''Account '' @ ins @ '' failed to create due to '' @ str e @ '' '') s)
            \<lparr>inserts_failed := inserts_failed s @ [ins]\<rparr>
      | Exception _ \<Rightarrow>
          if py_in ''unpack'' (str e) then
            (log ERROR (''Account '' @ ins @ '' failed to link to a PER record due to ''
               @ str e @ '' '') s)
            \<lparr>inserts_failed_to_link_person := inserts_failed_to_link_person s @ [ins]\<rparr>
          else
            (log ERROR (''Creation of account for '' @ ins @ '' triggered an exception ''
               @ str e) s)
            \<lparr>inserts_failed := inserts_failed s @ [ins]\<rparr>)"

text \<open>One iteration of a loop: the block before \<^verbatim>\<open>try\<close>, the \<^verbatim>\<open>try\<close> block, the handler.\<close>

definition try_except ::
  "('s \<Rightarrow> (exn + unit) \<times> 's) \<Rightarrow> (exn \<Rightarrow> 's \<Rightarrow> 's) \<Rightarrow> 's \<Rightarrow> 's" where
  "try_except body handler s =
     (case body s of (Inl e, s') \<Rightarrow> handler e s' | (Inr _, s') \<Rightarrow> s')"

definition insert_one ::
  "'w services \<Rightarrow> date \<Rightarrow> account_group \<Rightarrow> person dict \<Rightarrow> key \<Rightarrow> 'w run_state \<Rightarrow> 'w run_state" where
  "insert_one api today planon_requestor_group dart_people_with_excludes ins s =
     try_except (insert_try api today planon_requestor_group dart_people_with_excludes ins)
       (insert_except ins)
       (log DEBUG (''Processing insert for '' @ ins) s)"

definition inserts :: "person dict \<Rightarrow> account dict \<Rightarrow> key list" where
  "inserts dart_people_with_excludes accounts =
     set_diff (keys dart_people_with_excludes) (keys accounts)"

definition inserts_pass ::
  "'w services \<Rightarrow> nat list \<Rightarrow> date \<Rightarrow> account_group \<Rightarrow> person dict \<Rightarrow>
   'w run_state \<Rightarrow> 'w run_state" where
  "inserts_pass api order today planon_requestor_group dart_people_with_excludes s =
     fold (insert_one api today planon_requestor_group dart_people_with_excludes)
       (set_iteration order (inserts dart_people_with_excludes (planon_accounts s)))
       (log INFO (''Total number of people to be inserted in Planon ''
          @ str_nat (length (inserts dart_people_with_excludes (planon_accounts s)))) s)"

section \<open>UPDATES (lines 180 to 205)\<close>

text \<open>
  \<open>assign_account\<close> is an assignment to an attribute of the account object stored
  under a key of \<^verbatim>\<open>planon_accounts\<close>: the dictionary holds the object, so later
  readers of the dictionary see the assignment.
\<close>

definition assign_account :: "key \<Rightarrow> account \<Rightarrow> 'w run_state \<Rightarrow> 'w run_state" where
  "assign_account k a s = s\<lparr>planon_accounts := AList.update k a (planon_accounts s)\<rparr>"

definition update_try :: "'w services \<Rightarrow> person dict \<Rightarrow> key \<Rightarrow> 'w run_state \<Rightarrow> (exn + unit) \<times> 'w run_state" where
  "update_try api dart_people update =
     seq (subscript dart_people update) (\<lambda>dart_person.
     seq (\<lambda>s. subscript (planon_accounts s) update s) (\<lambda>planon_account.
     if Some (name dart_person) \<noteq> Description planon_account then
       step (assign_account update (planon_account\<lparr>Description := Some (name dart_person)\<rparr>)) (
       seq (remote (AccountSave (planon_account\<lparr>Description := Some (name dart_person)\<rparr>))
              (Account_save api (planon_account\<lparr>Description := Some (name dart_person)\<rparr>)))
         (\<lambda>planon_account.
       step (\<lambda>s. s\<lparr>updates_succeeded := updates_succeeded s @ [update]\<rparr>) (
       step (log INFO (''Displayname '' @ str_opt (Description planon_account)
              @ '' updated for '' @ Accountname planon_account)) (
       return ()))))
     else
       step (log DEBUG (''Displayname '' @ str_opt (Description planon_account)
              @ '' matches for '' @ Accountname planon_account @ '', no update required'')) (
       return ())))"

definition update_except :: "key \<Rightarrow> exn \<Rightarrow> 'w run_state \<Rightarrow> 'w run_state" where
  "update_except update e s =
     log INFO (''Failed to find the linked person for  '' @ update @ '' exception '' @ str e)
       (s\<lparr>updates_failed := updates_failed s @ [update]\<rparr>)"

definition update_one :: "'w services \<Rightarrow> person dict \<Rightarrow> key \<Rightarrow> 'w run_state \<Rightarrow> 'w run_state" where
  "update_one api dart_people update s =
     try_except (update_try api dart_people update) (update_except update) s"

definition updates :: "account dict \<Rightarrow> person dict \<Rightarrow> key list" where
  "updates accounts dart_people = set_inter (keys accounts) (keys dart_people)"

text \<open>
  Line 184 fetches the accounts again and rebinds \<^verbatim>\<open>planon_accounts\<close>; the call is at
  module level, so an exception it raises ends the run.
\<close>

text \<open>The key of an account in a snapshot: \<^verbatim>\<open>account.Accountname.lower()\<close>.\<close>

definition account_key :: "'w services \<Rightarrow> account \<Rightarrow> key" where
  "account_key api account = str_lower api (Accountname account)"

definition fetch_accounts :: "'w services \<Rightarrow> 'w run_state \<Rightarrow> (exn + unit) \<times> 'w run_state" where
  "fetch_accounts api =
     seq (remote (AccountFind account_filter) (Account_find api account_filter)) (\<lambda>found.
     step (\<lambda>s. s\<lparr>planon_accounts := dict_comp (account_key api) found\<rparr>) (
     return ()))"

definition updates_loop :: "'w services \<Rightarrow> nat list \<Rightarrow> person dict \<Rightarrow> 'w run_state \<Rightarrow> 'w run_state" where
  "updates_loop api order dart_people s =
     fold (update_one api dart_people)
       (set_iteration order (updates (planon_accounts s) dart_people)) s"

definition updates_pass ::
  "'w services \<Rightarrow> nat list \<Rightarrow> person dict \<Rightarrow> 'w run_state \<Rightarrow> (exn + unit) \<times> 'w run_state" where
  "updates_pass api order dart_people =
     seq (fetch_accounts api) (\<lambda>_.
     step (updates_loop api order dart_people) (
     return ()))"


section \<open>DEACTIVATES (lines 214 to 233)\<close>

text \<open>
  The f-string of line 229 is evaluated inside the \<^verbatim>\<open>try\<close> block, after the append
  to \<^verbatim>\<open>deactivates_succeeded\<close>; its \<^verbatim>\<open>today-1\<close> raises.
\<close>

definition deactivate_try :: "'w services \<Rightarrow> date \<Rightarrow> key \<Rightarrow> 'w run_state \<Rightarrow> (exn + unit) \<times> 'w run_state" where
  "deactivate_try api today deactivate =
     seq (\<lambda>s. subscript (planon_accounts s) deactivate s) (\<lambda>planon_account.
     step (assign_account deactivate (planon_account\<lparr>EndDate := Some today\<rparr>)) (
     seq (remote (AccountSave (planon_account\<lparr>EndDate := Some today\<rparr>))
            (Account_save api (planon_account\<lparr>EndDate := Some today\<rparr>)))
       (\<lambda>inactivated_account.
     step (\<lambda>s. s\<lparr>deactivates_succeeded := deactivates_succeeded s @ [deactivate]\<rparr>) (
     raise date_minus_int))))"

definition deactivate_except :: "key \<Rightarrow> exn \<Rightarrow> 'w run_state \<Rightarrow> 'w run_state" where
  "deactivate_except deactivate e s =
     log ERROR (''Failed to deactivate account '' @ deactivate @ '' exception '' @ str e)
       (s\<lparr>deactivates_failed := deactivates_failed s @ [deactivate]\<rparr>)"

definition deactivate_one :: "'w services \<Rightarrow> date \<Rightarrow> key \<Rightarrow> 'w run_state \<Rightarrow> 'w run_state" where
  "deactivate_one api today deactivate s =
     try_except (deactivate_try api today deactivate) (deactivate_except deactivate)
       (log DEBUG (''Processing deactivation for '' @ deactivate) s)"

definition deactivates :: "account dict \<Rightarrow> person dict \<Rightarrow> exclude_entry dict \<Rightarrow> key list" where
  "deactivates accounts dart_people account_sync_excludes =
     set_diff (set_diff (keys accounts) (keys dart_people)) (keys account_sync_excludes)"

definition deactivates_pass ::
  "'w services \<Rightarrow> nat list \<Rightarrow> date \<Rightarrow> person dict \<Rightarrow> exclude_entry dict \<Rightarrow>
   'w run_state \<Rightarrow> 'w run_state" where
  "deactivates_pass api order today dart_people account_sync_excludes s =
     fold (deactivate_one api today)
       (set_iteration order (deactivates (planon_accounts s) dart_people account_sync_excludes))
       (log INFO (''Total number of accounts to be deactivated: ''
          @ str_nat (length (deactivates (planon_accounts s) dart_people account_sync_excludes))) s)"

section \<open>PWD_EXPIRES (lines 241 to 261)\<close>

text \<open>
  The loop runs over the keys of the third fetch, \<^verbatim>\<open>planon_accounts_with_pwd_expires\<close>,
  and takes each account object from \<^verbatim>\<open>planon_accounts\<close> (line 252).
\<close>

definition pwd_expire_try :: "'w services \<Rightarrow> key \<Rightarrow> 'w run_state \<Rightarrow> (exn + unit) \<times> 'w run_state" where
  "pwd_expire_try api pwd_expire =
     seq (\<lambda>s. subscript (planon_accounts s) pwd_expire s) (\<lambda>planon_account.
     step (assign_account pwd_expire (planon_account\<lparr>PasswordNeverExpires := True\<rparr>)) (
     seq (remote (AccountSave (planon_account\<lparr>PasswordNeverExpires := True\<rparr>))
            (Account_save api (planon_account\<lparr>PasswordNeverExpires := True\<rparr>)))
       (\<lambda>pwd_expire_account.
     step (\<lambda>s. s\<lparr>pwd_expire_succeeded := pwd_expire_succeeded s @ [pwd_expire]\<rparr>) (
     step (log INFO (''Modified account '' @ pwd_expire
            @ '' by changing the PasswordNeverExpires to Yes'')) (
     return ())))))"

definition pwd_expire_except :: "key \<Rightarrow> exn \<Rightarrow> 'w run_state \<Rightarrow> 'w run_state" where
  "pwd_expire_except pwd_expire e s =
     log ERROR (''Failed to modify account '' @ pwd_expire @ '' due to exception '' @ str e)
       (s\<lparr>pwd_expire_failed := pwd_expire_failed s @ [pwd_expire]\<rparr>)"

definition pwd_expire_one :: "'w services \<Rightarrow> key \<Rightarrow> 'w run_state \<Rightarrow> 'w run_state" where
  "pwd_expire_one api pwd_expire s =
     try_except (pwd_expire_try api pwd_expire) (pwd_expire_except pwd_expire) s"

definition pwd_expires :: "'w services \<Rightarrow> account list \<Rightarrow> key list" where
  "pwd_expires api found = keys (dict_comp (account_key api) found)"

definition pwd_expires_loop :: "'w services \<Rightarrow> nat list \<Rightarrow> account list \<Rightarrow> 'w run_state \<Rightarrow> 'w run_state" where
  "pwd_expires_loop api order found s =
     fold (pwd_expire_one api) (set_iteration order (pwd_expires api found))
       (log INFO (''Total number of accounts set to expire passwords ''
          @ str_nat (length (dict_comp (account_key api) found))) s)"

definition pwd_expires_pass ::
  "'w services \<Rightarrow> nat list \<Rightarrow> 'w run_state \<Rightarrow> (exn + unit) \<times> 'w run_state" where
  "pwd_expires_pass api order =
     seq (remote (AccountFind account_filter_pwd) (Account_find api account_filter_pwd)) (\<lambda>found.
     step (pwd_expires_loop api order found) (
     return ()))"

section \<open>Results and exit code (lines 265 to 311)\<close>

definition nl :: string where
  "nl = [CHR 0x0A]"

definition results_message :: "'w run_state \<Rightarrow> string" where
  "results_message s =
     ''Logging results'' @ nl @ nl
     @ ''# ======================= RESULTS ======================= #'' @ nl
     @ nl
     @ ''Inserts Succeeded: '' @ str_nat (length (inserts_succeeded s)) @ nl
     @ ''Inserts Failed: '' @ str_nat (length (inserts_failed s)) @ nl
     @ nl
     @ ''Updates Succeeded: '' @ str_nat (length (updates_succeeded s)) @ nl
     @ ''Updates Failed: '' @ str_nat (length (updates_failed s)) @ nl
     @ nl
     @ ''Deactivates Succeeded: '' @ str_nat (length (deactivates_succeeded s)) @ nl
     @ ''Deactivates Failed: '' @ str_nat (length (deactivates_failed s)) @ nl
     @ nl
     @ ''Pwd_expire Succeeded: '' @ str_nat (length (pwd_expire_succeeded s)) @ nl
     @ ''Pwd_expire  Failed: '' @ str_nat (length (pwd_expire_failed s)) @ nl
     @ nl
     @ ''Inserts_failed_to_link_person: '' @ str_nat (length (inserts_failed_to_link_person s)) @ nl
     @ nl"

definition log_results :: "'w run_state \<Rightarrow> 'w run_state" where
  "log_results s = log INFO (results_message s) s"

text \<open>\<^verbatim>\<open>os.EX_OK\<close> and \<^verbatim>\<open>os.EX_DATAERR\<close>, the two arguments of \<^verbatim>\<open>sys.exit\<close>.\<close>

datatype exit_status = EX_OK | EX_DATAERR

fun exit_code :: "exit_status \<Rightarrow> nat" where
  "exit_code EX_OK = 0"
| "exit_code EX_DATAERR = 65"

definition rda_text :: string where
  "rda_text = '' that were not created as they already exist with RDA inactive and/or accounts that were not linked to Person record''"

definition set_exit_code :: "'w run_state \<Rightarrow> exit_status \<times> 'w run_state" where
  "set_exit_code s =
     (if inserts_skipped s \<noteq> [] then
        (EX_DATAERR,
         fold (\<lambda>insert_skipped. log WARNING (''Skipped creating account: '' @ insert_skipped))
           (inserts_skipped s)
           (log WARNING (''There are '' @ str_nat (length (inserts_skipped s)) @ ''accounts''
              @ rda_text) s))
      else if inserts_failed_to_link_person s \<noteq> [] then
        (EX_DATAERR,
         fold (\<lambda>k. log WARNING (''Failed to link person record for: '' @ k))
           (inserts_failed_to_link_person s)
           (log WARNING (''There are accounts'' @ str_nat (length (inserts_failed_to_link_person s))
              @ rda_text) s))
      else
        (EX_OK, log INFO ''Inserts were processed successfully, exiting'' s))"

section \<open>The module\<close>

definition load_excludes :: "exclude_entry list \<Rightarrow> exclude_entry dict" where
  "load_excludes json = dict_comp account_name json"

definition eligible :: "person \<Rightarrow> bool" where
  "eligible person =
     ((first_name person \<noteq> ''nonperson'' \<and> first_name person \<noteq> ''NONPERSON''
        \<and> first_name person \<noteq> ''NonPerson'')
      \<and> dartmouth_affiliation person \<noteq> ''SERVICE'')"

text \<open>The iteration orders of the four loops over sets.\<close>

record orders =
  inserts_order :: "nat list"
  updates_order :: "nat list"
  deactivates_order :: "nat list"
  pwd_expires_order :: "nat list"

definition initial :: "'w \<Rightarrow> 'w run_state" where
  "initial w =
     \<lparr>world = w, calls = [], logs = [], planon_accounts = [],
      inserts_succeeded = [], inserts_skipped = [], inserts_failed = [],
      inserts_failed_to_link_person = [],
      updates_succeeded = [], updates_failed = [],
      deactivates_succeeded = [], deactivates_failed = [],
      pwd_expire_succeeded = [], pwd_expire_failed = []\<rparr>"

text \<open>
  Lines 64 to 83: the roster is fetched twice, the second time filtered; the requestor
  group is looked up by its description; the accounts without end date are fetched.
\<close>

definition load ::
  "'w services \<Rightarrow> 'w run_state \<Rightarrow> (exn + person dict \<times> person dict \<times> account_group) \<times> 'w run_state" where
  "load api =
     step (log INFO ''Caching iPaaS data'') (
     seq (remote GetPeople (get_people api)) (\<lambda>people.
     step (log INFO (''Total number of Dartmouth people: ''
            @ str_nat (length (dict_comp netid people)))) (
     seq (remote GetPeople (get_people api)) (\<lambda>people_again.
     step (log INFO (''Total number of Dartmouth people excluding service and non-person accounts: ''
            @ str_nat (length (dict_comp netid (filter eligible people_again))))) (
     step (log INFO ''Caching Planon data'') (
     seq (remote AccountGroupFind (AccountGroup_find api)) (\<lambda>groups.
     seq (subscript (dict_comp group_Description groups) ''DC - Requestors'') (\<lambda>planon_requestor_group.
     step (log DEBUG ''Getting list of Planon accounts'') (
     seq (fetch_accounts api) (\<lambda>_.
     step (\<lambda>s. log DEBUG (''Total number of Planon accounts: ''
            @ str_nat (length (planon_accounts s))) s) (
     return (dict_comp netid people, dict_comp netid (filter eligible people_again),
             planon_requestor_group))))))))))))"

text \<open>
  The whole module from line 64 on. The result is \<open>Inr\<close> of the status passed to
  \<^verbatim>\<open>sys.exit\<close>, or \<open>Inl\<close> of the exception that a statement at module level raised
  (the interpreter then ends the process with a traceback).
\<close>

definition main ::
  "'w services \<Rightarrow> orders \<Rightarrow> date \<Rightarrow> exclude_entry list \<Rightarrow> 'w \<Rightarrow> (exn + exit_status) \<times> 'w run_state" where
  "main api order today json w =
     (seq (load api) (\<lambda>(dart_people, dart_people_with_excludes, planon_requestor_group).
      step (inserts_pass api (inserts_order order) today planon_requestor_group
              dart_people_with_excludes) (
      seq (updates_pass api (updates_order order) dart_people) (\<lambda>_.
      step (deactivates_pass api (deactivates_order order) today dart_people (load_excludes json)) (
      seq (pwd_expires_pass api (pwd_expires_order order)) (\<lambda>_.
      step log_results (
      (\<lambda>s. case set_exit_code s of (status, s') \<Rightarrow> (Inr status, s')))))))))
     (initial w)"


section \<open>A directory to run the script against\<close>

text \<open>
  A small in-memory stand-in for the two services, used to run the script on concrete
  inputs. \<open>directory\<close> holds the accounts; \<open>dormant\<close> names accounts that exist with
  a reference date in the future, which a query does not list and a create refuses;
  \<open>persons\<close> pairs the cross-reference field \<^verbatim>\<open>FreeString7\<close> with a person; \<open>others\<close>
  are batches of accounts that other clients of the directory create while the script
  runs, one batch becoming visible at each account query.
\<close>

record demo_world =
  roster :: "person list"
  groups :: "account_group list"
  directory :: "account list"
  dormant :: "string list"
  persons :: "(string \<times> usr_person) list"
  others :: "account list list"

definition matches :: "account_filter \<Rightarrow> account \<Rightarrow> bool" where
  "matches f a =
     ((case EndDate_exists f of None \<Rightarrow> True | Some b \<Rightarrow> (EndDate a \<noteq> None) = b)
      \<and> (case PasswordNeverExpires_eq f of None \<Rightarrow> True | Some b \<Rightarrow> PasswordNeverExpires a = b))"

definition demo_arrive :: "demo_world \<Rightarrow> demo_world" where
  "demo_arrive w =
     (case others w of [] \<Rightarrow> w
      | batch # rest \<Rightarrow> w\<lparr>directory := directory w @ batch, others := rest\<rparr>)"

definition demo_find :: "account_filter \<Rightarrow> demo_world \<Rightarrow> (exn + account list) \<times> demo_world" where
  "demo_find f w = (Inr (filter (matches f) (directory (demo_arrive w))), demo_arrive w)"

definition demo_create :: "account_values \<Rightarrow> demo_world \<Rightarrow> (exn + account) \<times> demo_world" where
  "demo_create v w =
     (if values_Accountname v \<in> set (dormant w) \<union> Accountname ` set (directory w) then
        (Inl (HTTPError (''The User name field with value '' @ values_Accountname v
                @ '' on Users is not unique.'')), w)
      else
        (Inr \<lparr>Accountname = values_Accountname v, Description = Some (values_Description v),
              EndDate = None, PasswordNeverExpires = values_PasswordNeverExpires v,
              Syscode = ''A'' @ str_nat (length (directory w))\<rparr>,
         w\<lparr>directory := directory w
              @ [\<lparr>Accountname = values_Accountname v, Description = Some (values_Description v),
                   EndDate = None, PasswordNeverExpires = values_PasswordNeverExpires v,
                   Syscode = ''A'' @ str_nat (length (directory w))\<rparr>]\<rparr>))"

definition demo_save :: "account \<Rightarrow> demo_world \<Rightarrow> (exn + account) \<times> demo_world" where
  "demo_save a w =
     (Inr a, w\<lparr>directory := map (\<lambda>b. if Syscode b = Syscode a then a else b) (directory w)\<rparr>)"

text \<open>The stand-in for \<^verbatim>\<open>str.lower\<close> lowers the capital letters of ASCII.\<close>

definition demo_lower_char :: "char \<Rightarrow> char" where
  "demo_lower_char c = (if is_upper c then char_of ((of_char c :: nat) + 32) else c)"

definition demo_lower :: "string \<Rightarrow> string" where
  "demo_lower s = map demo_lower_char s"

definition demo_api :: "demo_world services" where
  "demo_api =
     \<lparr>str_lower = demo_lower,
      get_people = (\<lambda>w. (Inr (roster w), w)),
      AccountGroup_find = (\<lambda>w. (Inr (groups w), w)),
      Account_find = demo_find,
      Account_create = demo_create,
      AccountAccountGroup_create = (\<lambda>g a w. (Inr (), w)),
      UsrPerson_find = (\<lambda>k w. (Inr (map snd (filter (\<lambda>(f, p). f = k) (persons w))), w)),
      AccountPerson_create = (\<lambda>p a w. (Inr (), w)),
      Account_save = demo_save\<rparr>"

definition demo_groups :: "account_group list" where
  "demo_groups = [\<lparr>group_Description = ''DC - Requestors'', group_Syscode = ''G7''\<rparr>]"

definition demo_today :: date where
  "demo_today = \<lparr>year = 2024, month = 3, day = 9\<rparr>"

definition demo_orders :: orders where
  "demo_orders = \<lparr>inserts_order = [], updates_order = [], deactivates_order = [],
                  pwd_expires_order = []\<rparr>"

definition demo_person :: "string \<Rightarrow> string \<Rightarrow> string \<Rightarrow> person" where
  "demo_person k n aff =
     \<lparr>netid = k, first_name = n, name = n, dartmouth_affiliation = aff\<rparr>"

definition demo_account :: "string \<Rightarrow> string \<Rightarrow> bool \<Rightarrow> syscode \<Rightarrow> account" where
  "demo_account k n never c =
     \<lparr>Accountname = k, Description = Some n, EndDate = None, PasswordNeverExpires = never,
      Syscode = c\<rparr>"

text \<open>
  The scenario of the specification: the roster has Alice (\<open>a\<close>) and Bob (\<open>b\<close>), the
  directory has Bob (\<open>b\<close>) and Carol (\<open>c\<close>), nothing is excluded; Alice has a person
  record in the directory.
\<close>

definition demo_world :: demo_world where
  "demo_world =
     \<lparr>roster = [demo_person ''a'' ''Alice'' ''STAFF'', demo_person ''b'' ''Bob'' ''STAFF''],
      groups = demo_groups,
      directory = [demo_account ''b'' ''Bob'' True ''A0'', demo_account ''c'' ''Carol'' True ''A1''],
      dormant = [],
      persons = [(''a'', \<lparr>person_Code = ''P1'', person_Syscode = ''U1''\<rparr>)],
      others = []\<rparr>"


text \<open>
  A second roster: Dee (\<open>d\<close>) has a dormant account, Eve (\<open>e\<close>) has no person record in
  the directory, and \<open>Svc1\<close> is a service account of the roster.
\<close>

definition demo_world_rda :: demo_world where
  "demo_world_rda =
     \<lparr>roster = [demo_person ''d'' ''Dee'' ''STAFF'', demo_person ''e'' ''Eve'' ''STAFF'',
                demo_person ''Svc1'' ''Scanner'' ''SERVICE''],
      groups = demo_groups,
      directory = [],
      dormant = [''d''],
      persons = [],
      others = []\<rparr>"

text \<open>
  A third: while the script runs, another client creates the account \<open>z\<close>, whose
  password expires; it is there when the script asks for the expiring passwords.
\<close>

definition demo_world_late :: demo_world where
  "demo_world_late =
     \<lparr>roster = [demo_person ''b'' ''Bob'' ''STAFF''],
      groups = demo_groups,
      directory = [demo_account ''b'' ''Bob'' False ''A0''],
      dormant = [],
      persons = [],
      others = [[], [], [demo_account ''z'' ''Zed'' False ''A9'']]\<rparr>"

text \<open>
  A state of the run at line 214, with a snapshot of three accounts, and an exclusion
  file that names Carol's account.
\<close>

definition demo_state :: "demo_world run_state" where
  "demo_state =
     (initial demo_world)
       \<lparr>planon_accounts :=
          [(''b'', demo_account ''b'' ''Bob'' True ''A0''),
           (''c'', demo_account ''c'' ''Carol'' True ''A1''),
           (''x'', demo_account ''x'' ''Xi'' False ''A2'')]\<rparr>"

text \<open>
  A state of a run on \<^const>\<open>demo_world_late\<close> at line 241: the two queries of lines 82 and
  184 are made, and the snapshot holds Bob's account.
\<close>

definition demo_state_late :: "demo_world run_state" where
  "demo_state_late =
     (initial (demo_arrive (demo_arrive demo_world_late)))
       \<lparr>planon_accounts := [(''b'', demo_account ''b'' ''Bob'' False ''A0'')]\<rparr>"

definition demo_excludes :: "exclude_entry list" where
  "demo_excludes = [\<lparr>account_name = ''c'', metadata = ''front desk''\<rparr>]"

section \<open>Notions used in the statements\<close>

text \<open>The number of summary reports in the log of a run.\<close>

definition results_count :: "'w run_state \<Rightarrow> nat" where
  "results_count s = length (filter (\<lambda>e. prefix ''Logging results'' (snd e)) (logs s))"

text \<open>
  \<open>appended_once k bs\<close>: of the outcome lists of a pass, given as pairs (before, after),
  exactly one has had \<open>k\<close> appended and every other is as it was.
\<close>

definition appended_once :: "key \<Rightarrow> (key list \<times> key list) list \<Rightarrow> bool" where
  "appended_once k bs =
     (length (filter (\<lambda>(old, new). new = old @ [k]) bs) = 1
      \<and> length (filter (\<lambda>(old, new). new = old) bs) = length bs - 1)"

text \<open>The exception is caught by the clause \<^verbatim>\<open>except HTTPError\<close>.\<close>

definition is_HTTPError :: "exn \<Rightarrow> bool" where
  "is_HTTPError e = (case e of HTTPError _ \<Rightarrow> True | Exception _ \<Rightarrow> False)"

text \<open>The four outcome lists of the insert loop.\<close>

definition insert_outcomes :: "'w run_state \<Rightarrow> key list \<times> key list \<times> key list \<times> key list" where
  "insert_outcomes s =
     (inserts_succeeded s, inserts_skipped s, inserts_failed s, inserts_failed_to_link_person s)"

text \<open>
  The names agree at \<open>k\<close>: the roster and \<^verbatim>\<open>planon_accounts\<close> both have the key, and the
  \<^verbatim>\<open>name\<close> of the person is the \<^verbatim>\<open>Description\<close> of the account.
\<close>

definition agree :: "person dict \<Rightarrow> key \<Rightarrow> 'w run_state \<Rightarrow> bool" where
  "agree S k s = (case (map_of S k, map_of (planon_accounts s) k) of
                    (Some p, Some a) \<Rightarrow> Some (name p) = Description a
                  | _ \<Rightarrow> False)"

definition has_upper :: "string \<Rightarrow> bool" where
  "has_upper s = list_ex is_upper s"

text \<open>A state transformer, or a block that may raise, leaves an observation \<open>g\<close> as it was.\<close>

definition keeps :: "('s \<Rightarrow> 'a) \<Rightarrow> ('s \<Rightarrow> 's) \<Rightarrow> bool" where
  "keeps g f = (\<forall>s. g (f s) = g s)"

definition keepsm :: "('s \<Rightarrow> 'a) \<Rightarrow> ('s \<Rightarrow> 'r \<times> 's) \<Rightarrow> bool" where
  "keepsm g m = (\<forall>s. g (snd (m s)) = g s)"

text \<open>
  A block that may raise leaves the observation \<open>g\<close> as it was when it raises, and
  changes it by \<open>h\<close> when it returns.
\<close>

definition finishes :: "('s \<Rightarrow> 'a) \<Rightarrow> ('a \<Rightarrow> 'a) \<Rightarrow> ('s \<Rightarrow> (exn + 'r) \<times> 's) \<Rightarrow> bool" where
  "finishes g h m = (\<forall>s. case m s of (Inl e, s') \<Rightarrow> g s' = g s | (Inr r, s') \<Rightarrow> g s' = h (g s))"

section \<open>Dictionaries, sets and iteration\<close>

lemma keys_update: "keys (AList.update k v d) = (if k \<in> set (keys d) then keys d else keys d @ [k])"
  by (induction d) (auto simp: keys_def)

lemma set_keys_foldl:
  "set (keys (foldl (\<lambda>d x. AList.update (f x) x d) d0 xs)) = set (keys d0) \<union> f ` set xs"
  by (induction xs arbitrary: d0) (auto simp: keys_update)

lemma distinct_keys_foldl:
  "distinct (keys d0) \<Longrightarrow> distinct (keys (foldl (\<lambda>d x. AList.update (f x) x d) d0 xs))"
  by (induction xs arbitrary: d0) (auto simp: keys_update)

lemma set_keys_dict_comp: "set (keys (dict_comp f xs)) = f ` set xs"
  by (simp add: dict_comp_def set_keys_foldl) (simp add: keys_def)

lemma distinct_keys_dict_comp: "distinct (keys (dict_comp f xs))"
  unfolding dict_comp_def by (rule distinct_keys_foldl) (simp add: keys_def)

lemma map_of_keys: "map_of d k = None \<longleftrightarrow> k \<notin> set (keys d)"
  by (simp add: keys_def map_of_eq_None_iff)

lemma mset_set_iteration: "mset (set_iteration cs xs) = mset xs"
proof (induction cs arbitrary: xs)
  case Nil
  then show ?case by simp
next
  case (Cons c cs)
  show ?case
  proof (cases "xs = []")
    case True
    then show ?thesis by simp
  next
    case False
    then have i: "c mod length xs < length xs" by simp
    have "mset xs = mset (take (c mod length xs) xs @ xs ! (c mod length xs) # drop (Suc (c mod length xs)) xs)"
      using id_take_nth_drop [OF i] by simp
    then show ?thesis using False Cons.IH by (simp add: Let_def)
  qed
qed

lemma set_set_iteration: "set (set_iteration cs xs) = set xs"
  using mset_set_iteration [of cs xs] by (metis set_mset_mset)

lemma distinct_set_iteration: "distinct (set_iteration cs xs) = distinct xs"
  using mset_set_iteration [of cs xs] by (metis mset_eq_imp_distinct_iff)

lemma set_inserts: "set (inserts S' T) = set (keys S') - set (keys T)"
  by (auto simp: inserts_def set_diff_def)

lemma set_updates: "set (updates T S) = set (keys T) \<inter> set (keys S)"
  by (auto simp: updates_def set_inter_def)

lemma set_deactivates: "set (deactivates T S E) = set (keys T) - set (keys S) - set (keys E)"
  by (auto simp: deactivates_def set_diff_def)

lemma distinct_inserts: "distinct (keys S') \<Longrightarrow> distinct (inserts S' T)"
  by (simp add: inserts_def set_diff_def)

lemma distinct_updates: "distinct (keys T) \<Longrightarrow> distinct (updates T S)"
  by (simp add: updates_def set_inter_def)

lemma distinct_deactivates: "distinct (keys T) \<Longrightarrow> distinct (deactivates T S E)"
  by (simp add: deactivates_def set_diff_def)

section \<open>Lower case\<close>

lemma of_char_demo_lower_char: "is_upper c \<Longrightarrow> (of_char (demo_lower_char c) :: nat) = of_char c + 32"
  by (simp add: demo_lower_char_def is_upper_def)

lemma not_upper_demo_lower_char: "\<not> is_upper (demo_lower_char c)"
proof (cases "is_upper c")
  case True
  then show ?thesis using of_char_demo_lower_char [OF True] by (simp add: is_upper_def)
next
  case False
  then show ?thesis by (simp add: demo_lower_char_def)
qed

lemma not_has_upper_lower: "\<not> has_upper (demo_lower s)"
  by (simp add: has_upper_def demo_lower_def list_ex_iff not_upper_demo_lower_char)

lemma has_upper_not_account_key:
  assumes "\<And>s. \<not> has_upper (str_lower api s)"
  shows "has_upper k \<Longrightarrow> k \<notin> set (keys (dict_comp (account_key api) found))"
  using assms by (auto simp: set_keys_dict_comp account_key_def)

section \<open>Substrings\<close>

lemma py_in_iff: "py_in sub s \<longleftrightarrow> (\<exists>pre post. s = pre @ sub @ post)"
proof (induction s)
  case Nil
  then show ?case by auto
next
  case (Cons c cs)
  show ?case
  proof
    assume "py_in sub (c # cs)"
    then consider "prefix sub (c # cs)" | "py_in sub cs" by auto
    then show "\<exists>pre post. c # cs = pre @ sub @ post"
    proof cases
      case 1
      then obtain post where "c # cs = sub @ post" by (auto simp: prefix_def)
      then have "c # cs = [] @ sub @ post" by simp
      then show ?thesis by blast
    next
      case 2
      then obtain pre post where "cs = pre @ sub @ post" using Cons.IH by blast
      then have "c # cs = (c # pre) @ sub @ post" by simp
      then show ?thesis by blast
    qed
  next
    assume "\<exists>pre post. c # cs = pre @ sub @ post"
    then obtain pre post where e: "c # cs = pre @ sub @ post" by blast
    show "py_in sub (c # cs)"
    proof (cases pre)
      case Nil
      then have "prefix sub (c # cs)" using e by (simp add: prefix_def)
      then show ?thesis by simp
    next
      case (Cons a pre')
      then have "cs = pre' @ sub @ post" using e by simp
      then show ?thesis using Cons.IH by auto
    qed
  qed
qed

lemma py_in_middle: "py_in sub (pre @ sub @ post)"
  using py_in_iff by blast

section \<open>What a block leaves as it was\<close>

named_theorems keeps_intros

lemma keeps_fold [keeps_intros]: "(\<And>k. keeps g (f k)) \<Longrightarrow> keeps g (fold f ks)"
  by (induction ks) (simp_all add: keeps_def)

lemma keeps_try_except [keeps_intros]:
  "keepsm g body \<Longrightarrow> (\<And>e. keeps g (h e)) \<Longrightarrow> keeps g (try_except body h)"
  by (auto simp: keeps_def keepsm_def try_except_def split: prod.splits sum.splits)
     (metis snd_conv)+

lemma keeps_after: "keeps g f \<Longrightarrow> keeps g h \<Longrightarrow> keeps g (\<lambda>s. f (h s))"
  by (simp add: keeps_def)

lemma keepsm_seq [keeps_intros]:
  "keepsm g m \<Longrightarrow> (\<And>a. keepsm g (f a)) \<Longrightarrow> keepsm g (seq m f)"
  by (auto simp: keepsm_def seq_def split: prod.splits sum.splits) (metis snd_conv)+

lemma keepsm_step [keeps_intros]: "keeps g f \<Longrightarrow> keepsm g m \<Longrightarrow> keepsm g (step f m)"
  by (simp add: keeps_def keepsm_def step_def)

lemma keepsm_return [keeps_intros]: "keepsm g (return a)"
  by (simp add: keepsm_def return_def)

lemma keepsm_raise [keeps_intros]: "keepsm g (raise e)"
  by (simp add: keepsm_def raise_def)

lemma keepsm_subscript_state [keeps_intros]: "keepsm g (\<lambda>s. subscript (d s) k s)"
  by (simp add: keepsm_def subscript_def split: option.splits)

lemma keepsm_subscript [keeps_intros]: "keepsm g (subscript d k)"
  by (simp add: keepsm_def subscript_def split: option.splits)

lemma keepsm_unpack1 [keeps_intros]: "keepsm g (unpack1 xs)"
  by (simp add: keepsm_def unpack1_def raise_def return_def split: list.splits)

lemma keepsm_if [keeps_intros]:
  "keepsm g a \<Longrightarrow> keepsm g b \<Longrightarrow> keepsm g (if c then a else b)"
  by simp

lemma keepsD: "keeps g f \<Longrightarrow> g (f s) = g s"
  by (simp add: keeps_def)

lemma keepsmD: "keepsm g m \<Longrightarrow> m s = (r, s') \<Longrightarrow> g s' = g s"
  by (auto simp: keepsm_def dest: spec [of _ s])

section \<open>The course of a run that reaches \<open>sys.exit\<close>\<close>

lemma main_Inr:
  assumes "main api order today json w = (Inr status, sf)"
  obtains S S' g s1 s3 found w6 where
    "load api (initial w) = (Inr (S, S', g), s1)"
    "fetch_accounts api (inserts_pass api (inserts_order order) today g S' s1) = (Inr (), s3)"
    "Account_find api account_filter_pwd
       (world (deactivates_pass api (deactivates_order order) today S (load_excludes json)
          (updates_loop api (updates_order order) S s3))) = (Inr found, w6)"
    "set_exit_code (log_results (pwd_expires_loop api (pwd_expires_order order) found
       ((deactivates_pass api (deactivates_order order) today S (load_excludes json)
          (updates_loop api (updates_order order) S s3))
        \<lparr>world := w6,
          calls := calls (deactivates_pass api (deactivates_order order) today S (load_excludes json)
                     (updates_loop api (updates_order order) S s3)) @ [AccountFind account_filter_pwd]\<rparr>)))
     = (status, sf)"
  using assms
  unfolding main_def updates_pass_def pwd_expires_pass_def
  by (auto simp: seq_def step_def return_def remote_def split: prod.splits sum.splits)

section \<open>Logs and outcome lists across the passes\<close>

lemma fold_log:
  "fold (\<lambda>k. log l (f k)) ks s = s\<lparr>logs := logs s @ map (\<lambda>k. (l, f k)) ks\<rparr>"
  by (induction ks arbitrary: s) (simp_all add: log_def)

lemma keeps_count_log: "\<not> prefix ''Logging results'' m \<Longrightarrow> keeps results_count (log l m)"
  by (simp add: keeps_def results_count_def log_def)

lemma keepsm_count_remote: "keepsm results_count (remote c f)"
  by (simp add: keepsm_def results_count_def remote_def split: prod.splits)

lemma insert_try_count: "keepsm results_count (insert_try api today g S k)"
  unfolding insert_try_def
  by (intro keeps_intros keepsm_count_remote keeps_count_log) (simp_all add: keeps_def results_count_def)

lemma insert_except_count: "keeps results_count (insert_except k e)"
  by (simp add: keeps_def insert_except_def results_count_def log_def split: exn.splits)

lemma insert_one_count: "keeps results_count (insert_one api today g S k)"
  unfolding insert_one_def
  by (rule keeps_after, rule keeps_try_except, rule insert_try_count, rule insert_except_count,
      rule keeps_count_log) simp

lemma count_log: "\<not> prefix ''Logging results'' m \<Longrightarrow> results_count (log l m s) = results_count s"
  by (simp add: results_count_def log_def)

lemma inserts_pass_count: "results_count (inserts_pass api order today g S s) = results_count s"
  unfolding inserts_pass_def
  by (simp add: keepsD [OF keeps_fold [OF insert_one_count]] count_log)

lemma fetch_accounts_count: "keepsm results_count (fetch_accounts api)"
  unfolding fetch_accounts_def
  by (intro keeps_intros keepsm_count_remote) (simp add: keeps_def results_count_def)

lemma load_count: "keepsm results_count (load api)"
  unfolding load_def
  by (intro keeps_intros keepsm_count_remote keeps_count_log fetch_accounts_count)
     (simp_all add: keeps_def results_count_def log_def)

lemma update_one_count: "keeps results_count (update_one api S k)"
  unfolding update_one_def update_try_def update_except_def
  by (intro keeps_intros keepsm_count_remote keeps_count_log)
     (simp_all add: keeps_def results_count_def log_def assign_account_def)

lemma updates_loop_count: "results_count (updates_loop api order S s) = results_count s"
  unfolding updates_loop_def
  by (simp add: keepsD [OF keeps_fold [OF update_one_count]])

lemma deactivate_one_count: "keeps results_count (deactivate_one api today k)"
  unfolding deactivate_one_def deactivate_try_def deactivate_except_def
  by (rule keeps_after, intro keeps_intros keepsm_count_remote keeps_count_log)
     (simp_all add: keeps_def results_count_def log_def assign_account_def)

lemma deactivates_pass_count:
  "results_count (deactivates_pass api order today S E s) = results_count s"
  unfolding deactivates_pass_def
  by (simp add: keepsD [OF keeps_fold [OF deactivate_one_count]] count_log)

lemma pwd_expire_one_count: "keeps results_count (pwd_expire_one api k)"
  unfolding pwd_expire_one_def pwd_expire_try_def pwd_expire_except_def
  by (intro keeps_intros keepsm_count_remote keeps_count_log)
     (simp_all add: keeps_def results_count_def log_def assign_account_def)

lemma pwd_expires_loop_count:
  "results_count (pwd_expires_loop api order found s) = results_count s"
  unfolding pwd_expires_loop_def
  by (simp add: keepsD [OF keeps_fold [OF pwd_expire_one_count]] count_log)

lemma set_exit_code_count: "results_count (snd (set_exit_code s)) = results_count s"
  by (simp add: set_exit_code_def fold_log results_count_def log_def filter_empty_conv rda_text_def)

lemma log_results_count: "results_count (log_results s) = Suc (results_count s)"
  by (simp add: log_results_def results_count_def log_def results_message_def)

lemma keeps_outcomes_log: "keeps insert_outcomes (log l m)"
  by (simp add: keeps_def insert_outcomes_def log_def)

lemma keepsm_outcomes_remote: "keepsm insert_outcomes (remote c f)"
  by (simp add: keepsm_def insert_outcomes_def remote_def split: prod.splits)

lemma fetch_accounts_outcomes: "keepsm insert_outcomes (fetch_accounts api)"
  unfolding fetch_accounts_def
  by (intro keeps_intros keepsm_outcomes_remote) (simp add: keeps_def insert_outcomes_def)

lemma update_one_outcomes: "keeps insert_outcomes (update_one api S k)"
  unfolding update_one_def update_try_def update_except_def
  by (intro keeps_intros keepsm_outcomes_remote keeps_outcomes_log)
     (simp_all add: keeps_def insert_outcomes_def log_def assign_account_def)

lemma updates_loop_outcomes: "insert_outcomes (updates_loop api order S s) = insert_outcomes s"
  unfolding updates_loop_def
  by (simp add: keepsD [OF keeps_fold [OF update_one_outcomes]])

lemma deactivate_one_outcomes: "keeps insert_outcomes (deactivate_one api today k)"
  unfolding deactivate_one_def deactivate_try_def deactivate_except_def
  by (rule keeps_after, intro keeps_intros keepsm_outcomes_remote keeps_outcomes_log)
     (simp_all add: keeps_def insert_outcomes_def log_def assign_account_def)

lemma deactivates_pass_outcomes:
  "insert_outcomes (deactivates_pass api order today S E s) = insert_outcomes s"
  unfolding deactivates_pass_def
  by (simp add: keepsD [OF keeps_fold [OF deactivate_one_outcomes]] keepsD [OF keeps_outcomes_log])

lemma pwd_expire_one_outcomes: "keeps insert_outcomes (pwd_expire_one api k)"
  unfolding pwd_expire_one_def pwd_expire_try_def pwd_expire_except_def
  by (intro keeps_intros keepsm_outcomes_remote keeps_outcomes_log)
     (simp_all add: keeps_def insert_outcomes_def log_def assign_account_def)

lemma pwd_expires_loop_outcomes:
  "insert_outcomes (pwd_expires_loop api order found s) = insert_outcomes s"
  unfolding pwd_expires_loop_def
  by (simp add: keepsD [OF keeps_fold [OF pwd_expire_one_outcomes]] keepsD [OF keeps_outcomes_log])

lemma set_exit_code_logs:
  "snd (set_exit_code s) =
     s\<lparr>logs := logs s @
       (if inserts_skipped s \<noteq> [] then
          (WARNING, ''There are '' @ str_nat (length (inserts_skipped s)) @ ''accounts'' @ rda_text)
          # map (\<lambda>k. (WARNING, ''Skipped creating account: '' @ k)) (inserts_skipped s)
        else if inserts_failed_to_link_person s \<noteq> [] then
          (WARNING, ''There are accounts'' @ str_nat (length (inserts_failed_to_link_person s))
             @ rda_text)
          # map (\<lambda>k. (WARNING, ''Failed to link person record for: '' @ k))
              (inserts_failed_to_link_person s)
        else [(INFO, ''Inserts were processed successfully, exiting'')])\<rparr>"
  by (simp add: set_exit_code_def fold_log log_def)

lemma set_exit_code_outcomes: "insert_outcomes (snd (set_exit_code s)) = insert_outcomes s"
  by (simp add: set_exit_code_logs insert_outcomes_def)

lemma log_results_outcomes: "insert_outcomes (log_results s) = insert_outcomes s"
  by (simp add: log_results_def insert_outcomes_def log_def)

text \<open>The outcome lists of the insert loop at the end of a run are those the loop left.\<close>

lemma exit_status_of_outcomes:
  "fst (set_exit_code s) =
     (if inserts_skipped s = [] \<and> inserts_failed_to_link_person s = [] then EX_OK else EX_DATAERR)"
  by (simp add: set_exit_code_def)

lemma main_insert_outcomes:
  assumes "main api order today json w = (Inr status, sf)"
  shows "\<exists>S S' g s1. load api (initial w) = (Inr (S, S', g), s1)
           \<and> insert_outcomes sf
               = insert_outcomes (inserts_pass api (inserts_order order) today g S' s1)
           \<and> status = fst (set_exit_code sf)"
proof -
  from assms obtain S S' g s1 s3 found w6 where
    l: "load api (initial w) = (Inr (S, S', g), s1)" and
    f: "fetch_accounts api (inserts_pass api (inserts_order order) today g S' s1) = (Inr (), s3)" and
    e: "set_exit_code (log_results (pwd_expires_loop api (pwd_expires_order order) found
       ((deactivates_pass api (deactivates_order order) today S (load_excludes json)
          (updates_loop api (updates_order order) S s3))
        \<lparr>world := w6,
          calls := calls (deactivates_pass api (deactivates_order order) today S (load_excludes json)
                     (updates_loop api (updates_order order) S s3)) @ [AccountFind account_filter_pwd]\<rparr>)))
     = (status, sf)"
    by (rule main_Inr)
  define s5 where "s5 = deactivates_pass api (deactivates_order order) today S (load_excludes json)
          (updates_loop api (updates_order order) S s3)"
  define s5' where "s5' = s5\<lparr>world := w6, calls := calls s5 @ [AccountFind account_filter_pwd]\<rparr>"
  define s7 where "s7 = log_results (pwd_expires_loop api (pwd_expires_order order) found s5')"
  have e': "set_exit_code s7 = (status, sf)"
    using e unfolding s7_def s5'_def s5_def .
  have o3: "insert_outcomes s3
          = insert_outcomes (inserts_pass api (inserts_order order) today g S' s1)"
    using keepsmD [OF fetch_accounts_outcomes f] .
  have o5: "insert_outcomes s5 = insert_outcomes s3"
    unfolding s5_def by (simp only: deactivates_pass_outcomes updates_loop_outcomes)
  have o5': "insert_outcomes s5' = insert_outcomes s5"
    unfolding s5'_def by (simp add: insert_outcomes_def)
  have o7: "insert_outcomes s7 = insert_outcomes s5'"
    unfolding s7_def by (simp only: log_results_outcomes pwd_expires_loop_outcomes)
  have sf: "sf = snd (set_exit_code s7)" and st: "status = fst (set_exit_code s7)"
    using e' by simp_all
  have of: "insert_outcomes sf = insert_outcomes s7"
    unfolding sf by (rule set_exit_code_outcomes)
  have "fst (set_exit_code sf) = fst (set_exit_code s7)"
    using of by (simp add: exit_status_of_outcomes insert_outcomes_def)
  with st have "status = fst (set_exit_code sf)" by simp
  moreover have "insert_outcomes sf
      = insert_outcomes (inserts_pass api (inserts_order order) today g S' s1)"
    using of o7 o5' o5 o3 by simp
  ultimately show ?thesis using l by blast
qed

section \<open>Running the script against the demonstration directory\<close>

lemma seq_cong: "s = s' \<Longrightarrow> seq m f s = seq m f s'" by simp
lemma step_cong: "s = s' \<Longrightarrow> step g m s = step g m s'" by simp
lemma try_except_cong: "s = s' \<Longrightarrow> try_except b h s = try_except b h s'" by simp

lemma str_nat_small: "n < 10 \<Longrightarrow> str_nat n = [digit n]"
  by (simp add: str_nat.simps)

lemma str_nat_large: "10 \<le> n \<Longrightarrow> str_nat n = str_nat (n div 10) @ [digit (n mod 10)]"
  by (subst str_nat.simps) simp

named_theorems exec

lemmas [exec] = seq_def step_def raise_def return_def subscript_def remote_def try_except_def
  log_def assign_account_def unpack1_def
  load_def fetch_accounts_def inserts_pass_def insert_one_def insert_try_def
  insert_except_def insert_values_def inserts_def
  updates_pass_def updates_loop_def update_one_def update_try_def update_except_def updates_def
  deactivates_pass_def deactivate_one_def deactivate_try_def deactivate_except_def deactivates_def
  pwd_expires_pass_def pwd_expires_loop_def pwd_expire_one_def pwd_expire_try_def
  pwd_expire_except_def pwd_expires_def
  log_results_def set_exit_code_def load_excludes_def eligible_def initial_def
  dict_comp_def keys_def set_diff_def set_inter_def account_key_def demo_lower_def demo_lower_char_def is_upper_def
  account_filter_def account_filter_pwd_def
  demo_api_def demo_find_def demo_create_def demo_save_def demo_arrive_def matches_def
  demo_groups_def demo_today_def demo_orders_def demo_person_def demo_account_def
  demo_world_def demo_world_rda_def demo_world_late_def
  str_nat_small str_nat_large digit_def results_message_def nl_def rda_text_def strftime_def
  pad2_def str_opt_def
  KeyError_def unpack_too_few_def unpack_too_many_def date_minus_int_def

lemmas exec_cong = seq_cong step_cong try_except_cong prod.case_cong_weak


lemma main_unfold:
  "main api order today json w =
   (case load api (initial w) of
      (Inl e, s) \<Rightarrow> (Inl e, s)
    | (Inr loaded, s1) \<Rightarrow>
       (case fetch_accounts api
               (inserts_pass api (inserts_order order) today (snd (snd loaded)) (fst (snd loaded)) s1) of
          (Inl e, s) \<Rightarrow> (Inl e, s)
        | (Inr u, s3) \<Rightarrow>
           (case remote (AccountFind account_filter_pwd) (Account_find api account_filter_pwd)
                   (deactivates_pass api (deactivates_order order) today (fst loaded) (load_excludes json)
                      (updates_loop api (updates_order order) (fst loaded) s3)) of
              (Inl e, s) \<Rightarrow> (Inl e, s)
            | (Inr found, s6) \<Rightarrow>
               (case set_exit_code
                       (log_results (pwd_expires_loop api (pwd_expires_order order) found s6)) of
                  (status, s') \<Rightarrow> (Inr status, s')))))"
  by (simp add: main_def seq_def step_def return_def updates_pass_def pwd_expires_pass_def
      split: prod.splits sum.splits)

lemma demo_fetch_accounts: "\<exists>s'. fetch_accounts demo_api s = (Inr (), s')"
  by (simp add: fetch_accounts_def seq_def step_def return_def remote_def demo_api_def demo_find_def)

lemma demo_load:
  assumes "map_of (dict_comp group_Description (groups w)) ''DC - Requestors'' = Some g"
  shows "\<exists>s1. load demo_api ((initial w)) =
           (Inr (dict_comp netid (roster w), dict_comp netid (filter eligible (roster w)), g), s1)"
proof -
  obtain s' where f: "\<And>s. fst (fetch_accounts demo_api s) = Inr ()"
    using demo_fetch_accounts by (metis fst_conv)
  show ?thesis
    using assms
    by (simp add: load_def seq_def step_def return_def remote_def demo_api_def subscript_def
        log_def initial_def fetch_accounts_def demo_find_def)
qed

lemma demo_main_completes:
  assumes "map_of (dict_comp group_Description (groups w)) ''DC - Requestors'' = Some g"
  shows "\<exists>status sf. main demo_api order today json w = (Inr status, sf)"
proof -
  from demo_load [OF assms] obtain s1 where
    l: "load demo_api (initial w) =
          (Inr (dict_comp netid (roster w), dict_comp netid (filter eligible (roster w)), g), s1)"
    by blast
  have p: "\<And>s. \<exists>found s6. remote (AccountFind account_filter_pwd)
              (Account_find demo_api account_filter_pwd) s = (Inr found, s6)"
    by (simp add: remote_def demo_api_def demo_find_def)
  show ?thesis
    unfolding main_unfold l
    using demo_fetch_accounts p
    by (simp split: prod.splits sum.splits) (metis Inl_Inr_False prod.inject sum.inject(2))
qed

lemma demo_groups_lookup:
  "map_of (dict_comp group_Description demo_groups) ''DC - Requestors'' = Some (hd demo_groups)"
  by (simp add: dict_comp_def demo_groups_def)

text \<open>
  C1. The status passed to \<^verbatim>\<open>sys.exit\<close> is \<^verbatim>\<open>os.EX_DATAERR\<close> (nonzero) exactly when the
  insert loop left a key in \<^verbatim>\<open>inserts_skipped\<close> or in \<^verbatim>\<open>inserts_failed_to_link_person\<close>,
  and \<^verbatim>\<open>os.EX_OK\<close> (0) otherwise. The skipped list is tested first; the branch taken logs
  one header and then one warning line per key of its list. The four lists of generic
  failures have no influence on the status. In a run that reaches \<^verbatim>\<open>sys.exit\<close>, the two
  lists tested are those the insert loop left.
\<close>

theorem exit_status_policy:
  "fst (set_exit_code s) =
     (if inserts_skipped s \<noteq> [] \<or> inserts_failed_to_link_person s \<noteq> [] then EX_DATAERR else EX_OK)
   \<and> exit_code EX_OK = 0 \<and> exit_code EX_DATAERR \<noteq> 0
   \<and> logs (snd (set_exit_code s)) = logs s @
       (if inserts_skipped s \<noteq> [] then
          (WARNING, ''There are '' @ str_nat (length (inserts_skipped s)) @ ''accounts'' @ rda_text)
          # map (\<lambda>k. (WARNING, ''Skipped creating account: '' @ k)) (inserts_skipped s)
        else if inserts_failed_to_link_person s \<noteq> [] then
          (WARNING, ''There are accounts'' @ str_nat (length (inserts_failed_to_link_person s))
             @ rda_text)
          # map (\<lambda>k. (WARNING, ''Failed to link person record for: '' @ k))
              (inserts_failed_to_link_person s)
        else [(INFO, ''Inserts were processed successfully, exiting'')])
   \<and> fst (set_exit_code (s\<lparr>inserts_failed := a, updates_failed := b, deactivates_failed := c,
                              pwd_expire_failed := d\<rparr>)) = fst (set_exit_code s)
   \<and> (main api order today json w = (Inr status, sf) \<longrightarrow>
        (status = EX_DATAERR
           \<longleftrightarrow> (inserts_skipped sf \<noteq> [] \<or> inserts_failed_to_link_person sf \<noteq> []))
        \<and> (status = EX_OK
           \<longleftrightarrow> (inserts_skipped sf = [] \<and> inserts_failed_to_link_person sf = []))
        \<and> (\<exists>S S' g s1. load api (initial w) = (Inr (S, S', g), s1)
             \<and> inserts_skipped sf
                 = inserts_skipped (inserts_pass api (inserts_order order) today g S' s1)
             \<and> inserts_failed_to_link_person sf
                 = inserts_failed_to_link_person
                     (inserts_pass api (inserts_order order) today g S' s1)))"
proof (intro conjI impI)
  show "fst (set_exit_code s) =
     (if inserts_skipped s \<noteq> [] \<or> inserts_failed_to_link_person s \<noteq> [] then EX_DATAERR else EX_OK)"
    by (simp add: exit_status_of_outcomes)
  show "fst (set_exit_code (s\<lparr>inserts_failed := a, updates_failed := b, deactivates_failed := c,
                              pwd_expire_failed := d\<rparr>)) = fst (set_exit_code s)"
    by (simp add: exit_status_of_outcomes)
  show "logs (snd (set_exit_code s)) = logs s @
       (if inserts_skipped s \<noteq> [] then
          (WARNING, ''There are '' @ str_nat (length (inserts_skipped s)) @ ''accounts'' @ rda_text)
          # map (\<lambda>k. (WARNING, ''Skipped creating account: '' @ k)) (inserts_skipped s)
        else if inserts_failed_to_link_person s \<noteq> [] then
          (WARNING, ''There are accounts'' @ str_nat (length (inserts_failed_to_link_person s))
             @ rda_text)
          # map (\<lambda>k. (WARNING, ''Failed to link person record for: '' @ k))
              (inserts_failed_to_link_person s)
        else [(INFO, ''Inserts were processed successfully, exiting'')])"
    by (simp add: set_exit_code_logs)
next
  assume m: "main api order today json w = (Inr status, sf)"
  from main_insert_outcomes [OF m] obtain S S' g s1 where
    l: "load api (initial w) = (Inr (S, S', g), s1)" and
    o: "insert_outcomes sf = insert_outcomes (inserts_pass api (inserts_order order) today g S' s1)" and
    st: "status = fst (set_exit_code sf)"
    by blast
  show "status = EX_DATAERR
          \<longleftrightarrow> (inserts_skipped sf \<noteq> [] \<or> inserts_failed_to_link_person sf \<noteq> [])"
    unfolding st by (simp add: exit_status_of_outcomes)
  show "status = EX_OK
          \<longleftrightarrow> (inserts_skipped sf = [] \<and> inserts_failed_to_link_person sf = [])"
    unfolding st by (simp add: exit_status_of_outcomes)
  show "\<exists>S S' g s1. load api (initial w) = (Inr (S, S', g), s1)
             \<and> inserts_skipped sf
                 = inserts_skipped (inserts_pass api (inserts_order order) today g S' s1)
             \<and> inserts_failed_to_link_person sf
                 = inserts_failed_to_link_person
                     (inserts_pass api (inserts_order order) today g S' s1)"
    using l o by (auto simp: insert_outcomes_def)
qed simp_all

theorem exit_status_policy_witness:
  "\<exists>sf. main demo_api demo_orders demo_today [] demo_world_rda = (Inr EX_DATAERR, sf)
        \<and> inserts_skipped sf = [''d'']"
proof -
  have g: "map_of (dict_comp group_Description (groups demo_world_rda)) ''DC - Requestors''
             = Some (hd demo_groups)"
    using demo_groups_lookup by (simp add: demo_world_rda_def)
  from demo_main_completes [OF g] obtain status sf where
    m: "main demo_api demo_orders demo_today [] demo_world_rda = (Inr status, sf)"
    by blast
  note t = exit_status_policy [where api = demo_api and order = demo_orders and today = demo_today
        and json = "[]" and w = demo_world_rda and status = status and sf = sf]
  from t m obtain S S' g' s1 where
    l: "load demo_api (initial demo_world_rda) = (Inr (S, S', g'), s1)" and
    k: "inserts_skipped sf
          = inserts_skipped (inserts_pass demo_api (inserts_order demo_orders) demo_today g' S' s1)"
    by blast
  have e: "(case load demo_api (initial demo_world_rda) of
              (Inl e, s) \<Rightarrow> []
            | (Inr loaded, s1) \<Rightarrow>
                inserts_skipped (inserts_pass demo_api (inserts_order demo_orders) demo_today
                  (snd (snd loaded)) (fst (snd loaded)) s1)) = [''d'']"
    by (simp add: exec cong: exec_cong)
  have sk: "inserts_skipped sf = [''d'']"
    using e unfolding l k by simp
  have "status = EX_DATAERR
          \<longleftrightarrow> (inserts_skipped sf \<noteq> [] \<or> inserts_failed_to_link_person sf \<noteq> [])"
    using t m by blast
  with sk have "status = EX_DATAERR" by simp
  with m sk show ?thesis by blast
qed

text \<open>
  C2, as the code has it. In the insert loop a failure is put in \<^verbatim>\<open>inserts_skipped\<close> when it
  is an \<^verbatim>\<open>HTTPError\<close> whose text contains "not unique"; otherwise, whichever of the two
  kinds it is, in \<^verbatim>\<open>inserts_failed_to_link_person\<close> when its text contains "unpack";
  otherwise in \<^verbatim>\<open>inserts_failed\<close>. A failure that is not an \<^verbatim>\<open>HTTPError\<close> is not tested for
  "not unique". In the update, deactivate and password loops every failure goes to the
  failed list of the loop, whatever its text.
\<close>

theorem failure_classification:
  "inserts_skipped (insert_except k e s) =
     (if is_HTTPError e \<and> py_in ''not unique'' (str e)
      then inserts_skipped s @ [k] else inserts_skipped s)
   \<and> inserts_failed_to_link_person (insert_except k e s) =
     (if \<not> (is_HTTPError e \<and> py_in ''not unique'' (str e)) \<and> py_in ''unpack'' (str e)
      then inserts_failed_to_link_person s @ [k] else inserts_failed_to_link_person s)
   \<and> inserts_failed (insert_except k e s) =
     (if \<not> (is_HTTPError e \<and> py_in ''not unique'' (str e)) \<and> \<not> py_in ''unpack'' (str e)
      then inserts_failed s @ [k] else inserts_failed s)
   \<and> inserts_succeeded (insert_except k e s) = inserts_succeeded s
   \<and> updates_failed (update_except k e s) = updates_failed s @ [k]
   \<and> updates_succeeded (update_except k e s) = updates_succeeded s
   \<and> deactivates_failed (deactivate_except k e s) = deactivates_failed s @ [k]
   \<and> pwd_expire_failed (pwd_expire_except k e s) = pwd_expire_failed s @ [k]
   \<and> pwd_expire_succeeded (pwd_expire_except k e s) = pwd_expire_succeeded s"
  by (cases e)
     (simp_all add: insert_except_def update_except_def deactivate_except_def
        pwd_expire_except_def is_HTTPError_def log_def)

text \<open>
  C2 as stated fails: a failure that is not an \<^verbatim>\<open>HTTPError\<close> and whose text contains
  "not unique" is put in \<^verbatim>\<open>inserts_failed\<close>, and an \<^verbatim>\<open>HTTPError\<close> with that text raised in
  the update loop is put in \<^verbatim>\<open>updates_failed\<close>.
\<close>

theorem failure_classification_counterexample:
  "py_in ''not unique''
     (str (Exception ''The User name field with value D36616B on Users is not unique.''))
   \<and> inserts_skipped (insert_except ''D''
        (Exception ''The User name field with value D36616B on Users is not unique.'')
        (initial ())) = []
   \<and> inserts_failed (insert_except ''D''
        (Exception ''The User name field with value D36616B on Users is not unique.'')
        (initial ())) = [''D'']
   \<and> updates_failed (update_except ''D''
        (HTTPError ''The User name field with value D36616B on Users is not unique.'')
        (initial ())) = [''D'']"
  by (simp add: insert_except_def update_except_def log_def initial_def)

section \<open>The summary\<close>

lemma py_in_skip: "py_in sub t \<Longrightarrow> py_in sub (p @ t)"
  by (metis append.assoc py_in_iff)

lemma py_in_here: "py_in (a @ b @ c) (a @ b @ c @ rest)"
  using py_in_middle [of "a @ b @ c" "[]" rest] by simp

lemma results_message_exit: "results_message (snd (set_exit_code s)) = results_message s"
  by (simp add: set_exit_code_logs results_message_def)

lemma results_message_log: "results_message (log l m s) = results_message s"
  by (simp add: log_def results_message_def)

lemma main_results:
  assumes "main api order today json w = (Inr status, sf)"
  shows "results_count sf = 1 \<and> (INFO, results_message sf) \<in> set (logs sf)"
proof -
  from assms obtain S S' g s1 s3 found w6 where
    l: "load api (initial w) = (Inr (S, S', g), s1)" and
    f: "fetch_accounts api (inserts_pass api (inserts_order order) today g S' s1) = (Inr (), s3)" and
    e: "set_exit_code (log_results (pwd_expires_loop api (pwd_expires_order order) found
       ((deactivates_pass api (deactivates_order order) today S (load_excludes json)
          (updates_loop api (updates_order order) S s3))
        \<lparr>world := w6,
          calls := calls (deactivates_pass api (deactivates_order order) today S (load_excludes json)
                     (updates_loop api (updates_order order) S s3)) @ [AccountFind account_filter_pwd]\<rparr>)))
     = (status, sf)"
    by (rule main_Inr)
  define s5 where "s5 = deactivates_pass api (deactivates_order order) today S (load_excludes json)
          (updates_loop api (updates_order order) S s3)"
  define s5' where "s5' = s5\<lparr>world := w6, calls := calls s5 @ [AccountFind account_filter_pwd]\<rparr>"
  define s6 where "s6 = pwd_expires_loop api (pwd_expires_order order) found s5'"
  have e': "set_exit_code (log_results s6) = (status, sf)"
    using e unfolding s6_def s5'_def s5_def .
  have c0: "results_count (initial w) = 0"
    by (simp add: results_count_def initial_def)
  have c1: "results_count s1 = 0"
    using keepsmD [OF load_count l] c0 by simp
  have c3: "results_count s3 = 0"
    using keepsmD [OF fetch_accounts_count f] c1 by (simp add: inserts_pass_count)
  have c5: "results_count s5 = 0"
    unfolding s5_def using c3 by (simp add: deactivates_pass_count updates_loop_count)
  have c5': "results_count s5' = 0"
    using c5 unfolding s5'_def by (simp add: results_count_def)
  have c6: "results_count s6 = 0"
    unfolding s6_def using c5' by (simp add: pwd_expires_loop_count)
  have sf: "sf = snd (set_exit_code (log_results s6))"
    using e' by simp
  have "results_count sf = 1"
    unfolding sf using c6 by (simp add: set_exit_code_count log_results_count)
  moreover have m: "results_message sf = results_message s6"
    unfolding sf by (simp add: results_message_exit log_results_def results_message_log)
  moreover have "(INFO, results_message s6) \<in> set (logs sf)"
    unfolding sf by (simp add: set_exit_code_logs log_results_def log_def)
  ultimately show ?thesis by simp
qed

text \<open>
  C9, as the code has it. A run that reaches \<^verbatim>\<open>sys.exit\<close> has logged the summary exactly
  once, at level INFO. The summary has a line with the length of each of nine outcome
  lists: succeeded and failed of the four loops, and \<^verbatim>\<open>inserts_failed_to_link_person\<close>.
  The length of \<^verbatim>\<open>inserts_skipped\<close> is not in it: the summary is the same whatever that
  list holds.
\<close>

theorem results_summary:
  "(main api order today json w = (Inr status, sf) \<longrightarrow>
      results_count sf = 1 \<and> (INFO, results_message sf) \<in> set (logs sf))
   \<and> py_in (''Inserts Succeeded: '' @ str_nat (length (inserts_succeeded s)) @ nl)
        (results_message s)
   \<and> py_in (''Inserts Failed: '' @ str_nat (length (inserts_failed s)) @ nl)
        (results_message s)
   \<and> py_in (''Updates Succeeded: '' @ str_nat (length (updates_succeeded s)) @ nl)
        (results_message s)
   \<and> py_in (''Updates Failed: '' @ str_nat (length (updates_failed s)) @ nl)
        (results_message s)
   \<and> py_in (''Deactivates Succeeded: '' @ str_nat (length (deactivates_succeeded s)) @ nl)
        (results_message s)
   \<and> py_in (''Deactivates Failed: '' @ str_nat (length (deactivates_failed s)) @ nl)
        (results_message s)
   \<and> py_in (''Pwd_expire Succeeded: '' @ str_nat (length (pwd_expire_succeeded s)) @ nl)
        (results_message s)
   \<and> py_in (''Pwd_expire  Failed: '' @ str_nat (length (pwd_expire_failed s)) @ nl)
        (results_message s)
   \<and> py_in (''Inserts_failed_to_link_person: ''
          @ str_nat (length (inserts_failed_to_link_person s)) @ nl)
        (results_message s)
   \<and> results_message (s\<lparr>inserts_skipped := skipped\<rparr>) = results_message s"
proof (intro conjI impI)
  assume "main api order today json w = (Inr status, sf)"
  from main_results [OF this]
  show "results_count sf = 1" and "(INFO, results_message sf) \<in> set (logs sf)"
    by simp_all
next
  show "results_message (s\<lparr>inserts_skipped := skipped\<rparr>) = results_message s"
    by (simp add: results_message_def)
qed (unfold results_message_def, (rule py_in_here | rule py_in_skip)+)

theorem results_summary_witness:
  "\<exists>status sf. main demo_api demo_orders demo_today [] demo_world = (Inr status, sf)
     \<and> results_count sf = 1 \<and> (INFO, results_message sf) \<in> set (logs sf)"
proof -
  have g: "map_of (dict_comp group_Description (groups demo_world)) ''DC - Requestors''
             = Some (hd demo_groups)"
    using demo_groups_lookup by (simp add: demo_world_def)
  from demo_main_completes [OF g] obtain status sf where
    m: "main demo_api demo_orders demo_today [] demo_world = (Inr status, sf)"
    by blast
  from results_summary [where api = demo_api and order = demo_orders and today = demo_today
        and json = "[]" and w = demo_world and status = status and sf = sf] m
  have "results_count sf = 1 \<and> (INFO, results_message sf) \<in> set (logs sf)"
    by blast
  with m show ?thesis by blast
qed

text \<open>
  C9 as stated fails: with one key in \<^verbatim>\<open>inserts_skipped\<close> or with none, the summary is the
  same text, so it has no count for that list.
\<close>

theorem results_summary_counterexample:
  "length (inserts_skipped ((initial ())\<lparr>inserts_skipped := [''d'']\<rparr>))
     \<noteq> length (inserts_skipped (initial ()))
   \<and> results_message ((initial ())\<lparr>inserts_skipped := [''d'']\<rparr>) = results_message (initial ())
   \<and> \<not> py_in ''kipped'' (results_message ((initial ())\<lparr>inserts_skipped := [''d'']\<rparr>))"
  by (simp add: results_message_def initial_def str_nat_small digit_def nl_def)

section \<open>The key sets\<close>

lemma load_Inr:
  assumes "load api s0 = (Inr (S, S', g), s1)"
  shows "\<exists>people w1 people' w2 grps w3 found w4.
           get_people api (world s0) = (Inr people, w1)
         \<and> get_people api w1 = (Inr people', w2)
         \<and> S = dict_comp netid people
         \<and> S' = dict_comp netid (filter eligible people')
         \<and> AccountGroup_find api w2 = (Inr grps, w3)
         \<and> map_of (dict_comp group_Description grps) ''DC - Requestors'' = Some g
         \<and> Account_find api account_filter w3 = (Inr found, w4)
         \<and> planon_accounts s1 = dict_comp (account_key api) found
         \<and> world s1 = w4"
  using assms
  by (auto simp: load_def seq_def step_def return_def remote_def subscript_def
        fetch_accounts_def log_def
      split: prod.splits sum.splits option.splits)

lemma updates_pass_Inr:
  assumes "updates_pass api ou S s2 = (Inr u, s4)"
  shows "\<exists>found w3. Account_find api account_filter (world s2) = (Inr found, w3)
         \<and> s4 = fold (update_one api S)
                  (set_iteration ou (updates (dict_comp (account_key api) found) S))
                  (s2\<lparr>world := w3, calls := calls s2 @ [AccountFind account_filter],
                      planon_accounts := dict_comp (account_key api) found\<rparr>)"
  using assms
  by (auto simp: updates_pass_def fetch_accounts_def updates_loop_def seq_def step_def
        return_def remote_def
      split: prod.splits sum.splits)

lemma main_updates_after_inserts:
  assumes "main api order today json w = (Inr status, sf)"
  shows "\<exists>S S' g s1 s4. load api (initial w) = (Inr (S, S', g), s1)
         \<and> updates_pass api (updates_order order) S
              (inserts_pass api (inserts_order order) today g S' s1) = (Inr (), s4)"
proof -
  from assms obtain S S' g s1 s3 where
    l: "load api (initial w) = (Inr (S, S', g), s1)" and
    f: "fetch_accounts api (inserts_pass api (inserts_order order) today g S' s1) = (Inr (), s3)"
    by (rule main_Inr)
  have "updates_pass api (updates_order order) S
          (inserts_pass api (inserts_order order) today g S' s1)
        = (Inr (), updates_loop api (updates_order order) S s3)"
    by (simp add: updates_pass_def seq_def step_def return_def f)
  with l show ?thesis by blast
qed


text \<open>
  C3. The insert loop runs over the keys of the filtered roster (people that are not
  non-persons and not of the SERVICE affiliation) that are not keys of the account
  snapshot; the update loop runs over the keys of the account snapshot that are keys of
  the unfiltered roster. Both rosters hold the netids as they come; the snapshot holds the
  account names in lower case. The snapshot of the update loop is fetched by
  \<^verbatim>\<open>updates_pass\<close> from the directory as the insert loop left it: in a run that reaches
  \<^verbatim>\<open>sys.exit\<close>, \<^verbatim>\<open>updates_pass\<close> starts in the state in which \<^verbatim>\<open>inserts_pass\<close> ended.
\<close>

theorem to_insert_to_update:
  "set (set_iteration oi (inserts S' T)) = set (keys S') - set (keys T)
   \<and> set (set_iteration ou (updates T2 S)) = set (keys T2) \<inter> set (keys S)
   \<and> set (keys (dict_comp netid (filter eligible people'))) = netid ` set (filter eligible people')
   \<and> set (keys (dict_comp netid people)) = netid ` set people
   \<and> set (keys (dict_comp (account_key api) found)) = account_key api ` set found
   \<and> eligible person =
        (first_name person \<notin> {''nonperson'', ''NONPERSON'', ''NonPerson''}
         \<and> dartmouth_affiliation person \<noteq> ''SERVICE'')
   \<and> (load api s0 = (Inr (S, S', g), s1) \<longrightarrow>
        (\<exists>people w1 people' w2 grps w3 found w4.
           get_people api (world s0) = (Inr people, w1)
         \<and> get_people api w1 = (Inr people', w2)
         \<and> S = dict_comp netid people
         \<and> S' = dict_comp netid (filter eligible people')
         \<and> AccountGroup_find api w2 = (Inr grps, w3)
         \<and> Account_find api account_filter w3 = (Inr found, w4)
         \<and> planon_accounts s1 = dict_comp (account_key api) found))
   \<and> inserts_pass api oi today g S' s1 =
        fold (insert_one api today g S')
          (set_iteration oi (inserts S' (planon_accounts s1)))
          (log INFO (''Total number of people to be inserted in Planon ''
             @ str_nat (length (inserts S' (planon_accounts s1)))) s1)
   \<and> (updates_pass api ou S s2 = (Inr u, s4) \<longrightarrow>
        (\<exists>found w3. Account_find api account_filter (world s2) = (Inr found, w3)
         \<and> s4 = fold (update_one api S)
                  (set_iteration ou (updates (dict_comp (account_key api) found) S))
                  (s2\<lparr>world := w3, calls := calls s2 @ [AccountFind account_filter],
                      planon_accounts := dict_comp (account_key api) found\<rparr>)))
   \<and> (main api order today json w = (Inr status, sf) \<longrightarrow>
        (\<exists>S S' g s1 s4. load api (initial w) = (Inr (S, S', g), s1)
         \<and> updates_pass api (updates_order order) S
              (inserts_pass api (inserts_order order) today g S' s1) = (Inr (), s4)))"
proof (intro conjI impI)
  show "eligible person =
        (first_name person \<notin> {''nonperson'', ''NONPERSON'', ''NonPerson''}
         \<and> dartmouth_affiliation person \<noteq> ''SERVICE'')"
    by (simp add: eligible_def)
  show "inserts_pass api oi today g S' s1 =
        fold (insert_one api today g S')
          (set_iteration oi (inserts S' (planon_accounts s1)))
          (log INFO (''Total number of people to be inserted in Planon ''
             @ str_nat (length (inserts S' (planon_accounts s1)))) s1)"
    by (simp add: inserts_pass_def)
next
  assume "load api s0 = (Inr (S, S', g), s1)"
  from load_Inr [OF this]
  show "\<exists>people w1 people' w2 grps w3 found w4.
           get_people api (world s0) = (Inr people, w1)
         \<and> get_people api w1 = (Inr people', w2)
         \<and> S = dict_comp netid people
         \<and> S' = dict_comp netid (filter eligible people')
         \<and> AccountGroup_find api w2 = (Inr grps, w3)
         \<and> Account_find api account_filter w3 = (Inr found, w4)
         \<and> planon_accounts s1 = dict_comp (account_key api) found"
    by blast
next
  assume "updates_pass api ou S s2 = (Inr u, s4)"
  from updates_pass_Inr [OF this]
  show "\<exists>found w3. Account_find api account_filter (world s2) = (Inr found, w3)
         \<and> s4 = fold (update_one api S)
                  (set_iteration ou (updates (dict_comp (account_key api) found) S))
                  (s2\<lparr>world := w3, calls := calls s2 @ [AccountFind account_filter],
                      planon_accounts := dict_comp (account_key api) found\<rparr>)" .
next
  assume "main api order today json w = (Inr status, sf)"
  from main_updates_after_inserts [OF this]
  show "\<exists>S S' g s1 s4. load api (initial w) = (Inr (S, S', g), s1)
         \<and> updates_pass api (updates_order order) S
              (inserts_pass api (inserts_order order) today g S' s1) = (Inr (), s4)" .
qed (simp_all add: set_set_iteration set_inserts set_updates set_keys_dict_comp)

theorem to_insert_to_update_witness:
  "\<exists>status sf S S' g s1 s4 found w3.
     main demo_api demo_orders demo_today [] demo_world = (Inr status, sf)
   \<and> load demo_api (initial demo_world) = (Inr (S, S', g), s1)
   \<and> S = dict_comp netid (roster demo_world)
   \<and> S' = dict_comp netid (filter eligible (roster demo_world))
   \<and> updates_pass demo_api (updates_order demo_orders) S
        (inserts_pass demo_api (inserts_order demo_orders) demo_today g S' s1) = (Inr (), s4)
   \<and> Account_find demo_api account_filter
        (world (inserts_pass demo_api (inserts_order demo_orders) demo_today g S' s1))
      = (Inr found, w3)"
proof -
  have grp: "map_of (dict_comp group_Description (groups demo_world)) ''DC - Requestors''
             = Some (hd demo_groups)"
    using demo_groups_lookup by (simp add: demo_world_def)
  from demo_main_completes [OF grp] obtain status sf where
    m: "main demo_api demo_orders demo_today [] demo_world = (Inr status, sf)"
    by blast
  note c2 = conjunct2
  note run = to_insert_to_update [where api = demo_api and order = demo_orders
        and today = demo_today and json = "[]" and w = demo_world and status = status and sf = sf,
        THEN c2, THEN c2, THEN c2, THEN c2, THEN c2, THEN c2, THEN c2, THEN c2, THEN c2]
  from run m obtain S S' g s1 s4 where
    l: "load demo_api (initial demo_world) = (Inr (S, S', g), s1)" and
    u: "updates_pass demo_api (updates_order demo_orders) S
          (inserts_pass demo_api (inserts_order demo_orders) demo_today g S' s1) = (Inr (), s4)"
    by blast
  note loaded = to_insert_to_update [where api = demo_api and ?s0.0 = "initial demo_world"
        and S = S and S' = S' and g = g and ?s1.0 = s1,
        THEN c2, THEN c2, THEN c2, THEN c2, THEN c2, THEN c2, THEN conjunct1]
  from loaded l obtain people w1 people' w2 where
    p: "get_people demo_api (world (initial demo_world)) = (Inr people, w1)"
       "get_people demo_api w1 = (Inr people', w2)"
       "S = dict_comp netid people" "S' = dict_comp netid (filter eligible people')"
    by blast
  have r: "people = roster demo_world" "people' = roster demo_world"
    using p(1,2) by (auto simp: demo_api_def initial_def)
  note updated = to_insert_to_update [where api = demo_api and S = S
        and ou = "updates_order demo_orders"
        and ?s2.0 = "inserts_pass demo_api (inserts_order demo_orders) demo_today g S' s1"
        and u = "()" and ?s4.0 = s4,
        THEN c2, THEN c2, THEN c2, THEN c2, THEN c2, THEN c2, THEN c2, THEN c2, THEN conjunct1]
  from updated u obtain found w3 where
    f: "Account_find demo_api account_filter
          (world (inserts_pass demo_api (inserts_order demo_orders) demo_today g S' s1))
        = (Inr found, w3)" and
    s4: "s4 = fold (update_one demo_api S)
                  (set_iteration (updates_order demo_orders) (updates (dict_comp (account_key demo_api) found) S))
                  ((inserts_pass demo_api (inserts_order demo_orders) demo_today g S' s1)
                     \<lparr>world := w3,
                       calls := calls (inserts_pass demo_api (inserts_order demo_orders) demo_today g S' s1)
                                  @ [AccountFind account_filter],
                       planon_accounts := dict_comp (account_key demo_api) found\<rparr>)"
    by blast
  have S: "S = dict_comp netid (roster demo_world)"
    and S': "S' = dict_comp netid (filter eligible (roster demo_world))"
    using p(3,4) r by simp_all
  show ?thesis
    apply (rule exI [of _ status], rule exI [of _ sf], rule exI [of _ S], rule exI [of _ S'])
    apply (rule exI [of _ g], rule exI [of _ s1], rule exI [of _ s4], rule exI [of _ found])
    apply (rule exI [of _ w3])
    using m l u f S S' by (intro conjI) assumption+
qed

section \<open>The deactivate loop\<close>

lemma deactivate_one_present:
  assumes "map_of (planon_accounts s) k = Some a"
  shows "calls (deactivate_one api today k s) = calls s @ [AccountSave (a\<lparr>EndDate := Some today\<rparr>)]"
    and "planon_accounts (deactivate_one api today k s)
          = AList.update k (a\<lparr>EndDate := Some today\<rparr>) (planon_accounts s)"
  using assms
  by (simp_all add: deactivate_one_def deactivate_try_def deactivate_except_def try_except_def
        seq_def step_def raise_def subscript_def remote_def log_def assign_account_def
      split: prod.splits sum.splits)

lemma deactivate_one_absent:
  assumes "map_of (planon_accounts s) k = None"
  shows "calls (deactivate_one api today k s) = calls s"
    and "planon_accounts (deactivate_one api today k s) = planon_accounts s"
  using assms
  by (simp_all add: deactivate_one_def deactivate_try_def deactivate_except_def try_except_def
        seq_def step_def raise_def subscript_def remote_def log_def assign_account_def
      split: prod.splits sum.splits)

lemma deactivate_one_other:
  "k' \<noteq> k \<Longrightarrow> map_of (planon_accounts (deactivate_one api today k s)) k'
                  = map_of (planon_accounts s) k'"
  by (cases "map_of (planon_accounts s) k")
     (simp_all add: deactivate_one_present deactivate_one_absent update_conv')

lemma deactivate_fold_other:
  "k' \<notin> set ks \<Longrightarrow> map_of (planon_accounts (fold (deactivate_one api today) ks s)) k'
                     = map_of (planon_accounts s) k'"
  by (induction ks arbitrary: s) (simp_all add: deactivate_one_other)

lemma deactivate_fold_calls:
  "distinct ks \<Longrightarrow> (\<And>k. k \<in> set ks \<Longrightarrow> map_of (planon_accounts s) k \<noteq> None) \<Longrightarrow>
   calls (fold (deactivate_one api today) ks s)
     = calls s @ map (\<lambda>k. AccountSave ((the (map_of (planon_accounts s) k))\<lparr>EndDate := Some today\<rparr>)) ks"
proof (induction ks arbitrary: s)
  case Nil
  then show ?case by simp
next
  case (Cons k ks)
  from Cons.prems(2) [of k] obtain a where a: "map_of (planon_accounts s) k = Some a"
    by auto
  have other: "\<And>k'. k' \<in> set ks \<Longrightarrow>
      map_of (planon_accounts (deactivate_one api today k s)) k' = map_of (planon_accounts s) k'"
    using Cons.prems(1) by (intro deactivate_one_other) auto
  have "calls (fold (deactivate_one api today) ks (deactivate_one api today k s))
        = calls (deactivate_one api today k s)
          @ map (\<lambda>k'. AccountSave ((the (map_of (planon_accounts (deactivate_one api today k s)) k'))
                        \<lparr>EndDate := Some today\<rparr>)) ks"
    using Cons.prems by (intro Cons.IH) (auto simp: other)
  also have "map (\<lambda>k'. AccountSave ((the (map_of (planon_accounts (deactivate_one api today k s)) k'))
                        \<lparr>EndDate := Some today\<rparr>)) ks
           = map (\<lambda>k'. AccountSave ((the (map_of (planon_accounts s) k'))\<lparr>EndDate := Some today\<rparr>)) ks"
    by (rule map_cong) (simp_all add: other)
  finally show ?case
    by (simp add: deactivate_one_present(1) [OF a] a)
qed

lemma deactivates_pass_calls:
  assumes "distinct (keys (planon_accounts s))"
  shows "calls (deactivates_pass api od today S E s)
         = calls s @ map (\<lambda>k. AccountSave ((the (map_of (planon_accounts s) k))\<lparr>EndDate := Some today\<rparr>))
                       (set_iteration od (deactivates (planon_accounts s) S E))"
proof -
  have d: "distinct (set_iteration od (deactivates (planon_accounts s) S E))"
    using assms by (simp add: distinct_set_iteration distinct_deactivates)
  have p: "\<And>k. k \<in> set (set_iteration od (deactivates (planon_accounts s) S E)) \<Longrightarrow>
             map_of (planon_accounts (log l m s)) k \<noteq> None" for l m
    by (auto simp: set_set_iteration set_deactivates log_def map_of_keys)
  show ?thesis
    unfolding deactivates_pass_def
    using deactivate_fold_calls [OF d p] by (simp add: log_def)
qed

lemma deactivates_pass_keeps_excluded:
  assumes "k \<in> set (keys E)"
  shows "map_of (planon_accounts (deactivates_pass api od today S E s)) k
         = map_of (planon_accounts s) k"
proof -
  have "k \<notin> set (set_iteration od (deactivates (planon_accounts s) S E))"
    using assms by (simp add: set_set_iteration set_deactivates)
  then show ?thesis
    unfolding deactivates_pass_def by (simp add: deactivate_fold_other log_def)
qed


section \<open>The update loop and the keys of the snapshot\<close>

lemma keys_update_present: "k \<in> set (keys d) \<Longrightarrow> keys (AList.update k v d) = keys d"
  by (simp add: keys_update)

lemma keys_update_Some: "map_of d k = Some a \<Longrightarrow> keys (AList.update k v d) = keys d"
  using map_of_keys [of d k] by (simp add: keys_update)

lemma update_one_keys: "keys (planon_accounts (update_one api S k s)) = keys (planon_accounts s)"
  by (cases "map_of (planon_accounts s) k")
     (auto simp: update_one_def update_try_def update_except_def try_except_def
        seq_def step_def return_def subscript_def remote_def log_def assign_account_def
        keys_update_Some
      split: prod.splits sum.splits option.splits)

lemma updates_fold_keys:
  "keys (planon_accounts (fold (update_one api S) ks s)) = keys (planon_accounts s)"
  by (induction ks arbitrary: s) (simp_all add: update_one_keys)

lemma updates_loop_keys:
  "keys (planon_accounts (updates_loop api ou S s)) = keys (planon_accounts s)"
  by (simp add: updates_loop_def updates_fold_keys)


text \<open>
  C4. The deactivate loop runs over the keys of the account snapshot that are neither keys
  of the unfiltered roster nor keys of the exclusion dictionary, which holds the
  \<^verbatim>\<open>account_name\<close> of every entry of the file. The calls of the loop are one \<^verbatim>\<open>save()\<close> per
  key of that set, of the account of the key with \<^verbatim>\<open>EndDate\<close> assigned; so for a key of the
  exclusion dictionary no end date is assigned and no \<^verbatim>\<open>save()\<close> is made, and its entry in
  \<^verbatim>\<open>planon_accounts\<close> is as before. In a run that reaches \<^verbatim>\<open>sys.exit\<close> the loop is run with
  the unfiltered roster and the exclusion dictionary, on the snapshot of line 184.
\<close>

theorem to_deactivate:
  "set (set_iteration od (deactivates T S E)) = set (keys T) - set (keys S) - set (keys E)
   \<and> set (keys (load_excludes json)) = account_name ` set json
   \<and> (k \<in> set (keys E) \<longrightarrow>
        k \<notin> set (set_iteration od (deactivates (planon_accounts s) S E))
        \<and> map_of (planon_accounts (deactivates_pass api od today S E s)) k
            = map_of (planon_accounts s) k)
   \<and> (distinct (keys (planon_accounts s)) \<longrightarrow>
        calls (deactivates_pass api od today S E s)
          = calls s @ map (\<lambda>k. AccountSave ((the (map_of (planon_accounts s) k))
                                  \<lparr>EndDate := Some today\<rparr>))
                        (set_iteration od (deactivates (planon_accounts s) S E)))
   \<and> (main api order today json w = (Inr status, sf) \<longrightarrow>
        (\<exists>S S' g s1 s3 found w6.
           load api (initial w) = (Inr (S, S', g), s1)
         \<and> fetch_accounts api (inserts_pass api (inserts_order order) today g S' s1) = (Inr (), s3)
         \<and> distinct (keys (planon_accounts (updates_loop api (updates_order order) S s3)))
         \<and> Account_find api account_filter_pwd
              (world (deactivates_pass api (deactivates_order order) today S (load_excludes json)
                 (updates_loop api (updates_order order) S s3))) = (Inr found, w6)))"
proof (intro conjI impI)
  show "set (set_iteration od (deactivates T S E)) = set (keys T) - set (keys S) - set (keys E)"
    by (simp add: set_set_iteration set_deactivates)
  show "set (keys (load_excludes json)) = account_name ` set json"
    by (simp add: load_excludes_def set_keys_dict_comp)
next
  assume "k \<in> set (keys E)"
  then show "k \<notin> set (set_iteration od (deactivates (planon_accounts s) S E))"
    by (simp add: set_set_iteration set_deactivates)
next
  assume "k \<in> set (keys E)"
  then show "map_of (planon_accounts (deactivates_pass api od today S E s)) k
            = map_of (planon_accounts s) k"
    by (rule deactivates_pass_keeps_excluded)
next
  assume "distinct (keys (planon_accounts s))"
  then show "calls (deactivates_pass api od today S E s)
          = calls s @ map (\<lambda>k. AccountSave ((the (map_of (planon_accounts s) k))
                                  \<lparr>EndDate := Some today\<rparr>))
                        (set_iteration od (deactivates (planon_accounts s) S E))"
    by (rule deactivates_pass_calls)
next
  assume "main api order today json w = (Inr status, sf)"
  then obtain S S' g s1 s3 found w6 where
    l: "load api (initial w) = (Inr (S, S', g), s1)" and
    f: "fetch_accounts api (inserts_pass api (inserts_order order) today g S' s1) = (Inr (), s3)" and
    p: "Account_find api account_filter_pwd
       (world (deactivates_pass api (deactivates_order order) today S (load_excludes json)
          (updates_loop api (updates_order order) S s3))) = (Inr found, w6)"
    by (rule main_Inr)
  have "distinct (keys (planon_accounts s3))"
    using f
    by (auto simp: fetch_accounts_def seq_def step_def return_def remote_def
          distinct_keys_dict_comp split: prod.splits sum.splits)
  moreover have "keys (planon_accounts (updates_loop api (updates_order order) S s3))
                 = keys (planon_accounts s3)"
    by (rule updates_loop_keys)
  ultimately show "\<exists>S S' g s1 s3 found w6.
           load api (initial w) = (Inr (S, S', g), s1)
         \<and> fetch_accounts api (inserts_pass api (inserts_order order) today g S' s1) = (Inr (), s3)
         \<and> distinct (keys (planon_accounts (updates_loop api (updates_order order) S s3)))
         \<and> Account_find api account_filter_pwd
              (world (deactivates_pass api (deactivates_order order) today S (load_excludes json)
                 (updates_loop api (updates_order order) S s3))) = (Inr found, w6)"
    using l f p by auto
qed


theorem to_deactivate_witness:
  "''c'' \<in> set (keys (load_excludes demo_excludes))
   \<and> distinct (keys (planon_accounts demo_state))
   \<and> ''c'' \<notin> set (set_iteration [] (deactivates (planon_accounts demo_state)
                      (dict_comp netid (roster demo_world)) (load_excludes demo_excludes)))
   \<and> map_of (planon_accounts (deactivates_pass demo_api [] demo_today
              (dict_comp netid (roster demo_world)) (load_excludes demo_excludes) demo_state)) ''c''
       = Some (demo_account ''c'' ''Carol'' True ''A1'')
   \<and> calls (deactivates_pass demo_api [] demo_today
              (dict_comp netid (roster demo_world)) (load_excludes demo_excludes) demo_state)
       = [AccountSave ((demo_account ''x'' ''Xi'' False ''A2'')\<lparr>EndDate := Some demo_today\<rparr>)]
   \<and> (\<exists>status sf. main demo_api demo_orders demo_today demo_excludes demo_world
                      = (Inr status, sf))"
proof -
  note c2 = conjunct2
  have e: "''c'' \<in> set (keys (load_excludes demo_excludes))"
    by (simp add: load_excludes_def demo_excludes_def dict_comp_def keys_def)
  have d: "distinct (keys (planon_accounts demo_state))"
    by (simp add: demo_state_def keys_def)
  note excl = to_deactivate [where k = "''c''" and E = "load_excludes demo_excludes"
      and s = demo_state and api = demo_api and od = "[]" and today = demo_today
      and S = "dict_comp netid (roster demo_world)", THEN c2, THEN c2, THEN conjunct1]
  note saved = to_deactivate [where s = demo_state and api = demo_api and od = "[]"
      and today = demo_today and E = "load_excludes demo_excludes"
      and S = "dict_comp netid (roster demo_world)", THEN c2, THEN c2, THEN c2, THEN conjunct1]
  have x: "set_iteration [] (deactivates (planon_accounts demo_state)
             (dict_comp netid (roster demo_world)) (load_excludes demo_excludes)) = [''x'']"
    by (simp add: demo_state_def deactivates_def set_diff_def keys_def dict_comp_def
        load_excludes_def demo_excludes_def demo_world_def demo_person_def)
  have k: "map_of (planon_accounts demo_state) ''c'' = Some (demo_account ''c'' ''Carol'' True ''A1'')"
          "map_of (planon_accounts demo_state) ''x'' = Some (demo_account ''x'' ''Xi'' False ''A2'')"
          "calls demo_state = []"
    by (simp_all add: demo_state_def initial_def)
  from excl e have
    n: "''c'' \<notin> set (set_iteration [] (deactivates (planon_accounts demo_state)
                      (dict_comp netid (roster demo_world)) (load_excludes demo_excludes)))" and
    m: "map_of (planon_accounts (deactivates_pass demo_api [] demo_today
              (dict_comp netid (roster demo_world)) (load_excludes demo_excludes) demo_state)) ''c''
        = map_of (planon_accounts demo_state) ''c''"
    by simp_all
  from saved d have
    c: "calls (deactivates_pass demo_api [] demo_today
              (dict_comp netid (roster demo_world)) (load_excludes demo_excludes) demo_state)
        = calls demo_state @ map (\<lambda>k. AccountSave ((the (map_of (planon_accounts demo_state) k))
                                  \<lparr>EndDate := Some demo_today\<rparr>))
             (set_iteration [] (deactivates (planon_accounts demo_state)
                (dict_comp netid (roster demo_world)) (load_excludes demo_excludes)))"
    by simp
  have grp: "map_of (dict_comp group_Description (groups demo_world)) ''DC - Requestors''
             = Some (hd demo_groups)"
    using demo_groups_lookup by (simp add: demo_world_def)
  have r: "\<exists>status sf. main demo_api demo_orders demo_today demo_excludes demo_world
                      = (Inr status, sf)"
    by (rule demo_main_completes [OF grp])
  have c': "calls (deactivates_pass demo_api [] demo_today
              (dict_comp netid (roster demo_world)) (load_excludes demo_excludes) demo_state)
       = [AccountSave ((demo_account ''x'' ''Xi'' False ''A2'')\<lparr>EndDate := Some demo_today\<rparr>)]"
    unfolding c x by (simp add: k)
  show ?thesis
    using e d n m c' r by (simp add: k)
qed

section \<open>Capital letters in keys\<close>

lemma deactivates_without_capitals:
  assumes "\<And>s. \<not> has_upper (str_lower api s)"
  shows "set (deactivates (dict_comp (account_key api) found) S (load_excludes json))
         = set (deactivates (dict_comp (account_key api) found) S
                  (load_excludes (filter (\<lambda>e. \<not> has_upper (account_name e)) json)))"
proof -
  have k: "\<And>k. k \<in> set (keys (dict_comp (account_key api) found)) \<Longrightarrow> \<not> has_upper k"
    using has_upper_not_account_key [OF assms] by blast
  have "\<And>k. k \<in> set (keys (dict_comp (account_key api) found)) \<Longrightarrow>
          k \<in> account_name ` set json
          \<longleftrightarrow> k \<in> account_name ` {e \<in> set json. \<not> has_upper (account_name e)}"
    using k by auto
  then show ?thesis
    unfolding set_deactivates load_excludes_def set_keys_dict_comp set_filter
    by blast
qed

text \<open>
  C10, as the code has it. The keys of a snapshot are the account names passed through
  \<^verbatim>\<open>str.lower\<close>; the keys of the two rosters are the netids and the keys of the exclusion
  dictionary are the \<^verbatim>\<open>account_name\<close>s, as they come. Given that \<^verbatim>\<open>str.lower\<close> never returns a
  string with a capital letter of ASCII: a netid with such a letter is never in the set of
  the update loop; it is in the set of the insert loop when its person is in the filtered
  roster, whatever the snapshot holds; and the exclusion entries whose \<^verbatim>\<open>account_name\<close> has
  such a letter do not change the set of the deactivate loop. A netid whose every person
  is removed by the filter is not in the set of the insert loop.
\<close>

theorem one_sided_case_normalization:
  "set (keys (dict_comp (account_key api) found)) = (\<lambda>a. str_lower api (Accountname a)) ` set found
   \<and> set (keys (dict_comp netid people)) = netid ` set people
   \<and> set (keys (load_excludes json)) = account_name ` set json
   \<and> ((\<forall>s. \<not> has_upper (str_lower api s)) \<longrightarrow>
        (has_upper k \<longrightarrow>
           k \<notin> set (set_iteration ou (updates (dict_comp (account_key api) found) S)))
        \<and> (person \<in> set people' \<longrightarrow> eligible person \<longrightarrow> has_upper (netid person) \<longrightarrow>
             netid person \<in> set (set_iteration oi
               (inserts (dict_comp netid (filter eligible people'))
                  (dict_comp (account_key api) found))))
        \<and> set (set_iteration od
               (deactivates (dict_comp (account_key api) found) S (load_excludes json)))
           = set (set_iteration od
               (deactivates (dict_comp (account_key api) found) S
                  (load_excludes (filter (\<lambda>e. \<not> has_upper (account_name e)) json)))))
   \<and> ((\<forall>p \<in> set people'. netid p = k \<longrightarrow> \<not> eligible p) \<longrightarrow>
        k \<notin> set (set_iteration oi
               (inserts (dict_comp netid (filter eligible people')) T)))"
proof (intro conjI impI)
  show "set (keys (dict_comp (account_key api) found))
        = (\<lambda>a. str_lower api (Accountname a)) ` set found"
    by (auto simp: set_keys_dict_comp account_key_def)
  show "set (keys (dict_comp netid people)) = netid ` set people"
    by (simp add: set_keys_dict_comp)
  show "set (keys (load_excludes json)) = account_name ` set json"
    by (simp add: load_excludes_def set_keys_dict_comp)
next
  assume h: "\<forall>s. \<not> has_upper (str_lower api s)" and k: "has_upper k"
  have "k \<notin> set (keys (dict_comp (account_key api) found))"
    using has_upper_not_account_key [of api k found] h k by blast
  then show "k \<notin> set (set_iteration ou (updates (dict_comp (account_key api) found) S))"
    by (simp add: set_set_iteration set_updates)
next
  assume h: "\<forall>s. \<not> has_upper (str_lower api s)"
    and p: "person \<in> set people'" "eligible person" "has_upper (netid person)"
  have "netid person \<notin> set (keys (dict_comp (account_key api) found))"
    using has_upper_not_account_key [of api "netid person" found] h p(3) by blast
  moreover have "netid person \<in> set (keys (dict_comp netid (filter eligible people')))"
    using p(1,2) by (simp add: set_keys_dict_comp)
  ultimately show "netid person \<in> set (set_iteration oi
               (inserts (dict_comp netid (filter eligible people'))
                  (dict_comp (account_key api) found)))"
    by (simp add: set_set_iteration set_inserts)
next
  assume h: "\<forall>s. \<not> has_upper (str_lower api s)"
  then show "set (set_iteration od
               (deactivates (dict_comp (account_key api) found) S (load_excludes json)))
           = set (set_iteration od
               (deactivates (dict_comp (account_key api) found) S
                  (load_excludes (filter (\<lambda>e. \<not> has_upper (account_name e)) json))))"
    using deactivates_without_capitals [of api found S json]
    by (simp add: set_set_iteration)
next
  assume "\<forall>p \<in> set people'. netid p = k \<longrightarrow> \<not> eligible p"
  then have "k \<notin> set (keys (dict_comp netid (filter eligible people')))"
    by (auto simp: set_keys_dict_comp)
  then show "k \<notin> set (set_iteration oi
               (inserts (dict_comp netid (filter eligible people')) T))"
    by (simp add: set_set_iteration set_inserts)
qed


lemma demo_lower_AB: "demo_lower ''AB'' = ''ab''"
  by code_simp

lemma demo_lower_C: "demo_lower ''C'' = ''c''"
  by code_simp

text \<open>
  The theorem at work: the roster has Abe under the netid \<open>Ab\<close>, the snapshot has the
  accounts named \<open>AB\<close> and \<open>C\<close>, and the exclusion file names \<open>C\<close>. Abe's netid is in
  the set of the insert loop, not in that of the update loop, and the account \<open>c\<close> is in
  the set of the deactivate loop, with or without the exclusion entry.
\<close>

theorem one_sided_case_normalization_witness:
  "(\<forall>s. \<not> has_upper (str_lower demo_api s))
   \<and> has_upper ''Ab''
   \<and> eligible (demo_person ''Ab'' ''Abe'' ''STAFF'')
   \<and> keys (dict_comp (account_key demo_api)
        [demo_account ''AB'' ''Abe'' True ''A0'', demo_account ''C'' ''Cy'' True ''A1''])
      = [''ab'', ''c'']
   \<and> ''Ab'' \<notin> set (set_iteration []
        (updates (dict_comp (account_key demo_api)
           [demo_account ''AB'' ''Abe'' True ''A0'', demo_account ''C'' ''Cy'' True ''A1''])
           (dict_comp netid [demo_person ''Ab'' ''Abe'' ''STAFF''])))
   \<and> ''Ab'' \<in> set (set_iteration []
        (inserts (dict_comp netid (filter eligible [demo_person ''Ab'' ''Abe'' ''STAFF'']))
           (dict_comp (account_key demo_api)
              [demo_account ''AB'' ''Abe'' True ''A0'', demo_account ''C'' ''Cy'' True ''A1''])))
   \<and> has_upper (account_name \<lparr>account_name = ''C'', metadata = ''front desk''\<rparr>)
   \<and> set (set_iteration []
        (deactivates (dict_comp (account_key demo_api)
           [demo_account ''AB'' ''Abe'' True ''A0'', demo_account ''C'' ''Cy'' True ''A1''])
           (dict_comp netid [demo_person ''Ab'' ''Abe'' ''STAFF''])
           (load_excludes [\<lparr>account_name = ''C'', metadata = ''front desk''\<rparr>])))
      = set (set_iteration []
        (deactivates (dict_comp (account_key demo_api)
           [demo_account ''AB'' ''Abe'' True ''A0'', demo_account ''C'' ''Cy'' True ''A1''])
           (dict_comp netid [demo_person ''Ab'' ''Abe'' ''STAFF''])
           (load_excludes [])))
   \<and> ''c'' \<in> set (set_iteration []
        (deactivates (dict_comp (account_key demo_api)
           [demo_account ''AB'' ''Abe'' True ''A0'', demo_account ''C'' ''Cy'' True ''A1''])
           (dict_comp netid [demo_person ''Ab'' ''Abe'' ''STAFF''])
           (load_excludes [\<lparr>account_name = ''C'', metadata = ''front desk''\<rparr>])))"
proof -
  let ?found = "[demo_account ''AB'' ''Abe'' True ''A0'', demo_account ''C'' ''Cy'' True ''A1'']"
  let ?p = "demo_person ''Ab'' ''Abe'' ''STAFF''"
  let ?json = "[\<lparr>account_name = ''C'', metadata = ''front desk''\<rparr>]"
  have h: "\<forall>s. \<not> has_upper (str_lower demo_api s)"
    by (simp add: demo_api_def not_has_upper_lower)
  have u: "has_upper ''Ab''"
    by (simp add: has_upper_def is_upper_def)
  have e: "eligible ?p"
    by (simp add: eligible_def demo_person_def)
  have c: "has_upper (account_name \<lparr>account_name = ''C'', metadata = ''front desk''\<rparr>)"
    by (simp add: has_upper_def is_upper_def)
  have n: "netid ?p = ''Ab''"
    by (simp add: demo_person_def)
  have ks: "keys (dict_comp (account_key demo_api) ?found) = [''ab'', ''c'']"
    by (simp add: dict_comp_def keys_def account_key_def demo_api_def demo_account_def
        demo_lower_AB demo_lower_C)
  note t = one_sided_case_normalization
    [where api = demo_api and found = ?found and k = "''Ab''" and S = "dict_comp netid [?p]"
       and person = ?p and people' = "[?p]" and json = ?json and ou = "[]" and oi = "[]"
       and od = "[]", THEN conjunct2, THEN conjunct2, THEN conjunct2, THEN conjunct1]
  from t h u have a: "''Ab'' \<notin> set (set_iteration []
        (updates (dict_comp (account_key demo_api) ?found) (dict_comp netid [?p])))"
    by blast
  from t h u e n have b: "''Ab'' \<in> set (set_iteration []
        (inserts (dict_comp netid (filter eligible [?p]))
           (dict_comp (account_key demo_api) ?found)))"
    by simp
  have f: "filter (\<lambda>e. \<not> has_upper (account_name e)) ?json = []"
    by (simp add: has_upper_def is_upper_def)
  from t h have d: "set (set_iteration []
        (deactivates (dict_comp (account_key demo_api) ?found) (dict_comp netid [?p])
           (load_excludes ?json)))
      = set (set_iteration []
        (deactivates (dict_comp (account_key demo_api) ?found) (dict_comp netid [?p])
           (load_excludes [])))"
    unfolding f by blast
  have "''c'' \<in> set (set_iteration []
        (deactivates (dict_comp (account_key demo_api) ?found) (dict_comp netid [?p])
           (load_excludes [])))"
    by (simp add: set_set_iteration set_deactivates set_keys_dict_comp load_excludes_def
        account_key_def demo_api_def demo_lower_AB demo_lower_C
        demo_account_def demo_person_def)
  with d have g: "''c'' \<in> set (set_iteration []
        (deactivates (dict_comp (account_key demo_api) ?found) (dict_comp netid [?p])
           (load_excludes ?json)))"
    by simp
  from h u e ks a b c d g show ?thesis
    by (intro conjI) assumption+
qed

text \<open>
  Against C10 as it was stated: the roster of \<^const>\<open>demo_world_rda\<close> has the service
  account \<open>Svc1\<close>, whose netid has capital letters. It is a key of the unfiltered roster
  that \<^const>\<open>load\<close> builds, and the snapshot has no account of that name in any case; yet
  it is not in the set of the insert loop, since the filter of line 68 removes it.
\<close>

theorem one_sided_case_normalization_counterexample:
  "has_upper ''Svc1''
   \<and> fst (load demo_api (initial demo_world_rda))
     = Inr (dict_comp netid (roster demo_world_rda),
            dict_comp netid (filter eligible (roster demo_world_rda)),
            hd demo_groups)
   \<and> ''Svc1'' \<in> set (keys (dict_comp netid (roster demo_world_rda)))
   \<and> planon_accounts (snd (load demo_api (initial demo_world_rda))) = []
   \<and> ''Svc1'' \<notin> set (inserts (dict_comp netid (filter eligible (roster demo_world_rda)))
                       (planon_accounts (snd (load demo_api (initial demo_world_rda)))))
   \<and> ''Svc1'' \<notin> set (updates (planon_accounts (snd (load demo_api (initial demo_world_rda))))
                       (dict_comp netid (roster demo_world_rda)))"
proof -
  have u: "has_upper ''Svc1''"
    by (simp add: has_upper_def is_upper_def)
  have l: "fst (load demo_api (initial demo_world_rda))
           = Inr (dict_comp netid (roster demo_world_rda),
                  dict_comp netid (filter eligible (roster demo_world_rda)),
                  hd demo_groups)"
    using demo_load [of demo_world_rda "hd demo_groups"] demo_groups_lookup
    by (auto simp: demo_world_rda_def)
  have p: "planon_accounts (snd (load demo_api (initial demo_world_rda))) = []"
    by (simp add: load_def seq_def step_def return_def remote_def demo_api_def subscript_def
        log_def initial_def fetch_accounts_def demo_find_def demo_world_rda_def dict_comp_def
        demo_groups_def demo_arrive_def matches_def split: option.splits)
  have a: "''Svc1'' \<in> set (keys (dict_comp netid (roster demo_world_rda)))"
    by (simp add: set_keys_dict_comp demo_world_rda_def demo_person_def)
  have b: "''Svc1'' \<notin> set (keys (dict_comp netid (filter eligible (roster demo_world_rda))))"
    by (simp add: set_keys_dict_comp demo_world_rda_def demo_person_def eligible_def)
  have i: "''Svc1'' \<notin> set (inserts (dict_comp netid (filter eligible (roster demo_world_rda)))
                       (planon_accounts (snd (load demo_api (initial demo_world_rda)))))"
    using b by (simp add: set_inserts)
  have n: "''Svc1'' \<notin> set (updates (planon_accounts (snd (load demo_api (initial demo_world_rda))))
                       (dict_comp netid (roster demo_world_rda)))"
    unfolding p by (simp add: set_updates keys_def)
  from u l a p i n show ?thesis
    by (intro conjI) assumption+
qed

section \<open>The update loop\<close>

lemma update_one_same:
  assumes "map_of S k = Some p" "map_of (planon_accounts s) k = Some a"
    "Some (name p) = Description a"
  shows "update_one api S k s
         = log DEBUG (''Displayname '' @ str_opt (Description a) @ '' matches for ''
                      @ Accountname a @ '', no update required'') s"
  using assms
  by (simp add: update_one_def update_try_def try_except_def seq_def step_def return_def
      subscript_def)

lemma update_one_differ:
  assumes "map_of S k = Some p" "map_of (planon_accounts s) k = Some a"
    "Some (name p) \<noteq> Description a"
  shows "calls (update_one api S k s) = calls s @ [AccountSave (a\<lparr>Description := Some (name p)\<rparr>)]"
    and "map_of (planon_accounts (update_one api S k s)) k = Some (a\<lparr>Description := Some (name p)\<rparr>)"
    and "updates_succeeded (update_one api S k s) @ updates_failed (update_one api S k s)
         = (case fst (Account_save api (a\<lparr>Description := Some (name p)\<rparr>) (world s)) of
              Inr _ \<Rightarrow> (updates_succeeded s @ [k]) @ updates_failed s
            | Inl _ \<Rightarrow> updates_succeeded s @ updates_failed s @ [k])"
  using assms
  by (auto simp: update_one_def update_try_def update_except_def try_except_def
        seq_def step_def return_def subscript_def remote_def log_def assign_account_def
        update_conv
      split: prod.splits sum.splits)

lemma update_one_map_of_other:
  "k' \<noteq> k \<Longrightarrow> map_of (planon_accounts (update_one api S k s)) k' = map_of (planon_accounts s) k'"
  by (cases "map_of (planon_accounts s) k")
     (auto simp: update_one_def update_try_def update_except_def try_except_def
        seq_def step_def return_def subscript_def remote_def log_def assign_account_def
        update_conv
      split: prod.splits sum.splits option.splits)

lemma update_one_agree_here:
  assumes "k \<in> set (keys S)" "k \<in> set (keys (planon_accounts s))"
  shows "agree S k (update_one api S k s)"
proof -
  from assms obtain p a where pa: "map_of S k = Some p" "map_of (planon_accounts s) k = Some a"
    using map_of_keys [of S k] map_of_keys [of "planon_accounts s" k] by auto
  show ?thesis
  proof (cases "Some (name p) = Description a")
    case True
    then show ?thesis
      using pa by (simp add: update_one_same agree_def log_def)
  next
    case False
    then show ?thesis
      using pa update_one_differ(2) [OF pa False, of api] by (simp add: agree_def)
  qed
qed

lemma update_one_agree_kept:
  assumes "agree S k s"
  shows "agree S k (update_one api S k' s)"
proof (cases "k' = k")
  case True
  from assms obtain p a where pa: "map_of S k = Some p" "map_of (planon_accounts s) k = Some a"
    "Some (name p) = Description a"
    by (auto simp: agree_def split: option.splits)
  then show ?thesis
    using True assms by (simp add: update_one_same agree_def log_def)
next
  case False
  then show ?thesis
    using assms update_one_map_of_other [of k k' api S s] by (simp add: agree_def)
qed

lemma fold_update_agree_kept:
  "agree S k s \<Longrightarrow> agree S k (fold (update_one api S) ks s)"
  by (induction ks arbitrary: s) (simp_all add: update_one_agree_kept)

lemma fold_update_agree:
  assumes "k \<in> set ks" "k \<in> set (keys S)" "k \<in> set (keys (planon_accounts s))"
  shows "agree S k (fold (update_one api S) ks s)"
  using assms
proof (induction ks arbitrary: s)
  case Nil
  then show ?case by simp
next
  case (Cons x ks)
  show ?case
  proof (cases "x = k")
    case True
    then show ?thesis
      using Cons.prems by (simp add: fold_update_agree_kept update_one_agree_here)
  next
    case False
    then have "k \<in> set ks" using Cons.prems by simp
    moreover have "k \<in> set (keys (planon_accounts (update_one api S x s)))"
      using Cons.prems by (simp add: update_one_keys)
    ultimately show ?thesis
      using Cons.IH [of "update_one api S x s"] Cons.prems by simp
  qed
qed

text \<open>What a pass over keys that all agree leaves: the state, with one line of log per key.\<close>

lemma update_one_agree_quiet:
  assumes "agree S k s"
  shows "calls (update_one api S k s) = calls s"
    and "world (update_one api S k s) = world s"
    and "planon_accounts (update_one api S k s) = planon_accounts s"
    and "updates_succeeded (update_one api S k s) = updates_succeeded s"
    and "updates_failed (update_one api S k s) = updates_failed s"
proof -
  from assms obtain p a where pa: "map_of S k = Some p" "map_of (planon_accounts s) k = Some a"
    "Some (name p) = Description a"
    by (auto simp: agree_def split: option.splits)
  show "calls (update_one api S k s) = calls s"
    and "world (update_one api S k s) = world s"
    and "planon_accounts (update_one api S k s) = planon_accounts s"
    and "updates_succeeded (update_one api S k s) = updates_succeeded s"
    and "updates_failed (update_one api S k s) = updates_failed s"
    by (simp_all add: update_one_same [OF pa] log_def)
qed

lemma fold_update_quiet:
  assumes "\<forall>k \<in> set ks. agree S k s"
  shows "calls (fold (update_one api S) ks s) = calls s
         \<and> world (fold (update_one api S) ks s) = world s
         \<and> planon_accounts (fold (update_one api S) ks s) = planon_accounts s
         \<and> updates_succeeded (fold (update_one api S) ks s) = updates_succeeded s
         \<and> updates_failed (fold (update_one api S) ks s) = updates_failed s"
  using assms
proof (induction ks arbitrary: s)
  case Nil
  then show ?case by simp
next
  case (Cons x ks)
  have x: "agree S x s" using Cons.prems by simp
  have "\<forall>k \<in> set ks. agree S k (update_one api S x s)"
    using Cons.prems by (simp add: update_one_agree_kept)
  from Cons.IH [OF this] show ?case
    by (simp add: update_one_agree_quiet [OF x])
qed

lemma updates_loop_quiet:
  assumes "\<forall>k \<in> set (updates (planon_accounts s) S). agree S k s"
  shows "calls (updates_loop api ou S s) = calls s
         \<and> world (updates_loop api ou S s) = world s
         \<and> planon_accounts (updates_loop api ou S s) = planon_accounts s
         \<and> updates_succeeded (updates_loop api ou S s) = updates_succeeded s
         \<and> updates_failed (updates_loop api ou S s) = updates_failed s"
  unfolding updates_loop_def
  by (rule fold_update_quiet) (use assms in \<open>simp add: set_set_iteration\<close>)

lemma updates_loop_agree:
  assumes "k \<in> set (updates (planon_accounts s) S)"
  shows "agree S k (updates_loop api ou S s)"
  unfolding updates_loop_def
  by (rule fold_update_agree) (use assms in \<open>simp_all add: set_set_iteration set_updates\<close>)


lemma fetch_accounts_calls:
  "fetch_accounts api s = (r, s') \<Longrightarrow> calls s' = calls s @ [AccountFind account_filter]"
  by (auto simp: fetch_accounts_def seq_def step_def return_def remote_def
      split: prod.splits sum.splits)

text \<open>
  C6. One iteration of the update loop, for a key that the roster and \<^verbatim>\<open>planon_accounts\<close>
  both have: when the person's \<^verbatim>\<open>name\<close> equals the account's \<^verbatim>\<open>Description\<close> the iteration
  writes one line of log and does nothing else (no call, no assignment, no outcome); when
  they differ it assigns the name to the \<^verbatim>\<open>Description\<close> and makes one call, the \<^verbatim>\<open>save()\<close>
  of the account with the new \<^verbatim>\<open>Description\<close>. After the loop the names agree at every key
  of its set. A loop over a set whose keys all agree makes no call and changes neither
  \<^verbatim>\<open>planon_accounts\<close> nor the outcome lists; so does the loop run again on the state it
  left, with the same roster, in any order; and so does the whole pass, where the accounts
  that line 184 fetches agree with the roster: its only call is the fetch.
\<close>

theorem update_only_when_names_differ:
  "(map_of S k = Some p \<and> map_of (planon_accounts s) k = Some a \<longrightarrow>
      (Some (name p) = Description a \<longrightarrow>
         update_one api S k s
         = log DEBUG (''Displayname '' @ str_opt (Description a) @ '' matches for ''
                      @ Accountname a @ '', no update required'') s)
      \<and> (Some (name p) \<noteq> Description a \<longrightarrow>
           calls (update_one api S k s)
           = calls s @ [AccountSave (a\<lparr>Description := Some (name p)\<rparr>)]
           \<and> map_of (planon_accounts (update_one api S k s)) k
             = Some (a\<lparr>Description := Some (name p)\<rparr>)))
   \<and> (k \<in> set (updates (planon_accounts s) S) \<longrightarrow> agree S k (updates_loop api ou S s))
   \<and> ((\<forall>k \<in> set (updates (planon_accounts s) S). agree S k s) \<longrightarrow>
        calls (updates_loop api ou S s) = calls s
        \<and> world (updates_loop api ou S s) = world s
        \<and> planon_accounts (updates_loop api ou S s) = planon_accounts s
        \<and> updates_succeeded (updates_loop api ou S s) = updates_succeeded s
        \<and> updates_failed (updates_loop api ou S s) = updates_failed s)
   \<and> calls (updates_loop api ou' S (updates_loop api ou S s)) = calls (updates_loop api ou S s)
   \<and> world (updates_loop api ou' S (updates_loop api ou S s)) = world (updates_loop api ou S s)
   \<and> planon_accounts (updates_loop api ou' S (updates_loop api ou S s))
     = planon_accounts (updates_loop api ou S s)
   \<and> updates_succeeded (updates_loop api ou' S (updates_loop api ou S s))
     = updates_succeeded (updates_loop api ou S s)
   \<and> updates_failed (updates_loop api ou' S (updates_loop api ou S s))
     = updates_failed (updates_loop api ou S s)
   \<and> (fetch_accounts api s = (Inr (), s1)
        \<and> (\<forall>k \<in> set (updates (planon_accounts s1) S). agree S k s1) \<longrightarrow>
        updates_pass api ou S s = (Inr (), updates_loop api ou S s1)
        \<and> calls (updates_loop api ou S s1) = calls s @ [AccountFind account_filter]
        \<and> planon_accounts (updates_loop api ou S s1) = planon_accounts s1
        \<and> updates_succeeded (updates_loop api ou S s1) = updates_succeeded s1)"
proof -
  have one: "map_of S k = Some p \<and> map_of (planon_accounts s) k = Some a \<longrightarrow>
      (Some (name p) = Description a \<longrightarrow>
         update_one api S k s
         = log DEBUG (''Displayname '' @ str_opt (Description a) @ '' matches for ''
                      @ Accountname a @ '', no update required'') s)
      \<and> (Some (name p) \<noteq> Description a \<longrightarrow>
           calls (update_one api S k s)
           = calls s @ [AccountSave (a\<lparr>Description := Some (name p)\<rparr>)]
           \<and> map_of (planon_accounts (update_one api S k s)) k
             = Some (a\<lparr>Description := Some (name p)\<rparr>))"
    using update_one_same [of S k p s a api] update_one_differ(1,2) [of S k p s a api]
    by blast
  have after: "k \<in> set (updates (planon_accounts s) S) \<longrightarrow> agree S k (updates_loop api ou S s)"
    using updates_loop_agree by blast
  have quiet: "(\<forall>k \<in> set (updates (planon_accounts s) S). agree S k s) \<longrightarrow>
        calls (updates_loop api ou S s) = calls s
        \<and> world (updates_loop api ou S s) = world s
        \<and> planon_accounts (updates_loop api ou S s) = planon_accounts s
        \<and> updates_succeeded (updates_loop api ou S s) = updates_succeeded s
        \<and> updates_failed (updates_loop api ou S s) = updates_failed s"
    using updates_loop_quiet [of s S api ou] by blast
  have "updates (planon_accounts (updates_loop api ou S s)) S = updates (planon_accounts s) S"
    by (simp add: updates_def updates_loop_keys)
  then have "\<forall>k \<in> set (updates (planon_accounts (updates_loop api ou S s)) S).
               agree S k (updates_loop api ou S s)"
    using updates_loop_agree [of _ s S api ou] by simp
  from updates_loop_quiet [OF this, of api ou']
  have again: "calls (updates_loop api ou' S (updates_loop api ou S s))
        = calls (updates_loop api ou S s)
     \<and> world (updates_loop api ou' S (updates_loop api ou S s)) = world (updates_loop api ou S s)
     \<and> planon_accounts (updates_loop api ou' S (updates_loop api ou S s))
       = planon_accounts (updates_loop api ou S s)
     \<and> updates_succeeded (updates_loop api ou' S (updates_loop api ou S s))
       = updates_succeeded (updates_loop api ou S s)
     \<and> updates_failed (updates_loop api ou' S (updates_loop api ou S s))
       = updates_failed (updates_loop api ou S s)" .
  have pass: "fetch_accounts api s = (Inr (), s1)
        \<and> (\<forall>k \<in> set (updates (planon_accounts s1) S). agree S k s1) \<longrightarrow>
        updates_pass api ou S s = (Inr (), updates_loop api ou S s1)
        \<and> calls (updates_loop api ou S s1) = calls s @ [AccountFind account_filter]
        \<and> planon_accounts (updates_loop api ou S s1) = planon_accounts s1
        \<and> updates_succeeded (updates_loop api ou S s1) = updates_succeeded s1"
  proof (intro impI, elim conjE)
    assume f: "fetch_accounts api s = (Inr (), s1)"
      and a: "\<forall>k \<in> set (updates (planon_accounts s1) S). agree S k s1"
    have "updates_pass api ou S s = (Inr (), updates_loop api ou S s1)"
      by (simp add: updates_pass_def seq_def step_def return_def f)
    then show "updates_pass api ou S s = (Inr (), updates_loop api ou S s1)
        \<and> calls (updates_loop api ou S s1) = calls s @ [AccountFind account_filter]
        \<and> planon_accounts (updates_loop api ou S s1) = planon_accounts s1
        \<and> updates_succeeded (updates_loop api ou S s1) = updates_succeeded s1"
      using updates_loop_quiet [OF a, of api ou] fetch_accounts_calls [OF f] by simp
  qed
  note a1 = again [THEN conjunct1]
  note a2 = again [THEN conjunct2, THEN conjunct1]
  note a3 = again [THEN conjunct2, THEN conjunct2, THEN conjunct1]
  note a4 = again [THEN conjunct2, THEN conjunct2, THEN conjunct2, THEN conjunct1]
  note a5 = again [THEN conjunct2, THEN conjunct2, THEN conjunct2, THEN conjunct2]
  from one after quiet a1 a2 a3 a4 a5 pass show ?thesis
    by (intro conjI) assumption+
qed


text \<open>
  The theorem at work, on \<^const>\<open>demo_state\<close> (the accounts of Bob, Carol and Xi) with a
  roster where Bob is now Robert and Carol is Carol: Carol's iteration only logs, Bob's
  saves the account with the new name, and the loop run again makes no call. With the
  roster of \<^const>\<open>demo_world\<close>, where Bob is Bob, the loop makes no call, and the pass, run
  from the start of a run, makes the call of line 184 and no other.
\<close>

theorem update_only_when_names_differ_witness:
  "map_of (dict_comp netid [demo_person ''b'' ''Robert'' ''STAFF'', demo_person ''c'' ''Carol'' ''STAFF'']) ''c''
     = Some (demo_person ''c'' ''Carol'' ''STAFF'')
   \<and> map_of (planon_accounts demo_state) ''c'' = Some (demo_account ''c'' ''Carol'' True ''A1'')
   \<and> update_one demo_api
        (dict_comp netid [demo_person ''b'' ''Robert'' ''STAFF'', demo_person ''c'' ''Carol'' ''STAFF''])
        ''c'' demo_state
      = log DEBUG ''Displayname Carol matches for c, no update required'' demo_state
   \<and> calls (update_one demo_api
        (dict_comp netid [demo_person ''b'' ''Robert'' ''STAFF'', demo_person ''c'' ''Carol'' ''STAFF''])
        ''b'' demo_state)
      = [AccountSave (demo_account ''b'' ''Robert'' True ''A0'')]
   \<and> map_of (planon_accounts (update_one demo_api
        (dict_comp netid [demo_person ''b'' ''Robert'' ''STAFF'', demo_person ''c'' ''Carol'' ''STAFF''])
        ''b'' demo_state)) ''b''
      = Some (demo_account ''b'' ''Robert'' True ''A0'')
   \<and> ''b'' \<in> set (updates (planon_accounts demo_state)
        (dict_comp netid [demo_person ''b'' ''Robert'' ''STAFF'', demo_person ''c'' ''Carol'' ''STAFF'']))
   \<and> agree (dict_comp netid [demo_person ''b'' ''Robert'' ''STAFF'', demo_person ''c'' ''Carol'' ''STAFF''])
        ''b''
        (updates_loop demo_api []
           (dict_comp netid [demo_person ''b'' ''Robert'' ''STAFF'', demo_person ''c'' ''Carol'' ''STAFF''])
           demo_state)
   \<and> calls (updates_loop demo_api [1]
        (dict_comp netid [demo_person ''b'' ''Robert'' ''STAFF'', demo_person ''c'' ''Carol'' ''STAFF''])
        (updates_loop demo_api []
           (dict_comp netid [demo_person ''b'' ''Robert'' ''STAFF'', demo_person ''c'' ''Carol'' ''STAFF''])
           demo_state))
      = calls (updates_loop demo_api []
           (dict_comp netid [demo_person ''b'' ''Robert'' ''STAFF'', demo_person ''c'' ''Carol'' ''STAFF''])
           demo_state)
   \<and> updates (planon_accounts demo_state) (dict_comp netid (roster demo_world)) = [''b'']
   \<and> agree (dict_comp netid (roster demo_world)) ''b'' demo_state
   \<and> calls (updates_loop demo_api [] (dict_comp netid (roster demo_world)) demo_state) = []
   \<and> planon_accounts (updates_loop demo_api [] (dict_comp netid (roster demo_world)) demo_state)
      = planon_accounts demo_state
   \<and> fst (updates_pass demo_api [] (dict_comp netid (roster demo_world)) (initial demo_world))
      = Inr ()
   \<and> calls (snd (updates_pass demo_api [] (dict_comp netid (roster demo_world))
                 (initial demo_world)))
      = [AccountFind account_filter]"
proof -
  let ?S = "dict_comp netid [demo_person ''b'' ''Robert'' ''STAFF'', demo_person ''c'' ''Carol'' ''STAFF'']"
  let ?R = "dict_comp netid (roster demo_world)"
  note c2 = conjunct2
  have Sc: "map_of ?S ''c'' = Some (demo_person ''c'' ''Carol'' ''STAFF'')"
    and Sb: "map_of ?S ''b'' = Some (demo_person ''b'' ''Robert'' ''STAFF'')"
    by (simp_all add: dict_comp_def demo_person_def)
  have Tc: "map_of (planon_accounts demo_state) ''c'' = Some (demo_account ''c'' ''Carol'' True ''A1'')"
    and Tb: "map_of (planon_accounts demo_state) ''b'' = Some (demo_account ''b'' ''Bob'' True ''A0'')"
    and cs: "calls demo_state = []"
    by (simp_all add: demo_state_def initial_def)
  note one_c = update_only_when_names_differ [where S = ?S and k = "''c''" and s = demo_state
      and p = "demo_person ''c'' ''Carol'' ''STAFF''" and a = "demo_account ''c'' ''Carol'' True ''A1''"
      and api = demo_api, THEN conjunct1]
  from one_c Sc Tc have r2: "update_one demo_api ?S ''c'' demo_state
      = log DEBUG ''Displayname Carol matches for c, no update required'' demo_state"
    by (simp add: demo_person_def demo_account_def str_opt_def)
  note one_b = update_only_when_names_differ [where S = ?S and k = "''b''" and s = demo_state
      and p = "demo_person ''b'' ''Robert'' ''STAFF''" and a = "demo_account ''b'' ''Bob'' True ''A0''"
      and api = demo_api, THEN conjunct1]
  from one_b Sb Tb cs have r3: "calls (update_one demo_api ?S ''b'' demo_state)
      = [AccountSave (demo_account ''b'' ''Robert'' True ''A0'')]"
    and r4: "map_of (planon_accounts (update_one demo_api ?S ''b'' demo_state)) ''b''
      = Some (demo_account ''b'' ''Robert'' True ''A0'')"
    by (simp_all add: demo_person_def demo_account_def)
  have r5: "''b'' \<in> set (updates (planon_accounts demo_state) ?S)"
    by (simp add: updates_def set_inter_def demo_state_def keys_def dict_comp_def
        demo_person_def)
  note after = update_only_when_names_differ [where S = ?S and k = "''b''" and s = demo_state
      and api = demo_api and ou = "[]", THEN c2, THEN conjunct1]
  from after r5 have r6: "agree ?S ''b'' (updates_loop demo_api [] ?S demo_state)"
    by blast
  note r7 = update_only_when_names_differ [where S = ?S and s = demo_state
      and api = demo_api and ou = "[]" and ou' = "[1]", THEN c2, THEN c2, THEN c2, THEN conjunct1]
  have r8: "updates (planon_accounts demo_state) ?R = [''b'']"
    by (simp add: updates_def set_inter_def demo_state_def keys_def dict_comp_def
        demo_world_def demo_person_def)
  have r9: "agree ?R ''b'' demo_state"
    by (simp add: agree_def demo_state_def dict_comp_def demo_world_def demo_person_def
        demo_account_def)
  note quiet = update_only_when_names_differ [where S = ?R and s = demo_state
      and api = demo_api and ou = "[]", THEN c2, THEN c2, THEN conjunct1]
  from quiet r8 r9 cs have r10: "calls (updates_loop demo_api [] ?R demo_state) = []"
    and r11: "planon_accounts (updates_loop demo_api [] ?R demo_state) = planon_accounts demo_state"
    by simp_all
  define s1 where "s1 = snd (fetch_accounts demo_api (initial demo_world))"
  have f: "fetch_accounts demo_api (initial demo_world) = (Inr (), s1)"
    unfolding s1_def
    by (simp add: fetch_accounts_def seq_def step_def return_def remote_def demo_api_def
        demo_find_def)
  have T1: "planon_accounts s1
            = [(''b'', demo_account ''b'' ''Bob'' True ''A0''),
               (''c'', demo_account ''c'' ''Carol'' True ''A1'')]"
    unfolding s1_def
    by (simp add: fetch_accounts_def seq_def step_def return_def remote_def demo_api_def
        demo_find_def initial_def demo_world_def demo_arrive_def matches_def account_filter_def
        dict_comp_def account_key_def demo_account_def demo_lower_def demo_lower_char_def
        is_upper_def)
  have u1: "updates (planon_accounts s1) ?R = [''b'']"
    unfolding T1
    by (simp add: updates_def set_inter_def keys_def dict_comp_def demo_world_def demo_person_def)
  have a1: "agree ?R ''b'' s1"
    by (simp add: agree_def T1 dict_comp_def demo_world_def demo_person_def demo_account_def)
  note pass = update_only_when_names_differ [where S = ?R and s = "initial demo_world"
      and api = demo_api and ou = "[]" and ?s1.0 = s1,
      THEN c2, THEN c2, THEN c2, THEN c2, THEN c2, THEN c2, THEN c2, THEN c2]
  from pass f u1 a1 have r12: "fst (updates_pass demo_api [] ?R (initial demo_world)) = Inr ()"
    and r13: "calls (snd (updates_pass demo_api [] ?R (initial demo_world)))
              = [AccountFind account_filter]"
    by (simp_all add: initial_def)
  from Sc Tc r2 r3 r4 r5 r6 r7 r8 r9 r10 r11 r12 r13 show ?thesis
    by (intro conjI) assumption+
qed

section \<open>The insert loop\<close>

lemma unpack_in_str:
  "py_in ''unpack'' (str unpack_too_few)" "py_in ''unpack'' (str unpack_too_many)"
  using py_in_middle [of "''unpack''" "''not enough values to ''" "'' (expected 1, got 0)''"]
    py_in_middle [of "''unpack''" "''too many values to ''" "'' (expected 1)''"]
  by (simp_all add: unpack_too_few_def unpack_too_many_def)

lemma unpack1_cases:
  "unpack1 [] s = (Inl unpack_too_few, s)"
  "unpack1 [x] s = (Inr x, s)"
  "unpack1 (x # y # zs) s = (Inl unpack_too_many, s)"
  by (simp_all add: unpack1_def raise_def return_def)

lemma insert_except_unpack:
  assumes "e = unpack_too_few \<or> e = unpack_too_many"
  shows "insert_outcomes (insert_except k e s)
         = (inserts_succeeded s, inserts_skipped s, inserts_failed s,
            inserts_failed_to_link_person s @ [k])"
    and "calls (insert_except k e s) = calls s"
    and "world (insert_except k e s) = world s"
  using assms unpack_in_str
  by (auto simp: insert_except_def insert_outcomes_def log_def unpack_too_few_def
      unpack_too_many_def)

lemma insert_except_frame:
  "calls (insert_except k e s) = calls s" "world (insert_except k e s) = world s"
  by (simp_all add: insert_except_def log_def split: exn.splits)

lemma insert_one_create_fails:
  assumes "map_of S' k = Some p"
    "Account_create api (insert_values today k p) (world s) = (Inl e, w1)"
  shows "calls (insert_one api today g S' k s) = calls s @ [AccountCreate (insert_values today k p)]"
  using assms
  by (simp add: insert_one_def try_except_def insert_try_def seq_def step_def subscript_def
      remote_def log_def insert_except_frame)

lemma insert_one_group_fails:
  assumes "map_of S' k = Some p"
    "Account_create api (insert_values today k p) (world s) = (Inr a, w1)"
    "AccountAccountGroup_create api (group_Syscode g) (Syscode a) w1 = (Inl e, w2)"
  shows "calls (insert_one api today g S' k s)
         = calls s @ [AccountCreate (insert_values today k p),
                      AccountAccountGroupCreate (group_Syscode g) (Syscode a)]"
  using assms
  by (simp add: insert_one_def try_except_def insert_try_def seq_def step_def subscript_def
      remote_def log_def insert_except_frame)

lemma insert_one_find_fails:
  assumes "map_of S' k = Some p"
    "Account_create api (insert_values today k p) (world s) = (Inr a, w1)"
    "AccountAccountGroup_create api (group_Syscode g) (Syscode a) w1 = (Inr u, w2)"
    "UsrPerson_find api k w2 = (Inl e, w3)"
  shows "calls (insert_one api today g S' k s)
         = calls s @ [AccountCreate (insert_values today k p),
                      AccountAccountGroupCreate (group_Syscode g) (Syscode a),
                      UsrPersonFind k]"
  using assms
  by (simp add: insert_one_def try_except_def insert_try_def seq_def step_def subscript_def
      remote_def log_def insert_except_frame)

lemma insert_one_linked:
  assumes "map_of S' k = Some p"
    "Account_create api (insert_values today k p) (world s) = (Inr a, w1)"
    "AccountAccountGroup_create api (group_Syscode g) (Syscode a) w1 = (Inr u, w2)"
    "UsrPerson_find api k w2 = (Inr [x], w3)"
  shows "calls (insert_one api today g S' k s)
         = calls s @ [AccountCreate (insert_values today k p),
                      AccountAccountGroupCreate (group_Syscode g) (Syscode a),
                      UsrPersonFind k,
                      AccountPersonCreate (person_Syscode x) (Syscode a)]"
  using assms
  by (cases "AccountPerson_create api (person_Syscode x) (Syscode a) w3")
     (simp add: insert_one_def try_except_def insert_try_def seq_def step_def subscript_def
      remote_def log_def insert_except_frame unpack1_cases return_def split: sum.splits)

lemma insert_except_too_few:
  "insert_outcomes (insert_except k unpack_too_few s)
   = (inserts_succeeded s, inserts_skipped s, inserts_failed s,
      inserts_failed_to_link_person s @ [k])"
  by (rule insert_except_unpack) simp

lemma insert_except_too_many:
  "insert_outcomes (insert_except k unpack_too_many s)
   = (inserts_succeeded s, inserts_skipped s, inserts_failed s,
      inserts_failed_to_link_person s @ [k])"
  by (rule insert_except_unpack) simp

lemma insert_one_unlinked:
  assumes "map_of S' k = Some p"
    "Account_create api (insert_values today k p) (world s) = (Inr a, w1)"
    "AccountAccountGroup_create api (group_Syscode g) (Syscode a) w1 = (Inr u, w2)"
    "UsrPerson_find api k w2 = (Inr found, w3)"
    "length found \<noteq> 1"
  shows "calls (insert_one api today g S' k s)
         = calls s @ [AccountCreate (insert_values today k p),
                      AccountAccountGroupCreate (group_Syscode g) (Syscode a),
                      UsrPersonFind k]
         \<and> world (insert_one api today g S' k s) = w3
         \<and> insert_outcomes (insert_one api today g S' k s)
           = (inserts_succeeded s, inserts_skipped s, inserts_failed s,
              inserts_failed_to_link_person s @ [k])"
proof -
  from assms(5) consider "found = []" | x y zs where "found = x # y # zs"
    by (cases found rule: list.exhaust [case_product list.exhaust]) (auto simp: neq_Nil_conv)
  then show ?thesis
  proof cases
    case 1
    show ?thesis
      using assms(1-4) unfolding 1
      by (simp add: insert_one_def try_except_def insert_try_def seq_def step_def
          subscript_def remote_def log_def unpack1_cases insert_except_frame
          insert_except_too_few)
  next
    case 2
    show ?thesis
      using assms(1-4) unfolding 2
      by (simp add: insert_one_def try_except_def insert_try_def seq_def step_def
          subscript_def remote_def log_def unpack1_cases insert_except_frame
          insert_except_too_many)
  qed
qed


lemma inserts_have_person:
  "k \<in> set (set_iteration oi (inserts S' T)) \<Longrightarrow> \<exists>p. map_of S' k = Some p"
  using map_of_keys [of S' k] by (auto simp: set_set_iteration set_inserts)

lemma load_group:
  assumes "load api s0 = (Inr (S, S', g), s1)"
  shows "\<exists>grps w w'. AccountGroup_find api w = (Inr grps, w')
           \<and> map_of (dict_comp group_Description grps) ''DC - Requestors'' = Some g"
  using load_Inr [OF assms] by blast

text \<open>
  C7. Every key of the set of the insert loop has its person in the filtered roster. One
  iteration for such a key calls \<^verbatim>\<open>Account.create\<close> with the key as \<^verbatim>\<open>Accountname\<close>, the
  person's \<^verbatim>\<open>name\<close> as \<^verbatim>\<open>Description\<close>, the run date (as \<^verbatim>\<open>%Y-%m-%d\<close>) as \<^verbatim>\<open>BeginDate\<close> and
  \<^verbatim>\<open>PasswordNeverExpires\<close> true; then, if that returned, \<^verbatim>\<open>AccountAccountGroup.create\<close> with
  the new account and the requestor group, which is the group that \<^const>\<open>load\<close> found under
  the description \<^verbatim>\<open>DC - Requestors\<close>; then, if that returned, \<^verbatim>\<open>UsrPerson.find\<close> with
  \<^verbatim>\<open>FreeString7\<close> equal to the key; then \<^verbatim>\<open>AccountPerson.create\<close>, with the person found and
  the new account, exactly when the lookup returned one person. When the lookup returned
  none or several, the iteration makes no call after the lookup (the account and its
  group link stay as created), and appends the key to \<^verbatim>\<open>inserts_failed_to_link_person\<close> and
  to no other list.
\<close>

theorem insert_action:
  "(k \<in> set (set_iteration oi (inserts S' T)) \<longrightarrow> (\<exists>p. map_of S' k = Some p))
   \<and> insert_values today k p
     = \<lparr>values_Accountname = k, values_Description = name p,
        values_BeginDate = strftime today, values_PasswordNeverExpires = True\<rparr>
   \<and> (load api s0 = (Inr (S, S', g), s1) \<longrightarrow>
        (\<exists>grps w w'. AccountGroup_find api w = (Inr grps, w')
           \<and> map_of (dict_comp group_Description grps) ''DC - Requestors'' = Some g))
   \<and> (map_of S' k = Some p \<longrightarrow>
        (case Account_create api (insert_values today k p) (world s) of
           (Inl e, w1) \<Rightarrow>
             calls (insert_one api today g S' k s)
             = calls s @ [AccountCreate (insert_values today k p)]
         | (Inr a, w1) \<Rightarrow>
            (case AccountAccountGroup_create api (group_Syscode g) (Syscode a) w1 of
               (Inl e, w2) \<Rightarrow>
                 calls (insert_one api today g S' k s)
                 = calls s @ [AccountCreate (insert_values today k p),
                              AccountAccountGroupCreate (group_Syscode g) (Syscode a)]
             | (Inr u, w2) \<Rightarrow>
                (case UsrPerson_find api k w2 of
                   (Inl e, w3) \<Rightarrow>
                     calls (insert_one api today g S' k s)
                     = calls s @ [AccountCreate (insert_values today k p),
                                  AccountAccountGroupCreate (group_Syscode g) (Syscode a),
                                  UsrPersonFind k]
                 | (Inr found, w3) \<Rightarrow>
                     if length found = 1 then
                       calls (insert_one api today g S' k s)
                       = calls s @ [AccountCreate (insert_values today k p),
                                    AccountAccountGroupCreate (group_Syscode g) (Syscode a),
                                    UsrPersonFind k,
                                    AccountPersonCreate (person_Syscode (hd found)) (Syscode a)]
                     else
                       calls (insert_one api today g S' k s)
                       = calls s @ [AccountCreate (insert_values today k p),
                                    AccountAccountGroupCreate (group_Syscode g) (Syscode a),
                                    UsrPersonFind k]
                       \<and> world (insert_one api today g S' k s) = w3
                       \<and> insert_outcomes (insert_one api today g S' k s)
                         = (inserts_succeeded s, inserts_skipped s, inserts_failed s,
                            inserts_failed_to_link_person s @ [k])))))"
proof (intro conjI impI)
  assume "k \<in> set (set_iteration oi (inserts S' T))"
  then show "\<exists>p. map_of S' k = Some p" by (rule inserts_have_person)
next
  show "insert_values today k p
     = \<lparr>values_Accountname = k, values_Description = name p,
        values_BeginDate = strftime today, values_PasswordNeverExpires = True\<rparr>"
    by (simp add: insert_values_def)
next
  assume "load api s0 = (Inr (S, S', g), s1)"
  then show "\<exists>grps w w'. AccountGroup_find api w = (Inr grps, w')
           \<and> map_of (dict_comp group_Description grps) ''DC - Requestors'' = Some g"
    by (rule load_group)
next
  assume p: "map_of S' k = Some p"
  let ?v = "insert_values today k p"
  obtain r1 w1 where c1: "Account_create api ?v (world s) = (r1, w1)"
    by (cases "Account_create api ?v (world s)")
  show "case Account_create api ?v (world s) of
           (Inl e, w1) \<Rightarrow>
             calls (insert_one api today g S' k s) = calls s @ [AccountCreate ?v]
         | (Inr a, w1) \<Rightarrow>
            (case AccountAccountGroup_create api (group_Syscode g) (Syscode a) w1 of
               (Inl e, w2) \<Rightarrow>
                 calls (insert_one api today g S' k s)
                 = calls s @ [AccountCreate ?v,
                              AccountAccountGroupCreate (group_Syscode g) (Syscode a)]
             | (Inr u, w2) \<Rightarrow>
                (case UsrPerson_find api k w2 of
                   (Inl e, w3) \<Rightarrow>
                     calls (insert_one api today g S' k s)
                     = calls s @ [AccountCreate ?v,
                                  AccountAccountGroupCreate (group_Syscode g) (Syscode a),
                                  UsrPersonFind k]
                 | (Inr found, w3) \<Rightarrow>
                     if length found = 1 then
                       calls (insert_one api today g S' k s)
                       = calls s @ [AccountCreate ?v,
                                    AccountAccountGroupCreate (group_Syscode g) (Syscode a),
                                    UsrPersonFind k,
                                    AccountPersonCreate (person_Syscode (hd found)) (Syscode a)]
                     else
                       calls (insert_one api today g S' k s)
                       = calls s @ [AccountCreate ?v,
                                    AccountAccountGroupCreate (group_Syscode g) (Syscode a),
                                    UsrPersonFind k]
                       \<and> world (insert_one api today g S' k s) = w3
                       \<and> insert_outcomes (insert_one api today g S' k s)
                         = (inserts_succeeded s, inserts_skipped s, inserts_failed s,
                            inserts_failed_to_link_person s @ [k])))"
  proof (cases r1)
    case (Inl e)
    then have c1': "Account_create api ?v (world s) = (Inl e, w1)"
      using c1 by simp
    show ?thesis
      using insert_one_create_fails [OF p c1'] by (simp add: c1')
  next
    case (Inr a)
    then have c1': "Account_create api ?v (world s) = (Inr a, w1)"
      using c1 by simp
    obtain r2 w2 where c2: "AccountAccountGroup_create api (group_Syscode g) (Syscode a) w1 = (r2, w2)"
      by (cases "AccountAccountGroup_create api (group_Syscode g) (Syscode a) w1")
    show ?thesis
    proof (cases r2)
      case (Inl e)
      then have c2': "AccountAccountGroup_create api (group_Syscode g) (Syscode a) w1 = (Inl e, w2)"
        using c2 by simp
      show ?thesis
        using insert_one_group_fails [OF p c1' c2'] by (simp add: c1' c2')
    next
      case (Inr u)
      then have c2': "AccountAccountGroup_create api (group_Syscode g) (Syscode a) w1 = (Inr u, w2)"
        using c2 by simp
      obtain r3 w3 where c3: "UsrPerson_find api k w2 = (r3, w3)"
        by (cases "UsrPerson_find api k w2")
      show ?thesis
      proof (cases r3)
        case (Inl e)
        then have c3': "UsrPerson_find api k w2 = (Inl e, w3)"
          using c3 by simp
        show ?thesis
          using insert_one_find_fails [OF p c1' c2' c3'] by (simp add: c1' c2' c3')
      next
        case (Inr found)
        then have c3': "UsrPerson_find api k w2 = (Inr found, w3)"
          using c3 by simp
        show ?thesis
        proof (cases "length found = 1")
          case True
          then have "found = [hd found]" by (cases found) auto
          then have "UsrPerson_find api k w2 = (Inr [hd found], w3)"
            using c3' by simp
          from insert_one_linked [OF p c1' c2' this]
          show ?thesis
            using True by (simp add: c1' c2' c3')
        next
          case False
          from insert_one_unlinked [OF p c1' c2' c3' False]
          show ?thesis
            using False by (simp add: c1' c2' c3')
        qed
      qed
    qed
  qed
qed


text \<open>
  The theorem at work. In \<^const>\<open>demo_world\<close> Alice (\<open>a\<close>) has no account and one person
  record: her iteration makes the four calls. In \<^const>\<open>demo_world_rda\<close> Eve (\<open>e\<close>) has no
  account and no person record: her iteration stops after the lookup, and she is in
  \<^verbatim>\<open>inserts_failed_to_link_person\<close>.
\<close>

theorem insert_action_witness:
  "''a'' \<in> set (set_iteration []
       (inserts (dict_comp netid (filter eligible (roster demo_world)))
          (dict_comp (account_key demo_api) (directory demo_world))))
   \<and> map_of (dict_comp netid (filter eligible (roster demo_world))) ''a''
     = Some (demo_person ''a'' ''Alice'' ''STAFF'')
   \<and> fst (load demo_api (initial demo_world))
     = Inr (dict_comp netid (roster demo_world),
            dict_comp netid (filter eligible (roster demo_world)), hd demo_groups)
   \<and> (\<exists>w w'. AccountGroup_find demo_api w = (Inr demo_groups, w'))
   \<and> map_of (dict_comp group_Description demo_groups) ''DC - Requestors'' = Some (hd demo_groups)
   \<and> calls (insert_one demo_api demo_today (hd demo_groups)
        (dict_comp netid (filter eligible (roster demo_world))) ''a'' (initial demo_world))
     = [AccountCreate \<lparr>values_Accountname = ''a'', values_Description = ''Alice'',
                      values_BeginDate = ''2024-03-09'', values_PasswordNeverExpires = True\<rparr>,
        AccountAccountGroupCreate ''G7'' ''A2'',
        UsrPersonFind ''a'',
        AccountPersonCreate ''U1'' ''A2'']
   \<and> map_of (dict_comp netid (filter eligible (roster demo_world_rda))) ''e''
     = Some (demo_person ''e'' ''Eve'' ''STAFF'')
   \<and> calls (insert_one demo_api demo_today (hd demo_groups)
        (dict_comp netid (filter eligible (roster demo_world_rda))) ''e'' (initial demo_world_rda))
     = [AccountCreate \<lparr>values_Accountname = ''e'', values_Description = ''Eve'',
                      values_BeginDate = ''2024-03-09'', values_PasswordNeverExpires = True\<rparr>,
        AccountAccountGroupCreate ''G7'' ''A0'',
        UsrPersonFind ''e'']
   \<and> insert_outcomes (insert_one demo_api demo_today (hd demo_groups)
        (dict_comp netid (filter eligible (roster demo_world_rda))) ''e'' (initial demo_world_rda))
     = ([], [], [], [''e''])"
proof -
  let ?P = "dict_comp netid (filter eligible (roster demo_world))"
  let ?Q = "dict_comp netid (filter eligible (roster demo_world_rda))"
  note c2 = conjunct2
  have pa: "map_of ?P ''a'' = Some (demo_person ''a'' ''Alice'' ''STAFF'')"
    by (simp add: dict_comp_def demo_world_def demo_person_def eligible_def)
  have pe: "map_of ?Q ''e'' = Some (demo_person ''e'' ''Eve'' ''STAFF'')"
    by (simp add: dict_comp_def demo_world_rda_def demo_person_def eligible_def)
  have ia: "''a'' \<in> set (set_iteration []
       (inserts ?P (dict_comp (account_key demo_api) (directory demo_world))))"
    by (simp add: inserts_def set_diff_def keys_def dict_comp_def demo_world_def
        demo_person_def eligible_def account_key_def demo_api_def demo_account_def
        demo_lower_def demo_lower_char_def is_upper_def)
  have grp: "map_of (dict_comp group_Description (groups demo_world)) ''DC - Requestors''
             = Some (hd demo_groups)"
    using demo_groups_lookup by (simp add: demo_world_def)
  from demo_load [OF grp] have l: "fst (load demo_api (initial demo_world))
     = Inr (dict_comp netid (roster demo_world), ?P, hd demo_groups)"
    by auto
  then obtain s1 where l': "load demo_api (initial demo_world)
     = (Inr (dict_comp netid (roster demo_world), ?P, hd demo_groups), s1)"
    by (cases "load demo_api (initial demo_world)") simp
  note g = insert_action [where api = demo_api and ?s0.0 = "initial demo_world"
      and S = "dict_comp netid (roster demo_world)" and S' = ?P and g = "hd demo_groups"
      and ?s1.0 = s1, THEN c2, THEN c2, THEN conjunct1]
  have gf: "\<exists>w w'. AccountGroup_find demo_api w = (Inr demo_groups, w')"
    by (simp add: demo_api_def exI [of _ demo_world] demo_world_def)
  have v: "insert_values demo_today k p
           = \<lparr>values_Accountname = k, values_Description = name p,
              values_BeginDate = ''2024-03-09'', values_PasswordNeverExpires = True\<rparr>" for k p
    by (simp add: insert_values_def strftime_def pad2_def demo_today_def str_nat_small
        str_nat_large digit_def)
  note a = insert_action [where api = demo_api and S' = ?P and k = "''a''"
      and p = "demo_person ''a'' ''Alice'' ''STAFF''" and today = demo_today
      and g = "hd demo_groups" and s = "initial demo_world", THEN c2, THEN c2, THEN c2]
  from a pa have ra: "calls (insert_one demo_api demo_today (hd demo_groups) ?P ''a''
        (initial demo_world))
     = [AccountCreate \<lparr>values_Accountname = ''a'', values_Description = ''Alice'',
                      values_BeginDate = ''2024-03-09'', values_PasswordNeverExpires = True\<rparr>,
        AccountAccountGroupCreate ''G7'' ''A2'',
        UsrPersonFind ''a'',
        AccountPersonCreate ''U1'' ''A2'']"
    by (simp add: v demo_api_def demo_create_def initial_def demo_world_def demo_person_def
        demo_account_def demo_groups_def str_nat_small digit_def)
  note e = insert_action [where api = demo_api and S' = ?Q and k = "''e''"
      and p = "demo_person ''e'' ''Eve'' ''STAFF''" and today = demo_today
      and g = "hd demo_groups" and s = "initial demo_world_rda", THEN c2, THEN c2, THEN c2]
  from e pe have re: "calls (insert_one demo_api demo_today (hd demo_groups) ?Q ''e''
        (initial demo_world_rda))
     = [AccountCreate \<lparr>values_Accountname = ''e'', values_Description = ''Eve'',
                      values_BeginDate = ''2024-03-09'', values_PasswordNeverExpires = True\<rparr>,
        AccountAccountGroupCreate ''G7'' ''A0'',
        UsrPersonFind ''e'']
     \<and> insert_outcomes (insert_one demo_api demo_today (hd demo_groups) ?Q ''e''
        (initial demo_world_rda)) = ([], [], [], [''e''])"
    by (simp add: v demo_api_def demo_create_def initial_def demo_world_rda_def demo_person_def
        demo_account_def demo_groups_def str_nat_small digit_def)
  from g l' have "\<exists>grps w w'. AccountGroup_find demo_api w = (Inr grps, w')
           \<and> map_of (dict_comp group_Description grps) ''DC - Requestors'' = Some (hd demo_groups)"
    by blast
  note re1 = re [THEN conjunct1] and re2 = re [THEN conjunct2]
  from ia pa l gf demo_groups_lookup ra pe re1 re2 show ?thesis
    by (intro conjI) assumption+
qed

section \<open>The password loop\<close>

lemma pwd_expire_one_present:
  assumes "map_of (planon_accounts s) k = Some a"
  shows "calls (pwd_expire_one api k s)
         = calls s @ [AccountSave (a\<lparr>PasswordNeverExpires := True\<rparr>)]"
    and "map_of (planon_accounts (pwd_expire_one api k s)) k
         = Some (a\<lparr>PasswordNeverExpires := True\<rparr>)"
  using assms
  by (auto simp: pwd_expire_one_def pwd_expire_try_def pwd_expire_except_def try_except_def
        seq_def step_def return_def subscript_def remote_def log_def assign_account_def
        update_conv
      split: prod.splits sum.splits)

lemma pwd_expire_one_absent:
  assumes "map_of (planon_accounts s) k = None"
  shows "pwd_expire_one api k s
         = log ERROR (''Failed to modify account '' @ k @ '' due to exception '' @ str (KeyError k))
             (s\<lparr>pwd_expire_failed := pwd_expire_failed s @ [k]\<rparr>)"
  using assms
  by (simp add: pwd_expire_one_def pwd_expire_try_def pwd_expire_except_def try_except_def
      seq_def subscript_def)

lemma demo_lower_ab: "demo_lower ''ab'' = ''ab''"
  by code_simp

text \<open>
  C8, as the code has it. The loop runs over the keys of the accounts that the query of
  line 244 returned (no \<^verbatim>\<open>EndDate\<close>, \<^verbatim>\<open>PasswordNeverExpires\<close> false). One iteration takes the
  account from \<^verbatim>\<open>planon_accounts\<close>, the snapshot of line 184, not from the result of the
  query: for a key of the snapshot it assigns \<^verbatim>\<open>PasswordNeverExpires\<close> to the account of the
  snapshot and saves that account; for a key that the snapshot lacks the subscription of
  line 252 raises \<^verbatim>\<open>KeyError\<close>, the key is appended to \<^verbatim>\<open>pwd_expire_failed\<close>, and no call is
  made.
\<close>

theorem normalize_password_flag:
  "set (set_iteration op (pwd_expires api found)) = account_key api ` set found
   \<and> (map_of (planon_accounts s) k = Some a \<longrightarrow>
        calls (pwd_expire_one api k s)
        = calls s @ [AccountSave (a\<lparr>PasswordNeverExpires := True\<rparr>)]
        \<and> map_of (planon_accounts (pwd_expire_one api k s)) k
          = Some (a\<lparr>PasswordNeverExpires := True\<rparr>))
   \<and> (map_of (planon_accounts s) k = None \<longrightarrow>
        pwd_expire_one api k s
        = log ERROR (''Failed to modify account '' @ k @ '' due to exception '' @ str (KeyError k))
            (s\<lparr>pwd_expire_failed := pwd_expire_failed s @ [k]\<rparr>))"
  using pwd_expire_one_present [of s k a api] pwd_expire_one_absent [of s k api]
  by (simp add: set_set_iteration pwd_expires_def set_keys_dict_comp)

text \<open>
  Two runs where an account whose password expires is not changed. In
  \<^const>\<open>demo_state_late\<close> the account \<open>z\<close> was created after line 184: the query of line 244
  returns Bob's account and \<open>z\<close>; Bob's is saved, \<open>z\<close> fails with \<^verbatim>\<open>KeyError\<close> and keeps its
  flag. With the accounts \<open>ab\<close> (password expires) and \<open>AB\<close> (never expires) the snapshot
  has \<open>AB\<close> under the key \<open>ab\<close>: the iteration for \<open>ab\<close> saves \<open>AB\<close>.
\<close>

theorem normalize_password_flag_witness:
  "map_of (planon_accounts demo_state_late) ''z'' = None
   \<and> pwd_expire_one demo_api ''z'' demo_state_late
     = log ERROR (''Failed to modify account z due to exception '' @ str (KeyError ''z''))
         (demo_state_late\<lparr>pwd_expire_failed := [''z'']\<rparr>)
   \<and> fst (pwd_expires_pass demo_api [] demo_state_late) = Inr ()
   \<and> calls (snd (pwd_expires_pass demo_api [] demo_state_late))
     = [AccountFind account_filter_pwd, AccountSave (demo_account ''b'' ''Bob'' True ''A0'')]
   \<and> pwd_expire_succeeded (snd (pwd_expires_pass demo_api [] demo_state_late)) = [''b'']
   \<and> pwd_expire_failed (snd (pwd_expires_pass demo_api [] demo_state_late)) = [''z'']
   \<and> directory (world (snd (pwd_expires_pass demo_api [] demo_state_late)))
     = [demo_account ''b'' ''Bob'' True ''A0'', demo_account ''z'' ''Zed'' False ''A9'']
   \<and> dict_comp (account_key demo_api)
        [demo_account ''ab'' ''Abe'' False ''A0'', demo_account ''AB'' ''Abigail'' True ''A1'']
     = [(''ab'', demo_account ''AB'' ''Abigail'' True ''A1'')]
   \<and> pwd_expires demo_api [demo_account ''ab'' ''Abe'' False ''A0''] = [''ab'']
   \<and> calls (pwd_expire_one demo_api ''ab''
        ((initial demo_world)
           \<lparr>planon_accounts := [(''ab'', demo_account ''AB'' ''Abigail'' True ''A1'')]\<rparr>))
     = [AccountSave (demo_account ''AB'' ''Abigail'' True ''A1'')]"
proof -
  note c2 = conjunct2
  have z: "map_of (planon_accounts demo_state_late) ''z'' = None"
    by (simp add: demo_state_late_def)
  note absent = normalize_password_flag [where s = demo_state_late and k = "''z''"
      and api = demo_api, THEN c2, THEN c2]
  from absent z have r1: "pwd_expire_one demo_api ''z'' demo_state_late
     = log ERROR (''Failed to modify account z due to exception '' @ str (KeyError ''z''))
         (demo_state_late\<lparr>pwd_expire_failed := [''z'']\<rparr>)"
    by (simp add: demo_state_late_def initial_def)
  have pass: "fst (pwd_expires_pass demo_api [] demo_state_late) = Inr ()
     \<and> calls (snd (pwd_expires_pass demo_api [] demo_state_late))
       = [AccountFind account_filter_pwd, AccountSave (demo_account ''b'' ''Bob'' True ''A0'')]
     \<and> pwd_expire_succeeded (snd (pwd_expires_pass demo_api [] demo_state_late)) = [''b'']
     \<and> pwd_expire_failed (snd (pwd_expires_pass demo_api [] demo_state_late)) = [''z'']
     \<and> directory (world (snd (pwd_expires_pass demo_api [] demo_state_late)))
       = [demo_account ''b'' ''Bob'' True ''A0'', demo_account ''z'' ''Zed'' False ''A9'']"
    by (simp add: demo_state_late_def exec cong: exec_cong)
  have d: "dict_comp (account_key demo_api)
        [demo_account ''ab'' ''Abe'' False ''A0'', demo_account ''AB'' ''Abigail'' True ''A1'']
     = [(''ab'', demo_account ''AB'' ''Abigail'' True ''A1'')]"
    by (simp add: dict_comp_def account_key_def demo_api_def demo_account_def demo_lower_AB
        demo_lower_ab)
  have q: "pwd_expires demo_api [demo_account ''ab'' ''Abe'' False ''A0''] = [''ab'']"
    by (simp add: pwd_expires_def keys_def dict_comp_def account_key_def demo_api_def
        demo_account_def demo_lower_ab)
  note present = normalize_password_flag [where k = "''ab''" and api = demo_api
      and a = "demo_account ''AB'' ''Abigail'' True ''A1''"
      and s = "(initial demo_world)
           \<lparr>planon_accounts := [(''ab'', demo_account ''AB'' ''Abigail'' True ''A1'')]\<rparr>",
      THEN c2, THEN conjunct1]
  from present have r2: "calls (pwd_expire_one demo_api ''ab''
        ((initial demo_world)
           \<lparr>planon_accounts := [(''ab'', demo_account ''AB'' ''Abigail'' True ''A1'')]\<rparr>))
     = [AccountSave (demo_account ''AB'' ''Abigail'' True ''A1'')]"
    by (simp add: initial_def demo_account_def)
  note p1 = pass [THEN conjunct1] and p2 = pass [THEN c2, THEN conjunct1]
    and p3 = pass [THEN c2, THEN c2, THEN conjunct1]
    and p4 = pass [THEN c2, THEN c2, THEN c2, THEN conjunct1]
    and p5 = pass [THEN c2, THEN c2, THEN c2, THEN c2]
  from z r1 p1 p2 p3 p4 p5 d q r2 show ?thesis
    by (intro conjI) assumption+
qed

section \<open>One outcome list per key\<close>

lemma finishes_seq:
  "keepsm g m \<Longrightarrow> (\<And>a. finishes g h (f a)) \<Longrightarrow> finishes g h (seq m f)"
  unfolding finishes_def keepsm_def seq_def
proof (intro allI)
  fix s
  assume k: "\<forall>s. g (snd (m s)) = g s"
    and f: "\<And>a. \<forall>s. case f a s of (Inl e, s') \<Rightarrow> g s' = g s | (Inr r, s') \<Rightarrow> g s' = h (g s)"
  obtain r s' where m: "m s = (r, s')" by (cases "m s")
  have g: "g s' = g s" using k [rule_format, of s] m by simp
  show "case (case m s of (Inl e, s') \<Rightarrow> (Inl e, s') | (Inr a, s') \<Rightarrow> f a s') of
          (Inl e, s') \<Rightarrow> g s' = g s | (Inr r, s') \<Rightarrow> g s' = h (g s)"
  proof (cases r)
    case (Inl e)
    then show ?thesis using m g by simp
  next
    case (Inr a)
    then show ?thesis using m g f [of a, rule_format, of s']
      by (simp split: prod.splits sum.splits)
  qed
qed

lemma finishes_step: "keeps g st \<Longrightarrow> finishes g h m \<Longrightarrow> finishes g h (step st m)"
  unfolding finishes_def keeps_def step_def
proof (intro allI)
  fix s
  assume k: "\<forall>s. g (st s) = g s"
    and f: "\<forall>s. case m s of (Inl e, s') \<Rightarrow> g s' = g s | (Inr r, s') \<Rightarrow> g s' = h (g s)"
  from f [rule_format, of "st s"] k [rule_format, of s]
  show "case m (st s) of (Inl e, s') \<Rightarrow> g s' = g s | (Inr r, s') \<Rightarrow> g s' = h (g s)"
    by (simp split: prod.splits sum.splits)
qed

lemma finishes_last: "(\<And>s. g (st s) = h (g s)) \<Longrightarrow> finishes g h (step st (return ()))"
  by (simp add: finishes_def step_def return_def)

lemma finishesD:
  "finishes g h m \<Longrightarrow> m s = (Inl e, s') \<Longrightarrow> g s' = g s"
  "finishes g h m \<Longrightarrow> m s = (Inr r, s') \<Longrightarrow> g s' = h (g s)"
  by (auto simp: finishes_def dest: spec [of _ s])

lemma insert_try_finishes:
  "finishes insert_outcomes (\<lambda>(a, b, c, d). (a @ [k], b, c, d)) (insert_try api today g S k)"
  unfolding insert_try_def
  by (intro finishes_last finishes_seq finishes_step keeps_intros keepsm_outcomes_remote
        keeps_outcomes_log)
     (simp add: insert_outcomes_def)

lemma insert_except_outcomes_cases:
  "insert_outcomes s' = (a, b, c, d) \<Longrightarrow>
   insert_outcomes (insert_except k e s')
   \<in> {(a, b @ [k], c, d), (a, b, c @ [k], d), (a, b, c, d @ [k])}"
  by (auto simp: insert_except_def insert_outcomes_def log_def split: exn.splits)

lemma insert_one_outcomes_cases:
  "insert_outcomes (insert_one api today g S k s)
   \<in> {(inserts_succeeded s @ [k], inserts_skipped s, inserts_failed s,
        inserts_failed_to_link_person s),
       (inserts_succeeded s, inserts_skipped s @ [k], inserts_failed s,
        inserts_failed_to_link_person s),
       (inserts_succeeded s, inserts_skipped s, inserts_failed s @ [k],
        inserts_failed_to_link_person s),
       (inserts_succeeded s, inserts_skipped s, inserts_failed s,
        inserts_failed_to_link_person s @ [k])}"
proof -
  let ?s0 = "log DEBUG (''Processing insert for '' @ k) s"
  have s0: "insert_outcomes ?s0 = insert_outcomes s"
    by (simp add: insert_outcomes_def log_def)
  obtain r s' where t: "insert_try api today g S k ?s0 = (r, s')"
    by (cases "insert_try api today g S k ?s0")
  show ?thesis
  proof (cases r)
    case (Inl e)
    have "insert_outcomes s' = insert_outcomes s"
      using finishesD(1) [OF insert_try_finishes, of api today g S k ?s0 e s'] t Inl s0 by simp
    then have "insert_outcomes s' = (inserts_succeeded s, inserts_skipped s, inserts_failed s,
        inserts_failed_to_link_person s)"
      by (simp add: insert_outcomes_def)
    from insert_except_outcomes_cases [OF this, of k e] show ?thesis
      using t Inl by (simp add: insert_one_def try_except_def)
  next
    case (Inr u)
    have "insert_outcomes s' = (\<lambda>(a, b, c, d). (a @ [k], b, c, d)) (insert_outcomes s)"
      using finishesD(2) [OF insert_try_finishes, of api today g S k ?s0 u s'] t Inr s0 by simp
    then show ?thesis
      using t Inr by (simp add: insert_one_def try_except_def insert_outcomes_def)
  qed
qed

lemma insert_one_succeeded:
  "inserts_succeeded (insert_one api today g S k s)
   = (case fst (insert_try api today g S k (log DEBUG (''Processing insert for '' @ k) s)) of
        Inr _ \<Rightarrow> inserts_succeeded s @ [k]
      | Inl _ \<Rightarrow> inserts_succeeded s)"
proof -
  let ?s0 = "log DEBUG (''Processing insert for '' @ k) s"
  have s0: "insert_outcomes ?s0 = insert_outcomes s"
    by (simp add: insert_outcomes_def log_def)
  obtain r s' where t: "insert_try api today g S k ?s0 = (r, s')"
    by (cases "insert_try api today g S k ?s0")
  show ?thesis
  proof (cases r)
    case (Inl e)
    have "insert_outcomes s' = insert_outcomes s"
      using finishesD(1) [OF insert_try_finishes, of api today g S k ?s0 e s'] t Inl s0 by simp
    then have "inserts_succeeded s' = inserts_succeeded s"
      by (simp add: insert_outcomes_def)
    moreover have "inserts_succeeded (insert_except k e s') = inserts_succeeded s'"
      by (simp add: insert_except_def log_def split: exn.splits)
    ultimately show ?thesis
      using t Inl by (simp add: insert_one_def try_except_def)
  next
    case (Inr u)
    have "insert_outcomes s' = (\<lambda>(a, b, c, d). (a @ [k], b, c, d)) (insert_outcomes s)"
      using finishesD(2) [OF insert_try_finishes, of api today g S k ?s0 u s'] t Inr s0 by simp
    then show ?thesis
      using t Inr by (simp add: insert_one_def try_except_def insert_outcomes_def)
  qed
qed

lemma appended_once_4:
  "appended_once k [(a, a @ [k]), (b, b), (c, c), (d, d)]"
  "appended_once k [(a, a), (b, b @ [k]), (c, c), (d, d)]"
  "appended_once k [(a, a), (b, b), (c, c @ [k]), (d, d)]"
  "appended_once k [(a, a), (b, b), (c, c), (d, d @ [k])]"
  by (simp_all add: appended_once_def)

lemma appended_once_2:
  "appended_once k [(a, a @ [k]), (b, b)]"
  "appended_once k [(a, a), (b, b @ [k])]"
  "\<not> appended_once k [(a, a), (b, b)]"
  "\<not> appended_once k [(a, a @ [k]), (b, b @ [k])]"
  by (simp_all add: appended_once_def)

lemma insert_one_appended_once:
  "appended_once k
     [(inserts_succeeded s, inserts_succeeded (insert_one api today g S k s)),
      (inserts_skipped s, inserts_skipped (insert_one api today g S k s)),
      (inserts_failed s, inserts_failed (insert_one api today g S k s)),
      (inserts_failed_to_link_person s,
       inserts_failed_to_link_person (insert_one api today g S k s))]"
  using insert_one_outcomes_cases [of api today g S k s]
  by (auto simp: insert_outcomes_def appended_once_4)

lemma pwd_expire_one_lists:
  "pwd_expire_succeeded (pwd_expire_one api k s)
   = (case fst (pwd_expire_try api k s) of
        Inr _ \<Rightarrow> pwd_expire_succeeded s @ [k] | Inl _ \<Rightarrow> pwd_expire_succeeded s)"
  "pwd_expire_failed (pwd_expire_one api k s)
   = (case fst (pwd_expire_try api k s) of
        Inr _ \<Rightarrow> pwd_expire_failed s | Inl _ \<Rightarrow> pwd_expire_failed s @ [k])"
  by (auto simp: pwd_expire_one_def pwd_expire_try_def pwd_expire_except_def try_except_def
        seq_def step_def return_def subscript_def remote_def log_def assign_account_def
      split: prod.splits sum.splits option.splits)

lemma update_one_lists:
  "updates_succeeded (update_one api S k s)
   = (case fst (update_try api S k s) of
        Inr _ \<Rightarrow> if agree S k s then updates_succeeded s else updates_succeeded s @ [k]
      | Inl _ \<Rightarrow> updates_succeeded s)"
  "updates_failed (update_one api S k s)
   = (case fst (update_try api S k s) of
        Inr _ \<Rightarrow> updates_failed s | Inl _ \<Rightarrow> updates_failed s @ [k])"
  by (auto simp: update_one_def update_try_def update_except_def try_except_def agree_def
        seq_def step_def return_def subscript_def remote_def log_def assign_account_def
      split: prod.splits sum.splits option.splits)

lemma update_try_agree: "agree S k s \<Longrightarrow> fst (update_try api S k s) = Inr ()"
  by (auto simp: update_try_def agree_def seq_def step_def return_def subscript_def
      split: option.splits)

lemma deactivate_one_raised:
  assumes "map_of (planon_accounts s) k = None
           \<or> (\<exists>a e w. map_of (planon_accounts s) k = Some a
                \<and> Account_save api (a\<lparr>EndDate := Some today\<rparr>) (world s) = (Inl e, w))"
  shows "deactivates_succeeded (deactivate_one api today k s) = deactivates_succeeded s"
    and "deactivates_failed (deactivate_one api today k s) = deactivates_failed s @ [k]"
  using assms
  by (auto simp: deactivate_one_def deactivate_try_def deactivate_except_def try_except_def
        seq_def step_def return_def subscript_def remote_def log_def assign_account_def)

text \<open>
  The successful path of the deactivate loop: once \<^verbatim>\<open>save()\<close> has returned, the key is
  appended to \<^verbatim>\<open>deactivates_succeeded\<close>, and the f-string of line 229 then raises inside
  the \<^verbatim>\<open>try\<close> block, so the handler appends the key to \<^verbatim>\<open>deactivates_failed\<close> as well.
\<close>

lemma deactivate_one_saved:
  assumes "map_of (planon_accounts s) k = Some a"
    "Account_save api (a\<lparr>EndDate := Some today\<rparr>) (world s) = (Inr b, w)"
  shows "deactivates_succeeded (deactivate_one api today k s) = deactivates_succeeded s @ [k]"
    and "deactivates_failed (deactivate_one api today k s) = deactivates_failed s @ [k]"
  using assms
  by (auto simp: deactivate_one_def deactivate_try_def deactivate_except_def try_except_def
        seq_def step_def return_def subscript_def remote_def log_def assign_account_def
        raise_def)


text \<open>
  C5, as the code has it. One iteration of the insert loop appends its key to exactly one
  of the four lists of the loop and leaves the other three as they were: to
  \<^verbatim>\<open>inserts_succeeded\<close> when the \<^verbatim>\<open>try\<close> block returns, to one of the three others when it
  raises. One iteration of the password loop appends its key to exactly one of the two
  lists of the loop: to \<^verbatim>\<open>pwd_expire_succeeded\<close> when the block returns, to
  \<^verbatim>\<open>pwd_expire_failed\<close> when it raises. One iteration of the update loop for a key whose
  names agree appends the key to no list; for any other key it appends the key to exactly
  one of the two lists: to \<^verbatim>\<open>updates_succeeded\<close> when the block returns, to \<^verbatim>\<open>updates_failed\<close>
  when it raises. One iteration of the deactivate loop whose subscription or \<^verbatim>\<open>save()\<close>
  raises appends its key to \<^verbatim>\<open>deactivates_failed\<close> and not to \<^verbatim>\<open>deactivates_succeeded\<close>.
\<close>

theorem one_outcome_list:
  "appended_once k
     [(inserts_succeeded s, inserts_succeeded (insert_one api today g S' k s)),
      (inserts_skipped s, inserts_skipped (insert_one api today g S' k s)),
      (inserts_failed s, inserts_failed (insert_one api today g S' k s)),
      (inserts_failed_to_link_person s,
       inserts_failed_to_link_person (insert_one api today g S' k s))]
   \<and> inserts_succeeded (insert_one api today g S' k s)
     = (case fst (insert_try api today g S' k (log DEBUG (''Processing insert for '' @ k) s)) of
          Inr _ \<Rightarrow> inserts_succeeded s @ [k]
        | Inl _ \<Rightarrow> inserts_succeeded s)
   \<and> appended_once k
       [(pwd_expire_succeeded s, pwd_expire_succeeded (pwd_expire_one api k s)),
        (pwd_expire_failed s, pwd_expire_failed (pwd_expire_one api k s))]
   \<and> pwd_expire_succeeded (pwd_expire_one api k s)
     = (case fst (pwd_expire_try api k s) of
          Inr _ \<Rightarrow> pwd_expire_succeeded s @ [k] | Inl _ \<Rightarrow> pwd_expire_succeeded s)
   \<and> (agree S k s \<longrightarrow>
        updates_succeeded (update_one api S k s) = updates_succeeded s
        \<and> updates_failed (update_one api S k s) = updates_failed s)
   \<and> (\<not> agree S k s \<longrightarrow>
        appended_once k
          [(updates_succeeded s, updates_succeeded (update_one api S k s)),
           (updates_failed s, updates_failed (update_one api S k s))]
        \<and> updates_succeeded (update_one api S k s)
          = (case fst (update_try api S k s) of
               Inr _ \<Rightarrow> updates_succeeded s @ [k] | Inl _ \<Rightarrow> updates_succeeded s))
   \<and> (map_of (planon_accounts s) k = None
        \<or> (\<exists>a e w. map_of (planon_accounts s) k = Some a
              \<and> Account_save api (a\<lparr>EndDate := Some today\<rparr>) (world s) = (Inl e, w)) \<longrightarrow>
        deactivates_succeeded (deactivate_one api today k s) = deactivates_succeeded s
        \<and> deactivates_failed (deactivate_one api today k s) = deactivates_failed s @ [k])"
proof -
  have i1: "appended_once k
     [(inserts_succeeded s, inserts_succeeded (insert_one api today g S' k s)),
      (inserts_skipped s, inserts_skipped (insert_one api today g S' k s)),
      (inserts_failed s, inserts_failed (insert_one api today g S' k s)),
      (inserts_failed_to_link_person s,
       inserts_failed_to_link_person (insert_one api today g S' k s))]"
    by (rule insert_one_appended_once)
  note i2 = insert_one_succeeded [of api today g S' k s]
  have p1: "appended_once k
       [(pwd_expire_succeeded s, pwd_expire_succeeded (pwd_expire_one api k s)),
        (pwd_expire_failed s, pwd_expire_failed (pwd_expire_one api k s))]"
    by (cases "fst (pwd_expire_try api k s)") (simp_all add: pwd_expire_one_lists appended_once_2)
  note p2 = pwd_expire_one_lists(1) [of api k s]
  have u1: "agree S k s \<longrightarrow>
        updates_succeeded (update_one api S k s) = updates_succeeded s
        \<and> updates_failed (update_one api S k s) = updates_failed s"
    by (simp add: update_one_lists update_try_agree)
  have u2: "\<not> agree S k s \<longrightarrow>
        appended_once k
          [(updates_succeeded s, updates_succeeded (update_one api S k s)),
           (updates_failed s, updates_failed (update_one api S k s))]
        \<and> updates_succeeded (update_one api S k s)
          = (case fst (update_try api S k s) of
               Inr _ \<Rightarrow> updates_succeeded s @ [k] | Inl _ \<Rightarrow> updates_succeeded s)"
    by (cases "fst (update_try api S k s)") (simp_all add: update_one_lists appended_once_2)
  have d: "map_of (planon_accounts s) k = None
        \<or> (\<exists>a e w. map_of (planon_accounts s) k = Some a
              \<and> Account_save api (a\<lparr>EndDate := Some today\<rparr>) (world s) = (Inl e, w)) \<longrightarrow>
        deactivates_succeeded (deactivate_one api today k s) = deactivates_succeeded s
        \<and> deactivates_failed (deactivate_one api today k s) = deactivates_failed s @ [k]"
    using deactivate_one_raised [of s k api today] by blast
  from i1 i2 p1 p2 u1 u2 d show ?thesis
    by (intro conjI) assumption+
qed

text \<open>
  The theorem at work on \<^const>\<open>demo_state\<close>: with a roster where Bob is Robert the
  iteration for \<open>b\<close> appends \<open>b\<close> to \<^verbatim>\<open>updates_succeeded\<close>; with the roster of
  \<^const>\<open>demo_world\<close>, where the names agree, it appends to no list; and the iteration of the
  deactivate loop for a key that the snapshot lacks appends the key to
  \<^verbatim>\<open>deactivates_failed\<close>.
\<close>

theorem one_outcome_list_witness:
  "\<not> agree (dict_comp netid [demo_person ''b'' ''Robert'' ''STAFF'']) ''b'' demo_state
   \<and> updates_succeeded
        (update_one demo_api (dict_comp netid [demo_person ''b'' ''Robert'' ''STAFF'']) ''b''
           demo_state) = [''b'']
   \<and> updates_failed
        (update_one demo_api (dict_comp netid [demo_person ''b'' ''Robert'' ''STAFF'']) ''b''
           demo_state) = []
   \<and> agree (dict_comp netid (roster demo_world)) ''b'' demo_state
   \<and> updates_succeeded (update_one demo_api (dict_comp netid (roster demo_world)) ''b'' demo_state)
     = []
   \<and> updates_failed (update_one demo_api (dict_comp netid (roster demo_world)) ''b'' demo_state)
     = []
   \<and> map_of (planon_accounts demo_state) ''q'' = None
   \<and> deactivates_succeeded (deactivate_one demo_api demo_today ''q'' demo_state) = []
   \<and> deactivates_failed (deactivate_one demo_api demo_today ''q'' demo_state) = [''q'']"
proof -
  let ?R = "dict_comp netid [demo_person ''b'' ''Robert'' ''STAFF'']"
  let ?Q = "dict_comp netid (roster demo_world)"
  note c2 = conjunct2
  have l: "updates_succeeded demo_state = []" "updates_failed demo_state = []"
    "deactivates_succeeded demo_state = []" "deactivates_failed demo_state = []"
    by (simp_all add: demo_state_def initial_def)
  have n: "\<not> agree ?R ''b'' demo_state"
    by (simp add: agree_def demo_state_def dict_comp_def demo_person_def demo_account_def)
  have t: "fst (update_try demo_api ?R ''b'' demo_state) = Inr ()"
    by (simp add: update_try_def seq_def step_def return_def subscript_def remote_def
        demo_state_def dict_comp_def demo_person_def demo_account_def demo_api_def
        demo_save_def initial_def)
  note differ = one_outcome_list [where S = ?R and k = "''b''" and s = demo_state
      and api = demo_api, THEN c2, THEN c2, THEN c2, THEN c2, THEN c2, THEN conjunct1]
  from differ n have a: "appended_once ''b''
          [(updates_succeeded demo_state, updates_succeeded (update_one demo_api ?R ''b'' demo_state)),
           (updates_failed demo_state, updates_failed (update_one demo_api ?R ''b'' demo_state))]"
    and r0: "updates_succeeded (update_one demo_api ?R ''b'' demo_state)
          = (case fst (update_try demo_api ?R ''b'' demo_state) of
               Inr _ \<Rightarrow> updates_succeeded demo_state @ [''b'']
             | Inl _ \<Rightarrow> updates_succeeded demo_state)"
    by blast+
  from r0 have r1: "updates_succeeded (update_one demo_api ?R ''b'' demo_state) = [''b'']"
    by (simp add: t l)
  from a r1 have r2: "updates_failed (update_one demo_api ?R ''b'' demo_state) = []"
    by (simp add: appended_once_def l split: if_splits)
  have g: "agree ?Q ''b'' demo_state"
    by (simp add: agree_def demo_state_def dict_comp_def demo_world_def demo_person_def
        demo_account_def)
  note same = one_outcome_list [where S = ?Q and k = "''b''" and s = demo_state
      and api = demo_api, THEN c2, THEN c2, THEN c2, THEN c2, THEN conjunct1]
  from same g have r3: "updates_succeeded (update_one demo_api ?Q ''b'' demo_state) = []"
    and r4: "updates_failed (update_one demo_api ?Q ''b'' demo_state) = []"
    by (simp_all add: l)
  have q: "map_of (planon_accounts demo_state) ''q'' = None"
    by (simp add: demo_state_def)
  note deact = one_outcome_list [where k = "''q''" and s = demo_state and api = demo_api
      and today = demo_today, THEN c2, THEN c2, THEN c2, THEN c2, THEN c2, THEN c2]
  from deact q have r5: "deactivates_succeeded (deactivate_one demo_api demo_today ''q'' demo_state) = []"
    and r6: "deactivates_failed (deactivate_one demo_api demo_today ''q'' demo_state) = [''q'']"
    by (simp_all add: l)
  from n r1 r2 g r3 r4 q r5 r6 show ?thesis
    by (intro conjI) assumption+
qed

text \<open>
  Against C5 as it was stated: \<open>b\<close> is in the set of the update loop of \<^const>\<open>demo_state\<close>
  with the roster of \<^const>\<open>demo_world\<close>, Bob's names agree, and the iteration for \<open>b\<close>
  appends \<open>b\<close> to neither list of the loop.
\<close>

theorem one_outcome_list_counterexample:
  "''b'' \<in> set (updates (planon_accounts demo_state) (dict_comp netid (roster demo_world)))
   \<and> updates_succeeded (update_one demo_api (dict_comp netid (roster demo_world)) ''b'' demo_state)
     = updates_succeeded demo_state
   \<and> updates_failed (update_one demo_api (dict_comp netid (roster demo_world)) ''b'' demo_state)
     = updates_failed demo_state
   \<and> \<not> appended_once ''b''
        [(updates_succeeded demo_state,
          updates_succeeded (update_one demo_api (dict_comp netid (roster demo_world)) ''b''
             demo_state)),
         (updates_failed demo_state,
          updates_failed (update_one demo_api (dict_comp netid (roster demo_world)) ''b''
             demo_state))]"
proof -
  let ?Q = "dict_comp netid (roster demo_world)"
  have m: "''b'' \<in> set (updates (planon_accounts demo_state) ?Q)"
    by (simp add: updates_def set_inter_def demo_state_def keys_def dict_comp_def
        demo_world_def demo_person_def)
  have g: "agree ?Q ''b'' demo_state"
    by (simp add: agree_def demo_state_def dict_comp_def demo_world_def demo_person_def
        demo_account_def)
  have s: "updates_succeeded (update_one demo_api ?Q ''b'' demo_state) = updates_succeeded demo_state"
    and f: "updates_failed (update_one demo_api ?Q ''b'' demo_state) = updates_failed demo_state"
    using update_one_agree_quiet(4,5) [OF g] by simp_all
  have "\<not> appended_once ''b''
        [(updates_succeeded demo_state, updates_succeeded (update_one demo_api ?Q ''b'' demo_state)),
         (updates_failed demo_state, updates_failed (update_one demo_api ?Q ''b'' demo_state))]"
    unfolding s f by (rule appended_once_2(3))
  with m s f show ?thesis
    by (intro conjI) assumption+
qed

end
